theory Spec2Isabelle
  imports Complex_Main "HOL-Library.Sublist"
begin

section \<open>Text\<close>

text \<open>
  A Python \<open>str\<close> is represented by its UTF-8 encoding, a \<^typ>\<open>string\<close> of bytes;
  the files the program reads and writes are opened with \<open>encoding='utf-8'\<close>, so a
  text and the bytes stored for it coincide.  Strings holding an unpaired surrogate
  have no UTF-8 encoding and are outside this representation.
\<close>

definition is_continuation :: "char \<Rightarrow> bool" where
  "is_continuation c = (0x80 \<le> (of_char c :: nat) \<and> (of_char c :: nat) < 0xC0)"

text \<open>\<open>len(s)\<close> counts code points: the bytes that do not continue a sequence.\<close>

definition py_len :: "string \<Rightarrow> nat" where
  "py_len s = length (filter (\<lambda>c. \<not> is_continuation c) s)"

text \<open>\<open>s[:n]\<close>: the first \<open>n\<close> code points.\<close>

fun py_take :: "nat \<Rightarrow> string \<Rightarrow> string" where
  "py_take n [] = []"
| "py_take n (c # cs) =
     (if is_continuation c then c # py_take n cs
      else (case n of 0 \<Rightarrow> [] | Suc m \<Rightarrow> c # py_take m cs))"

definition digit_char :: "nat \<Rightarrow> char" where
  "digit_char d = char_of (48 + d)"

fun str_nat :: "nat \<Rightarrow> string" where
  "str_nat n = (if n < 10 then [digit_char n] else str_nat (n div 10) @ [digit_char (n mod 10)])"

declare str_nat.simps [simp del]

definition str_int :: "int \<Rightarrow> string" where
  "str_int i = (if i < 0 then CHR ''-'' # str_nat (nat (- i)) else str_nat (nat i))"

text \<open>\<open>str.zfill\<close>, as \<open>strftime\<close> pads its numeric fields.\<close>

definition zfill :: "nat \<Rightarrow> string \<Rightarrow> string" where
  "zfill w s = replicate (w - length s) (CHR ''0'') @ s"

definition byte_in :: "nat \<Rightarrow> nat \<Rightarrow> char \<Rightarrow> bool" where
  "byte_in lo hi c = (lo \<le> (of_char c :: nat) \<and> (of_char c :: nat) \<le> hi)"

text \<open>Well-formed UTF-8 (the byte sequences the \<open>utf-8\<close> codec decodes without error).\<close>

fun utf8_valid :: "string \<Rightarrow> bool" where
  "utf8_valid [] = True"
| "utf8_valid (c # cs) =
     (if byte_in 0x00 0x7F c then utf8_valid cs
      else if byte_in 0xC2 0xDF c then
        (case cs of c1 # r \<Rightarrow> byte_in 0x80 0xBF c1 \<and> utf8_valid r | _ \<Rightarrow> False)
      else if byte_in 0xE0 0xEF c then
        (case cs of
           c1 # c2 # r \<Rightarrow>
             (if byte_in 0xE0 0xE0 c then byte_in 0xA0 0xBF c1
              else if byte_in 0xED 0xED c then byte_in 0x80 0x9F c1
              else byte_in 0x80 0xBF c1)
             \<and> byte_in 0x80 0xBF c2 \<and> utf8_valid r
         | _ \<Rightarrow> False)
      else if byte_in 0xF0 0xF4 c then
        (case cs of
           c1 # c2 # c3 # r \<Rightarrow>
             (if byte_in 0xF0 0xF0 c then byte_in 0x90 0xBF c1
              else if byte_in 0xF4 0xF4 c then byte_in 0x80 0x8F c1
              else byte_in 0x80 0xBF c1)
             \<and> byte_in 0x80 0xBF c2 \<and> byte_in 0x80 0xBF c3 \<and> utf8_valid r
         | _ \<Rightarrow> False)
      else False)"

text \<open>
  Reading in text mode with the default \<open>newline=None\<close> translates \<open>\r\n\<close> and a
  lone \<open>\r\<close> to \<open>\n\<close>.
\<close>

fun universal_newlines :: "string \<Rightarrow> string" where
  "universal_newlines [] = []"
| "universal_newlines (c # cs) =
     (if c = CHR 0x0D then
        (case cs of
           d # r \<Rightarrow> if d = CHR 0x0A then CHR 0x0A # universal_newlines r
                    else CHR 0x0A # universal_newlines cs
         | [] \<Rightarrow> [CHR 0x0A])
      else c # universal_newlines cs)"

text \<open>\<open>str.split(sep)\<close>, \<open>sep.join(xs)\<close> and \<open>str.rfind(c)\<close>.\<close>

fun split_on :: "char \<Rightarrow> string \<Rightarrow> string list" where
  "split_on sep [] = [[]]"
| "split_on sep (c # cs) =
     (if c = sep then [] # split_on sep cs
      else (case split_on sep cs of x # xs \<Rightarrow> (c # x) # xs | [] \<Rightarrow> [[c]]))"

fun join_with :: "string \<Rightarrow> string list \<Rightarrow> string" where
  "join_with sep [] = []"
| "join_with sep [x] = x"
| "join_with sep (x # y # ys) = x @ sep @ join_with sep (y # ys)"

fun rfind :: "char \<Rightarrow> string \<Rightarrow> nat option" where
  "rfind c [] = None"
| "rfind c (x # xs) =
     (case rfind c xs of Some i \<Rightarrow> Some (Suc i) | None \<Rightarrow> if x = c then Some 0 else None)"

section \<open>Paths (\<open>pathlib.Path\<close> on POSIX)\<close>

record ppath =
  root :: string
  parts :: "string list"

text \<open>\<open>posixpath.splitroot\<close>: exactly two leading slashes are kept as a root of their own.\<close>

definition splitroot :: "string \<Rightarrow> string \<times> string" where
  "splitroot p =
     (if take 1 p \<noteq> ''/'' then ('''', p)
      else if take 1 (drop 1 p) \<noteq> ''/'' \<or> take 1 (drop 2 p) = ''/'' then (''/'', drop 1 p)
      else (''//'', drop 2 p))"

definition Path :: "string \<Rightarrow> ppath" where
  "Path s =
     (let (r, rel) = splitroot s
      in \<lparr>root = r, parts = filter (\<lambda>x. x \<noteq> [] \<and> x \<noteq> ''.'') (split_on (CHR ''/'') rel)\<rparr>)"

definition str_path :: "ppath \<Rightarrow> string" where
  "str_path p =
     (if root p \<noteq> [] then root p @ join_with ''/'' (parts p)
      else if parts p = [] then ''.''
      else join_with ''/'' (parts p))"

definition path_name :: "ppath \<Rightarrow> string" where
  "path_name p = (if parts p = [] then [] else last (parts p))"

definition path_stem :: "ppath \<Rightarrow> string" where
  "path_stem p =
     (let name = path_name p
      in case rfind (CHR ''.'') name of
           Some i \<Rightarrow> if 0 < i \<and> i < length name - 1 then take i name else name
         | None \<Rightarrow> name)"

text \<open>The \<open>/\<close> operator with a \<open>str\<close> on the right.\<close>

definition path_join :: "ppath \<Rightarrow> string \<Rightarrow> ppath" where
  "path_join p s =
     (if take 1 s = ''/'' then Path s else p\<lparr>parts := parts p @ parts (Path s)\<rparr>)"

text \<open>\<open>Path.absolute()\<close>: prefixes the working directory, without normalising \<open>..\<close>.\<close>

definition path_absolute :: "string \<Rightarrow> ppath \<Rightarrow> ppath" where
  "path_absolute cwd p =
     (if root p \<noteq> [] then p else (Path cwd)\<lparr>parts := parts (Path cwd) @ parts p\<rparr>)"

section \<open>Constants and message texts of the script\<close>

text \<open>
  The literals of \<open>annotate_video.py\<close>, as UTF-8 bytes; each is tagged with the source
  line it comes from.
\<close>

definition FPS :: rat where \<comment> \<open>l.27\<close>
  "FPS = 1"

definition TEMPERATURE :: rat where \<comment> \<open>l.30\<close>
  "TEMPERATURE = 3 / 10"

definition MAX_TOKENS :: nat where \<comment> \<open>l.31\<close>
  "MAX_TOKENS = 4000"

definition API_KEY :: string where \<comment> \<open>l.21\<close>
  "API_KEY =
     ''sk-476b491113df4f5db020c57d936dd5d6''"

definition MODEL :: string where \<comment> \<open>l.24\<close>
  "MODEL =
     ''qwen-vl-max-latest''"

definition txt_api_key :: string where \<comment> \<open>l.48\<close>
  "txt_api_key =
     [CHR 0xD0, CHR 0x98, CHR 0xD1, CHR 0x81, CHR 0xD0, CHR 0xBF, CHR 0xD0, CHR 0xBE, CHR 0xD0,
       CHR 0xBB, CHR 0xD1, CHR 0x8C, CHR 0xD0, CHR 0xB7, CHR 0xD1, CHR 0x83, CHR 0xD0, CHR 0xB5,
       CHR 0xD1, CHR 0x82, CHR 0xD1, CHR 0x81, CHR 0xD1, CHR 0x8F] @ '' API '' @ [CHR 0xD0,
       CHR 0xBA, CHR 0xD0, CHR 0xBB, CHR 0xD1, CHR 0x8E, CHR 0xD1, CHR 0x87] @ '': ''"

definition txt_prompt_loading :: string where \<comment> \<open>l.77\<close>
  "txt_prompt_loading =
     [CHR 0xD0, CHR 0x97, CHR 0xD0, CHR 0xB0, CHR 0xD0, CHR 0xB3, CHR 0xD1, CHR 0x80, CHR 0xD1,
       CHR 0x83, CHR 0xD0, CHR 0xB7, CHR 0xD0, CHR 0xBA, CHR 0xD0, CHR 0xB0] @ '' '' @ [CHR 0xD0,
       CHR 0xBF, CHR 0xD1, CHR 0x80, CHR 0xD0, CHR 0xBE, CHR 0xD0, CHR 0xBC, CHR 0xD0, CHR 0xBF,
       CHR 0xD1, CHR 0x82, CHR 0xD0, CHR 0xB0] @ '' '' @ [CHR 0xD0, CHR 0xB8, CHR 0xD0, CHR 0xB7]
       @ '': ''"

definition txt_prompt_missing :: string where \<comment> \<open>l.80\<close>
  "txt_prompt_missing =
     [CHR 0xD0, CHR 0xA4, CHR 0xD0, CHR 0xB0, CHR 0xD0, CHR 0xB9, CHR 0xD0, CHR 0xBB] @ '' '' @
       [CHR 0xD0, CHR 0xBF, CHR 0xD1, CHR 0x80, CHR 0xD0, CHR 0xBE, CHR 0xD0, CHR 0xBC, CHR 0xD0,
       CHR 0xBF, CHR 0xD1, CHR 0x82, CHR 0xD0, CHR 0xB0] @ '' '' @ [CHR 0xD0, CHR 0xBD, CHR 0xD0,
       CHR 0xB5] @ '' '' @ [CHR 0xD0, CHR 0xBD, CHR 0xD0, CHR 0xB0, CHR 0xD0, CHR 0xB9, CHR 0xD0,
       CHR 0xB4, CHR 0xD0, CHR 0xB5, CHR 0xD0, CHR 0xBD] @ '': ''"

definition fallback_prompt :: string where \<comment> \<open>l.81\<close>
  "fallback_prompt =
     [CHR 0xD0, CHR 0x9F, CHR 0xD1, CHR 0x80, CHR 0xD0, CHR 0xBE, CHR 0xD0, CHR 0xB0, CHR 0xD0,
       CHR 0xBD, CHR 0xD0, CHR 0xB0, CHR 0xD0, CHR 0xBB, CHR 0xD0, CHR 0xB8, CHR 0xD0, CHR 0xB7,
       CHR 0xD0, CHR 0xB8, CHR 0xD1, CHR 0x80, CHR 0xD1, CHR 0x83, CHR 0xD0, CHR 0xB9] @ '' '' @
       [CHR 0xD1, CHR 0x8D, CHR 0xD1, CHR 0x82, CHR 0xD0, CHR 0xBE] @ '' '' @ [CHR 0xD0,
       CHR 0xB2, CHR 0xD0, CHR 0xB8, CHR 0xD0, CHR 0xB4, CHR 0xD0, CHR 0xB5, CHR 0xD0, CHR 0xBE]
       @ '' '' @ [CHR 0xD0, CHR 0xB8] @ '' '' @ [CHR 0xD0, CHR 0xBE, CHR 0xD0, CHR 0xBF,
       CHR 0xD0, CHR 0xB8, CHR 0xD1, CHR 0x88, CHR 0xD0, CHR 0xB8] @ '' '' @ [CHR 0xD0, CHR 0xB4,
       CHR 0xD0, CHR 0xB5, CHR 0xD0, CHR 0xB9, CHR 0xD1, CHR 0x81, CHR 0xD1, CHR 0x82, CHR 0xD0,
       CHR 0xB2, CHR 0xD0, CHR 0xB8, CHR 0xD1, CHR 0x8F] @ '', '' @ [CHR 0xD0, CHR 0xBA,
       CHR 0xD0, CHR 0xBE, CHR 0xD1, CHR 0x82, CHR 0xD0, CHR 0xBE, CHR 0xD1, CHR 0x80, CHR 0xD1,
       CHR 0x8B, CHR 0xD0, CHR 0xB5] @ '' '' @ [CHR 0xD0, CHR 0xBF, CHR 0xD1, CHR 0x80, CHR 0xD0,
       CHR 0xBE, CHR 0xD0, CHR 0xB8, CHR 0xD1, CHR 0x81, CHR 0xD1, CHR 0x85, CHR 0xD0, CHR 0xBE,
       CHR 0xD0, CHR 0xB4, CHR 0xD1, CHR 0x8F, CHR 0xD1, CHR 0x82] @ '' '' @ [CHR 0xD0, CHR 0xB2]
       @ '' '' @ [CHR 0xD0, CHR 0xBD, CHR 0xD1, CHR 0x91, CHR 0xD0, CHR 0xBC] @ ''.''"

definition txt_prompt_loaded :: string where \<comment> \<open>l.85\<close>
  "txt_prompt_loaded =
     [CHR 0xD0, CHR 0x9F, CHR 0xD1, CHR 0x80, CHR 0xD0, CHR 0xBE, CHR 0xD0, CHR 0xBC, CHR 0xD0,
       CHR 0xBF, CHR 0xD1, CHR 0x82] @ '' '' @ [CHR 0xD0, CHR 0xB7, CHR 0xD0, CHR 0xB0, CHR 0xD0,
       CHR 0xB3, CHR 0xD1, CHR 0x80, CHR 0xD1, CHR 0x83, CHR 0xD0, CHR 0xB6, CHR 0xD0, CHR 0xB5,
       CHR 0xD0, CHR 0xBD] @ '', '' @ [CHR 0xD1, CHR 0x80, CHR 0xD0, CHR 0xB0, CHR 0xD0,
       CHR 0xB7, CHR 0xD0, CHR 0xBC, CHR 0xD0, CHR 0xB5, CHR 0xD1, CHR 0x80] @ '': ''"

definition txt_symbols :: string where \<comment> \<open>l.85\<close>
  "txt_symbols =
     '' '' @ [CHR 0xD1, CHR 0x81, CHR 0xD0, CHR 0xB8, CHR 0xD0, CHR 0xBC, CHR 0xD0, CHR 0xB2,
       CHR 0xD0, CHR 0xBE, CHR 0xD0, CHR 0xBB, CHR 0xD0, CHR 0xBE, CHR 0xD0, CHR 0xB2]"

definition txt_video_start :: string where \<comment> \<open>l.92\<close>
  "txt_video_start =
     [CHR 0xD0, CHR 0x9D, CHR 0xD0, CHR 0xB0, CHR 0xD1, CHR 0x87, CHR 0xD0, CHR 0xB0, CHR 0xD0,
       CHR 0xBB, CHR 0xD0, CHR 0xBE] @ '' '' @ [CHR 0xD0, CHR 0xBE, CHR 0xD0, CHR 0xB1, CHR 0xD1,
       CHR 0x80, CHR 0xD0, CHR 0xB0, CHR 0xD0, CHR 0xB1, CHR 0xD0, CHR 0xBE, CHR 0xD1, CHR 0x82,
       CHR 0xD0, CHR 0xBA, CHR 0xD0, CHR 0xB8] @ '' '' @ [CHR 0xD0, CHR 0xB2, CHR 0xD0, CHR 0xB8,
       CHR 0xD0, CHR 0xB4, CHR 0xD0, CHR 0xB5, CHR 0xD0, CHR 0xBE] @ '': ''"

definition txt_video_not_found :: string where \<comment> \<open>l.95\<close>
  "txt_video_not_found =
     [CHR 0xD0, CHR 0x92, CHR 0xD0, CHR 0xB8, CHR 0xD0, CHR 0xB4, CHR 0xD0, CHR 0xB5, CHR 0xD0,
       CHR 0xBE] @ '' '' @ [CHR 0xD0, CHR 0xBD, CHR 0xD0, CHR 0xB5] @ '' '' @ [CHR 0xD0,
       CHR 0xBD, CHR 0xD0, CHR 0xB0, CHR 0xD0, CHR 0xB9, CHR 0xD0, CHR 0xB4, CHR 0xD0, CHR 0xB5,
       CHR 0xD0, CHR 0xBD, CHR 0xD0, CHR 0xBE] @ '': ''"

definition txt_video_size :: string where \<comment> \<open>l.100\<close>
  "txt_video_size =
     [CHR 0xD0, CHR 0xA0, CHR 0xD0, CHR 0xB0, CHR 0xD0, CHR 0xB7, CHR 0xD0, CHR 0xBC, CHR 0xD0,
       CHR 0xB5, CHR 0xD1, CHR 0x80] @ '' '' @ [CHR 0xD0, CHR 0xB2, CHR 0xD0, CHR 0xB8, CHR 0xD0,
       CHR 0xB4, CHR 0xD0, CHR 0xB5, CHR 0xD0, CHR 0xBE] @ '': ''"

definition txt_video_too_big :: string where \<comment> \<open>l.103\<close>
  "txt_video_too_big =
     [CHR 0xD0, CHR 0x92, CHR 0xD0, CHR 0xB8, CHR 0xD0, CHR 0xB4, CHR 0xD0, CHR 0xB5, CHR 0xD0,
       CHR 0xBE] @ '' '' @ [CHR 0xD1, CHR 0x81, CHR 0xD0, CHR 0xBB, CHR 0xD0, CHR 0xB8, CHR 0xD1,
       CHR 0x88, CHR 0xD0, CHR 0xBA, CHR 0xD0, CHR 0xBE, CHR 0xD0, CHR 0xBC] @ '' '' @ [CHR 0xD0,
       CHR 0xB1, CHR 0xD0, CHR 0xBE, CHR 0xD0, CHR 0xBB, CHR 0xD1, CHR 0x8C, CHR 0xD1, CHR 0x88,
       CHR 0xD0, CHR 0xBE, CHR 0xD0, CHR 0xB5] @ '' (''"

definition txt_max_1gb :: string where \<comment> \<open>l.103\<close>
  "txt_max_1gb =
     '' MB). '' @ [CHR 0xD0, CHR 0x9C, CHR 0xD0, CHR 0xB0, CHR 0xD0, CHR 0xBA, CHR 0xD1,
       CHR 0x81, CHR 0xD0, CHR 0xB8, CHR 0xD0, CHR 0xBC, CHR 0xD1, CHR 0x83, CHR 0xD0, CHR 0xBC]
       @ '' 1 GB.''"

definition txt_p_video :: string where \<comment> \<open>l.108\<close>
  "txt_p_video =
     [CHR 0x0A, CHR 0xF0, CHR 0x9F, CHR 0x93, CHR 0xB9] @ '' '' @ [CHR 0xD0, CHR 0x9E, CHR 0xD0,
       CHR 0xB1, CHR 0xD1, CHR 0x80, CHR 0xD0, CHR 0xB0, CHR 0xD0, CHR 0xB1, CHR 0xD0, CHR 0xBE,
       CHR 0xD1, CHR 0x82, CHR 0xD0, CHR 0xBA, CHR 0xD0, CHR 0xB0] @ '' '' @ [CHR 0xD0, CHR 0xB2,
       CHR 0xD0, CHR 0xB8, CHR 0xD0, CHR 0xB4, CHR 0xD0, CHR 0xB5, CHR 0xD0, CHR 0xBE] @ '': ''"

definition txt_p_model :: string where \<comment> \<open>l.109\<close>
  "txt_p_model =
     [CHR 0xF0, CHR 0x9F, CHR 0xA4, CHR 0x96] @ '' '' @ [CHR 0xD0, CHR 0x9C, CHR 0xD0, CHR 0xBE,
       CHR 0xD0, CHR 0xB4, CHR 0xD0, CHR 0xB5, CHR 0xD0, CHR 0xBB, CHR 0xD1, CHR 0x8C] @ '': ''"

definition txt_p_fps :: string where \<comment> \<open>l.110\<close>
  "txt_p_fps =
     [CHR 0xE2, CHR 0x9A, CHR 0x99, CHR 0xEF, CHR 0xB8, CHR 0x8F] @ ''  FPS: ''"

definition txt_p_temperature :: string where \<comment> \<open>l.111\<close>
  "txt_p_temperature =
     [CHR 0xF0, CHR 0x9F, CHR 0x8C, CHR 0xA1, CHR 0xEF, CHR 0xB8, CHR 0x8F] @ ''  Temperature: ''"

definition txt_p_prompt_len :: string where \<comment> \<open>l.112\<close>
  "txt_p_prompt_len =
     [CHR 0xF0, CHR 0x9F, CHR 0x93, CHR 0x9D] @ '' '' @ [CHR 0xD0, CHR 0x94, CHR 0xD0, CHR 0xBB,
       CHR 0xD0, CHR 0xB8, CHR 0xD0, CHR 0xBD, CHR 0xD0, CHR 0xB0] @ '' '' @ [CHR 0xD0, CHR 0xBF,
       CHR 0xD1, CHR 0x80, CHR 0xD0, CHR 0xBE, CHR 0xD0, CHR 0xBC, CHR 0xD0, CHR 0xBF, CHR 0xD1,
       CHR 0x82, CHR 0xD0, CHR 0xB0] @ '': ''"

definition txt_p_video_size :: string where \<comment> \<open>l.113\<close>
  "txt_p_video_size =
     [CHR 0xF0, CHR 0x9F, CHR 0x92, CHR 0xBE] @ '' '' @ [CHR 0xD0, CHR 0xA0, CHR 0xD0, CHR 0xB0,
       CHR 0xD0, CHR 0xB7, CHR 0xD0, CHR 0xBC, CHR 0xD0, CHR 0xB5, CHR 0xD1, CHR 0x80] @ '' '' @
       [CHR 0xD0, CHR 0xB2, CHR 0xD0, CHR 0xB8, CHR 0xD0, CHR 0xB4, CHR 0xD0, CHR 0xB5, CHR 0xD0,
       CHR 0xBE] @ '': ''"

definition txt_video_url :: string where \<comment> \<open>l.117\<close>
  "txt_video_url =
     [CHR 0xD0, CHR 0x92, CHR 0xD0, CHR 0xB8, CHR 0xD0, CHR 0xB4, CHR 0xD0, CHR 0xB5, CHR 0xD0,
       CHR 0xBE] @ '' URL: ''"

definition txt_p_sending :: string where \<comment> \<open>l.139\<close>
  "txt_p_sending =
     [CHR 0x0A, CHR 0xE2, CHR 0x8F, CHR 0xB3] @ '' '' @ [CHR 0xD0, CHR 0x9E, CHR 0xD1, CHR 0x82,
       CHR 0xD0, CHR 0xBF, CHR 0xD1, CHR 0x80, CHR 0xD0, CHR 0xB0, CHR 0xD0, CHR 0xB2, CHR 0xD0,
       CHR 0xBA, CHR 0xD0, CHR 0xB0] @ '' '' @ [CHR 0xD0, CHR 0xB7, CHR 0xD0, CHR 0xB0, CHR 0xD0,
       CHR 0xBF, CHR 0xD1, CHR 0x80, CHR 0xD0, CHR 0xBE, CHR 0xD1, CHR 0x81, CHR 0xD0, CHR 0xB0]
       @ '' '' @ [CHR 0xD0, CHR 0xB2] @ '' DashScope API...''"

definition txt_sending :: string where \<comment> \<open>l.140\<close>
  "txt_sending =
     [CHR 0xD0, CHR 0x9E, CHR 0xD1, CHR 0x82, CHR 0xD0, CHR 0xBF, CHR 0xD1, CHR 0x80, CHR 0xD0,
       CHR 0xB0, CHR 0xD0, CHR 0xB2, CHR 0xD0, CHR 0xBA, CHR 0xD0, CHR 0xB0] @ '' '' @ [CHR 0xD0,
       CHR 0xB7, CHR 0xD0, CHR 0xB0, CHR 0xD0, CHR 0xBF, CHR 0xD1, CHR 0x80, CHR 0xD0, CHR 0xBE,
       CHR 0xD1, CHR 0x81, CHR 0xD0, CHR 0xB0] @ '' '' @ [CHR 0xD0, CHR 0xB2] @
       '' DashScope API...''"

definition txt_got_response :: string where \<comment> \<open>l.156\<close>
  "txt_got_response =
     [CHR 0xD0, CHR 0x9F, CHR 0xD0, CHR 0xBE, CHR 0xD0, CHR 0xBB, CHR 0xD1, CHR 0x83, CHR 0xD1,
       CHR 0x87, CHR 0xD0, CHR 0xB5, CHR 0xD0, CHR 0xBD] @ '' '' @ [CHR 0xD0, CHR 0xBE, CHR 0xD1,
       CHR 0x82, CHR 0xD0, CHR 0xB2, CHR 0xD0, CHR 0xB5, CHR 0xD1, CHR 0x82] @ '' '' @ [CHR 0xD0,
       CHR 0xBE, CHR 0xD1, CHR 0x82] @ '' API '' @ [CHR 0xD0, CHR 0xB7, CHR 0xD0, CHR 0xB0] @
       '' ''"

definition txt_seconds :: string where \<comment> \<open>l.156\<close>
  "txt_seconds =
     '' '' @ [CHR 0xD1, CHR 0x81, CHR 0xD0, CHR 0xB5, CHR 0xD0, CHR 0xBA, CHR 0xD1, CHR 0x83,
       CHR 0xD0, CHR 0xBD, CHR 0xD0, CHR 0xB4]"

definition txt_api_error_code :: string where \<comment> \<open>l.159\<close>
  "txt_api_error_code =
     [CHR 0xD0, CHR 0x9E, CHR 0xD1, CHR 0x88, CHR 0xD0, CHR 0xB8, CHR 0xD0, CHR 0xB1, CHR 0xD0,
       CHR 0xBA, CHR 0xD0, CHR 0xB0] @ '' API: '' @ [CHR 0xD0, CHR 0xBA, CHR 0xD0, CHR 0xBE,
       CHR 0xD0, CHR 0xB4] @ '' ''"

definition txt_api_error_msg :: string where \<comment> \<open>l.159\<close>
  "txt_api_error_msg =
     '', '' @ [CHR 0xD1, CHR 0x81, CHR 0xD0, CHR 0xBE, CHR 0xD0, CHR 0xBE, CHR 0xD0, CHR 0xB1,
       CHR 0xD1, CHR 0x89, CHR 0xD0, CHR 0xB5, CHR 0xD0, CHR 0xBD, CHR 0xD0, CHR 0xB8, CHR 0xD0,
       CHR 0xB5] @ '': ''"

definition txt_api_error :: string where \<comment> \<open>l.160\<close>
  "txt_api_error =
     [CHR 0xD0, CHR 0x9E, CHR 0xD1, CHR 0x88, CHR 0xD0, CHR 0xB8, CHR 0xD0, CHR 0xB1, CHR 0xD0,
       CHR 0xBA, CHR 0xD0, CHR 0xB0] @ '' API: ''"

definition txt_annotation_size :: string where \<comment> \<open>l.164\<close>
  "txt_annotation_size =
     [CHR 0xD0, CHR 0xA0, CHR 0xD0, CHR 0xB0, CHR 0xD0, CHR 0xB7, CHR 0xD0, CHR 0xBC, CHR 0xD0,
       CHR 0xB5, CHR 0xD1, CHR 0x80] @ '' '' @ [CHR 0xD0, CHR 0xB0, CHR 0xD0, CHR 0xBD, CHR 0xD0,
       CHR 0xBD, CHR 0xD0, CHR 0xBE, CHR 0xD1, CHR 0x82, CHR 0xD0, CHR 0xB0, CHR 0xD1, CHR 0x86,
       CHR 0xD0, CHR 0xB8, CHR 0xD0, CHR 0xB8] @ '': ''"

definition txt_p_done :: string where \<comment> \<open>l.166\<close>
  "txt_p_done =
     [CHR 0xE2, CHR 0x9C, CHR 0x85] @ '' '' @ [CHR 0xD0, CHR 0x9E, CHR 0xD0, CHR 0xB1, CHR 0xD1,
       CHR 0x80, CHR 0xD0, CHR 0xB0, CHR 0xD0, CHR 0xB1, CHR 0xD0, CHR 0xBE, CHR 0xD1, CHR 0x82,
       CHR 0xD0, CHR 0xBA, CHR 0xD0, CHR 0xB0] @ '' '' @ [CHR 0xD0, CHR 0xB7, CHR 0xD0, CHR 0xB0,
       CHR 0xD0, CHR 0xB2, CHR 0xD0, CHR 0xB5, CHR 0xD1, CHR 0x80, CHR 0xD1, CHR 0x88, CHR 0xD0,
       CHR 0xB5, CHR 0xD0, CHR 0xBD, CHR 0xD0, CHR 0xB0] @ '' '' @ [CHR 0xD0, CHR 0xB7, CHR 0xD0,
       CHR 0xB0] @ '' ''"

definition txt_processing_error :: string where \<comment> \<open>l.176\<close>
  "txt_processing_error =
     [CHR 0xD0, CHR 0x9E, CHR 0xD1, CHR 0x88, CHR 0xD0, CHR 0xB8, CHR 0xD0, CHR 0xB1, CHR 0xD0,
       CHR 0xBA, CHR 0xD0, CHR 0xB0] @ '' '' @ [CHR 0xD0, CHR 0xBF, CHR 0xD1, CHR 0x80, CHR 0xD0,
       CHR 0xB8] @ '' '' @ [CHR 0xD0, CHR 0xBE, CHR 0xD0, CHR 0xB1, CHR 0xD1, CHR 0x80, CHR 0xD0,
       CHR 0xB0, CHR 0xD0, CHR 0xB1, CHR 0xD0, CHR 0xBE, CHR 0xD1, CHR 0x82, CHR 0xD0, CHR 0xBA,
       CHR 0xD0, CHR 0xB5] @ '': ''"

definition txt_p_processing_error :: string where \<comment> \<open>l.177\<close>
  "txt_p_processing_error =
     [CHR 0xE2, CHR 0x9D, CHR 0x8C] @ '' '' @ [CHR 0xD0, CHR 0x9E, CHR 0xD1, CHR 0x88, CHR 0xD0,
       CHR 0xB8, CHR 0xD0, CHR 0xB1, CHR 0xD0, CHR 0xBA, CHR 0xD0, CHR 0xB0] @ '' '' @ [CHR 0xD0,
       CHR 0xBF, CHR 0xD1, CHR 0x80, CHR 0xD0, CHR 0xB8] @ '' '' @ [CHR 0xD0, CHR 0xBE, CHR 0xD0,
       CHR 0xB1, CHR 0xD1, CHR 0x80, CHR 0xD0, CHR 0xB0, CHR 0xD0, CHR 0xB1, CHR 0xD0, CHR 0xBE,
       CHR 0xD1, CHR 0x82, CHR 0xD0, CHR 0xBA, CHR 0xD0, CHR 0xB5] @ '': ''"

definition txt_saving :: string where \<comment> \<open>l.185\<close>
  "txt_saving =
     [CHR 0xD0, CHR 0xA1, CHR 0xD0, CHR 0xBE, CHR 0xD1, CHR 0x85, CHR 0xD1, CHR 0x80, CHR 0xD0,
       CHR 0xB0, CHR 0xD0, CHR 0xBD, CHR 0xD0, CHR 0xB5, CHR 0xD0, CHR 0xBD, CHR 0xD0, CHR 0xB8,
       CHR 0xD0, CHR 0xB5] @ '' '' @ [CHR 0xD1, CHR 0x80, CHR 0xD0, CHR 0xB5, CHR 0xD0, CHR 0xB7,
       CHR 0xD1, CHR 0x83, CHR 0xD0, CHR 0xBB, CHR 0xD1, CHR 0x8C, CHR 0xD1, CHR 0x82, CHR 0xD0,
       CHR 0xB0, CHR 0xD1, CHR 0x82, CHR 0xD0, CHR 0xBE, CHR 0xD0, CHR 0xB2] @ '' '' @ [CHR 0xD0,
       CHR 0xB4, CHR 0xD0, CHR 0xBB, CHR 0xD1, CHR 0x8F] @ '' ''"

definition txt_json_saved :: string where \<comment> \<open>l.199\<close>
  "txt_json_saved =
     ''JSON '' @ [CHR 0xD1, CHR 0x81, CHR 0xD0, CHR 0xBE, CHR 0xD1, CHR 0x85, CHR 0xD1, CHR 0x80,
       CHR 0xD0, CHR 0xB0, CHR 0xD0, CHR 0xBD, CHR 0xD0, CHR 0xB5, CHR 0xD0, CHR 0xBD] @ '': ''"

definition txt_json_error :: string where \<comment> \<open>l.201\<close>
  "txt_json_error =
     [CHR 0xD0, CHR 0x9E, CHR 0xD1, CHR 0x88, CHR 0xD0, CHR 0xB8, CHR 0xD0, CHR 0xB1, CHR 0xD0,
       CHR 0xBA, CHR 0xD0, CHR 0xB0] @ '' '' @ [CHR 0xD1, CHR 0x81, CHR 0xD0, CHR 0xBE, CHR 0xD1,
       CHR 0x85, CHR 0xD1, CHR 0x80, CHR 0xD0, CHR 0xB0, CHR 0xD0, CHR 0xBD, CHR 0xD0, CHR 0xB5,
       CHR 0xD0, CHR 0xBD, CHR 0xD0, CHR 0xB8, CHR 0xD1, CHR 0x8F] @ '' JSON: ''"

definition txt_f_header :: string where \<comment> \<open>l.207\<close>
  "txt_f_header =
     ''=== '' @ [CHR 0xD0, CHR 0x90, CHR 0xD0, CHR 0xBD, CHR 0xD0, CHR 0xBD, CHR 0xD0, CHR 0xBE,
       CHR 0xD1, CHR 0x82, CHR 0xD0, CHR 0xB0, CHR 0xD1, CHR 0x86, CHR 0xD0, CHR 0xB8, CHR 0xD1,
       CHR 0x8F] @ '' '' @ [CHR 0xD0, CHR 0xB2, CHR 0xD0, CHR 0xB8, CHR 0xD0, CHR 0xB4, CHR 0xD0,
       CHR 0xB5, CHR 0xD0, CHR 0xBE] @ '': ''"

definition txt_f_model :: string where \<comment> \<open>l.208\<close>
  "txt_f_model =
     [CHR 0xD0, CHR 0x9C, CHR 0xD0, CHR 0xBE, CHR 0xD0, CHR 0xB4, CHR 0xD0, CHR 0xB5, CHR 0xD0,
       CHR 0xBB, CHR 0xD1, CHR 0x8C] @ '': ''"

definition txt_f_time :: string where \<comment> \<open>l.210\<close>
  "txt_f_time =
     [CHR 0xD0, CHR 0x92, CHR 0xD1, CHR 0x80, CHR 0xD0, CHR 0xB5, CHR 0xD0, CHR 0xBC, CHR 0xD1,
       CHR 0x8F] @ '' '' @ [CHR 0xD0, CHR 0xBE, CHR 0xD0, CHR 0xB1, CHR 0xD1, CHR 0x80, CHR 0xD0,
       CHR 0xB0, CHR 0xD0, CHR 0xB1, CHR 0xD0, CHR 0xBE, CHR 0xD1, CHR 0x82, CHR 0xD0, CHR 0xBA,
       CHR 0xD0, CHR 0xB8] @ '': ''"

definition txt_f_sec :: string where \<comment> \<open>l.210\<close>
  "txt_f_sec =
     '' '' @ [CHR 0xD1, CHR 0x81, CHR 0xD0, CHR 0xB5, CHR 0xD0, CHR 0xBA, CHR 0x0A]"

definition txt_f_date :: string where \<comment> \<open>l.211\<close>
  "txt_f_date =
     [CHR 0xD0, CHR 0x94, CHR 0xD0, CHR 0xB0, CHR 0xD1, CHR 0x82, CHR 0xD0, CHR 0xB0] @ '': ''"

definition txt_f_body :: string where \<comment> \<open>l.212\<close>
  "txt_f_body =
     [CHR 0x0A] @ ''--- '' @ [CHR 0xD0, CHR 0x90, CHR 0xD0, CHR 0xBD, CHR 0xD0, CHR 0xBD,
       CHR 0xD0, CHR 0xBE, CHR 0xD1, CHR 0x82, CHR 0xD0, CHR 0xB0, CHR 0xD1, CHR 0x86, CHR 0xD0,
       CHR 0xB8, CHR 0xD1, CHR 0x8F] @ '' ---'' @ [CHR 0x0A]"

definition txt_txt_saved :: string where \<comment> \<open>l.214\<close>
  "txt_txt_saved =
     ''TXT '' @ [CHR 0xD1, CHR 0x81, CHR 0xD0, CHR 0xBE, CHR 0xD1, CHR 0x85, CHR 0xD1, CHR 0x80,
       CHR 0xD0, CHR 0xB0, CHR 0xD0, CHR 0xBD, CHR 0xD0, CHR 0xB5, CHR 0xD0, CHR 0xBD] @ '': ''"

definition txt_txt_error :: string where \<comment> \<open>l.216\<close>
  "txt_txt_error =
     [CHR 0xD0, CHR 0x9E, CHR 0xD1, CHR 0x88, CHR 0xD0, CHR 0xB8, CHR 0xD0, CHR 0xB1, CHR 0xD0,
       CHR 0xBA, CHR 0xD0, CHR 0xB0] @ '' '' @ [CHR 0xD1, CHR 0x81, CHR 0xD0, CHR 0xBE, CHR 0xD1,
       CHR 0x85, CHR 0xD1, CHR 0x80, CHR 0xD0, CHR 0xB0, CHR 0xD0, CHR 0xBD, CHR 0xD0, CHR 0xB5,
       CHR 0xD0, CHR 0xBD, CHR 0xD0, CHR 0xB8, CHR 0xD1, CHR 0x8F] @ '' TXT: ''"

definition txt_p_saved :: string where \<comment> \<open>l.218\<close>
  "txt_p_saved =
     [CHR 0x0A, CHR 0xF0, CHR 0x9F, CHR 0x92, CHR 0xBE] @ '' '' @ [CHR 0xD0, CHR 0xA0, CHR 0xD0,
       CHR 0xB5, CHR 0xD0, CHR 0xB7, CHR 0xD1, CHR 0x83, CHR 0xD0, CHR 0xBB, CHR 0xD1, CHR 0x8C,
       CHR 0xD1, CHR 0x82, CHR 0xD0, CHR 0xB0, CHR 0xD1, CHR 0x82, CHR 0xD1, CHR 0x8B] @ '' '' @
       [CHR 0xD1, CHR 0x81, CHR 0xD0, CHR 0xBE, CHR 0xD1, CHR 0x85, CHR 0xD1, CHR 0x80, CHR 0xD0,
       CHR 0xB0, CHR 0xD0, CHR 0xBD, CHR 0xD0, CHR 0xB5, CHR 0xD0, CHR 0xBD, CHR 0xD1, CHR 0x8B]
       @ '':''"

definition txt_p_json :: string where \<comment> \<open>l.219\<close>
  "txt_p_json =
     ''   '' @ [CHR 0xE2, CHR 0x80, CHR 0xA2] @ '' JSON: ''"

definition txt_p_txt :: string where \<comment> \<open>l.220\<close>
  "txt_p_txt =
     ''   '' @ [CHR 0xE2, CHR 0x80, CHR 0xA2] @ '' TXT:  ''"

definition txt_script_start :: string where \<comment> \<open>l.236\<close>
  "txt_script_start =
     [CHR 0xD0, CHR 0x97, CHR 0xD0, CHR 0xB0, CHR 0xD0, CHR 0xBF, CHR 0xD1, CHR 0x83, CHR 0xD1,
       CHR 0x81, CHR 0xD0, CHR 0xBA] @ '' '' @ [CHR 0xD1, CHR 0x81, CHR 0xD0, CHR 0xBA, CHR 0xD1,
       CHR 0x80, CHR 0xD0, CHR 0xB8, CHR 0xD0, CHR 0xBF, CHR 0xD1, CHR 0x82, CHR 0xD0, CHR 0xB0]
       @ '' '' @ [CHR 0xD0, CHR 0xB0, CHR 0xD0, CHR 0xBD, CHR 0xD0, CHR 0xBD, CHR 0xD0, CHR 0xBE,
       CHR 0xD1, CHR 0x82, CHR 0xD0, CHR 0xB0, CHR 0xD1, CHR 0x86, CHR 0xD0, CHR 0xB8, CHR 0xD0,
       CHR 0xB8] @ '' '' @ [CHR 0xD0, CHR 0xB2, CHR 0xD0, CHR 0xB8, CHR 0xD0, CHR 0xB4, CHR 0xD0,
       CHR 0xB5, CHR 0xD0, CHR 0xBE]"

definition txt_video :: string where \<comment> \<open>l.237\<close>
  "txt_video =
     [CHR 0xD0, CHR 0x92, CHR 0xD0, CHR 0xB8, CHR 0xD0, CHR 0xB4, CHR 0xD0, CHR 0xB5, CHR 0xD0,
       CHR 0xBE] @ '': ''"

definition txt_cli_params :: string where \<comment> \<open>l.238\<close>
  "txt_cli_params =
     [CHR 0xD0, CHR 0x9F, CHR 0xD0, CHR 0xB0, CHR 0xD1, CHR 0x80, CHR 0xD0, CHR 0xB0, CHR 0xD0,
       CHR 0xBC, CHR 0xD0, CHR 0xB5, CHR 0xD1, CHR 0x82, CHR 0xD1, CHR 0x80, CHR 0xD1, CHR 0x8B]
       @ '' '' @ [CHR 0xD0, CHR 0xBA, CHR 0xD0, CHR 0xBE, CHR 0xD0, CHR 0xBC, CHR 0xD0, CHR 0xB0,
       CHR 0xD0, CHR 0xBD, CHR 0xD0, CHR 0xB4, CHR 0xD0, CHR 0xBD, CHR 0xD0, CHR 0xBE, CHR 0xD0,
       CHR 0xB9] @ '' '' @ [CHR 0xD1, CHR 0x81, CHR 0xD1, CHR 0x82, CHR 0xD1, CHR 0x80, CHR 0xD0,
       CHR 0xBE, CHR 0xD0, CHR 0xBA, CHR 0xD0, CHR 0xB8] @ '': fps=''"

definition txt_fps_changed :: string where \<comment> \<open>l.246\<close>
  "txt_fps_changed =
     ''FPS '' @ [CHR 0xD0, CHR 0xB8, CHR 0xD0, CHR 0xB7, CHR 0xD0, CHR 0xBC, CHR 0xD0, CHR 0xB5,
       CHR 0xD0, CHR 0xBD, CHR 0xD0, CHR 0xB5, CHR 0xD0, CHR 0xBD] @ '' '' @ [CHR 0xD0, CHR 0xBD,
       CHR 0xD0, CHR 0xB0] @ '' ''"

definition txt_model_changed :: string where \<comment> \<open>l.249\<close>
  "txt_model_changed =
     [CHR 0xD0, CHR 0x9C, CHR 0xD0, CHR 0xBE, CHR 0xD0, CHR 0xB4, CHR 0xD0, CHR 0xB5, CHR 0xD0,
       CHR 0xBB, CHR 0xD1, CHR 0x8C] @ '' '' @ [CHR 0xD0, CHR 0xB8, CHR 0xD0, CHR 0xB7, CHR 0xD0,
       CHR 0xBC, CHR 0xD0, CHR 0xB5, CHR 0xD0, CHR 0xBD, CHR 0xD0, CHR 0xB5, CHR 0xD0, CHR 0xBD,
       CHR 0xD0, CHR 0xB0] @ '' '' @ [CHR 0xD0, CHR 0xBD, CHR 0xD0, CHR 0xB0] @ '' ''"

definition txt_temperature_changed :: string where \<comment> \<open>l.252\<close>
  "txt_temperature_changed =
     ''Temperature '' @ [CHR 0xD0, CHR 0xB8, CHR 0xD0, CHR 0xB7, CHR 0xD0, CHR 0xBC, CHR 0xD0,
       CHR 0xB5, CHR 0xD0, CHR 0xBD, CHR 0xD0, CHR 0xB5, CHR 0xD0, CHR 0xBD, CHR 0xD0, CHR 0xB0]
       @ '' '' @ [CHR 0xD0, CHR 0xBD, CHR 0xD0, CHR 0xB0] @ '' ''"

definition txt_custom_prompt :: string where \<comment> \<open>l.257\<close>
  "txt_custom_prompt =
     [CHR 0xD0, CHR 0x97, CHR 0xD0, CHR 0xB0, CHR 0xD0, CHR 0xB3, CHR 0xD1, CHR 0x80, CHR 0xD1,
       CHR 0x83, CHR 0xD0, CHR 0xB7, CHR 0xD0, CHR 0xBA, CHR 0xD0, CHR 0xB0] @ '' '' @ [CHR 0xD0,
       CHR 0xBA, CHR 0xD0, CHR 0xB0, CHR 0xD1, CHR 0x81, CHR 0xD1, CHR 0x82, CHR 0xD0, CHR 0xBE,
       CHR 0xD0, CHR 0xBC, CHR 0xD0, CHR 0xBD, CHR 0xD0, CHR 0xBE, CHR 0xD0, CHR 0xB3, CHR 0xD0,
       CHR 0xBE] @ '' '' @ [CHR 0xD0, CHR 0xBF, CHR 0xD1, CHR 0x80, CHR 0xD0, CHR 0xBE, CHR 0xD0,
       CHR 0xBC, CHR 0xD0, CHR 0xBF, CHR 0xD1, CHR 0x82, CHR 0xD0, CHR 0xB0] @ '' '' @ [CHR 0xD0,
       CHR 0xB8, CHR 0xD0, CHR 0xB7] @ '' ''"

definition txt_p_preview :: string where \<comment> \<open>l.269\<close>
  "txt_p_preview =
     [CHR 0x0A, CHR 0xF0, CHR 0x9F, CHR 0x93, CHR 0x84] @ '' '' @ [CHR 0xD0, CHR 0x9F, CHR 0xD0,
       CHR 0xB5, CHR 0xD1, CHR 0x80, CHR 0xD0, CHR 0xB2, CHR 0xD1, CHR 0x8B, CHR 0xD0, CHR 0xB5]
       @ '' 500 '' @ [CHR 0xD1, CHR 0x81, CHR 0xD0, CHR 0xB8, CHR 0xD0, CHR 0xBC, CHR 0xD0,
       CHR 0xB2, CHR 0xD0, CHR 0xBE, CHR 0xD0, CHR 0xBB, CHR 0xD0, CHR 0xBE, CHR 0xD0, CHR 0xB2]
       @ '' '' @ [CHR 0xD0, CHR 0xB0, CHR 0xD0, CHR 0xBD, CHR 0xD0, CHR 0xBD, CHR 0xD0, CHR 0xBE,
       CHR 0xD1, CHR 0x82, CHR 0xD0, CHR 0xB0, CHR 0xD1, CHR 0x86, CHR 0xD0, CHR 0xB8, CHR 0xD0,
       CHR 0xB8] @ '':''"

definition txt_script_done :: string where \<comment> \<open>l.275\<close>
  "txt_script_done =
     [CHR 0xD0, CHR 0xA1, CHR 0xD0, CHR 0xBA, CHR 0xD1, CHR 0x80, CHR 0xD0, CHR 0xB8, CHR 0xD0,
       CHR 0xBF, CHR 0xD1, CHR 0x82] @ '' '' @ [CHR 0xD0, CHR 0xB7, CHR 0xD0, CHR 0xB0, CHR 0xD0,
       CHR 0xB2, CHR 0xD0, CHR 0xB5, CHR 0xD1, CHR 0x80, CHR 0xD1, CHR 0x88, CHR 0xD0, CHR 0xB5,
       CHR 0xD0, CHR 0xBD] @ '' '' @ [CHR 0xD1, CHR 0x83, CHR 0xD1, CHR 0x81, CHR 0xD0, CHR 0xBF,
       CHR 0xD0, CHR 0xB5, CHR 0xD1, CHR 0x88, CHR 0xD0, CHR 0xBD, CHR 0xD0, CHR 0xBE]"

definition txt_critical :: string where \<comment> \<open>l.279\<close>
  "txt_critical =
     [CHR 0xD0, CHR 0x9A, CHR 0xD1, CHR 0x80, CHR 0xD0, CHR 0xB8, CHR 0xD1, CHR 0x82, CHR 0xD0,
       CHR 0xB8, CHR 0xD1, CHR 0x87, CHR 0xD0, CHR 0xB5, CHR 0xD1, CHR 0x81, CHR 0xD0, CHR 0xBA,
       CHR 0xD0, CHR 0xB0, CHR 0xD1, CHR 0x8F] @ '' '' @ [CHR 0xD0, CHR 0xBE, CHR 0xD1, CHR 0x88,
       CHR 0xD0, CHR 0xB8, CHR 0xD0, CHR 0xB1, CHR 0xD0, CHR 0xBA, CHR 0xD0, CHR 0xB0] @ '': ''"

definition txt_p_error :: string where \<comment> \<open>l.280\<close>
  "txt_p_error =
     [CHR 0x0A, CHR 0xE2, CHR 0x9D, CHR 0x8C] @ '' '' @ [CHR 0xD0, CHR 0x9E, CHR 0xD1, CHR 0x88,
       CHR 0xD0, CHR 0xB8, CHR 0xD0, CHR 0xB1, CHR 0xD0, CHR 0xBA, CHR 0xD0, CHR 0xB0] @ '': ''"

section \<open>Exceptions\<close>

text \<open>
  The exceptions the script can meet.  All of them derive from \<open>Exception\<close>, so every
  \<open>except Exception\<close> handler catches each of them.

  An error reported by the operating system for a file name is an \<open>OSError\<close> that
  carries \<open>errno\<close>, \<open>strerror\<close> and \<open>filename\<close>; its class is the subclass of
  \<open>OSError\<close> that Python assigns to the \<open>errno\<close>.  The other constructors carry
  \<open>str(e)\<close>; \<open>FileNotFoundError m\<close> is the instance that the script itself builds at
  l.96, with the message as its only argument.
\<close>

datatype exception =
    OSError nat string string
  | FileNotFoundError string
  | UnicodeDecodeError string
  | IndexError string
  | ConnectionError string
  | Exception string

text \<open>The subclass of \<open>OSError\<close> chosen from the \<open>errno\<close> (the numbers are those of Linux).\<close>

definition os_class :: "nat \<Rightarrow> string" where
  "os_class n =
     (if n = 2 then ''FileNotFoundError''
      else if n = 1 \<or> n = 13 then ''PermissionError''
      else if n = 17 then ''FileExistsError''
      else if n = 20 then ''NotADirectoryError''
      else if n = 21 then ''IsADirectoryError''
      else if n = 4 then ''InterruptedError''
      else if n = 3 then ''ProcessLookupError''
      else if n = 10 then ''ChildProcessError''
      else if n = 11 \<or> n = 114 \<or> n = 115 then ''BlockingIOError''
      else if n = 32 \<or> n = 108 then ''BrokenPipeError''
      else if n = 103 then ''ConnectionAbortedError''
      else if n = 104 then ''ConnectionResetError''
      else if n = 111 then ''ConnectionRefusedError''
      else if n = 110 then ''TimeoutError''
      else ''OSError'')"

fun class_name :: "exception \<Rightarrow> string" where
  "class_name (OSError n s f) = os_class n"
| "class_name (FileNotFoundError m) = ''FileNotFoundError''"
| "class_name (UnicodeDecodeError m) = ''UnicodeDecodeError''"
| "class_name (IndexError m) = ''IndexError''"
| "class_name (ConnectionError m) = ''ConnectionError''"
| "class_name (Exception m) = ''Exception''"

section \<open>The world the script runs in\<close>

text \<open>
  What the operating system answers when a name is looked up: a directory, a regular
  file with its bytes, or an error other than \<open>ENOENT\<close> (\<open>errno\<close> and \<open>strerror\<close>:
  a name that is too long, a directory on the way that may not be searched, a regular
  file on the way, ...).  A name at which there is nothing has no node.
\<close>

datatype node = Dir | File string | Unreachable nat string

datatype level = DEBUG | INFO | WARNING | ERROR

text \<open>The request handed to \<open>MultiModalConversation.call\<close> (l.147-153).\<close>

datatype content_block =
    VideoBlock string rat \<comment> \<open>\<open>{"type": "video", "video": url, "fps": fps}\<close>\<close>
  | TextBlock string \<comment> \<open>\<open>{"type": "text", "text": prompt_text}\<close>\<close>

record message =
  msg_role :: string
  msg_content :: "content_block list"

record request =
  req_model :: string
  req_messages :: "message list"
  req_temperature :: rat
  req_max_tokens :: nat
  req_top_p :: rat

text \<open>
  What the script reads of the response: \<open>status_code\<close>, \<open>message\<close> and the
  \<open>message.content\<close> of each element of \<open>output.choices\<close>.
\<close>

record response =
  status_code :: int
  resp_message :: string
  resp_choices :: "string list"

text \<open>
  Everything observable is recorded in order in one trace: the records of the logger
  (which l.36-43 sends both to \<open>annotation.log\<close> and to the console), the lines
  printed, what the interpreter writes to standard error, and the calls to the remote
  service.
\<close>

datatype event =
    Log level string
  | Print string
  | Stderr string
  | Call request

text \<open>
  The file store answers for a path as it is spelled.  \<open>os_error w p\<close> is the error,
  if any, with which the operating system refuses to open a file that is at \<open>p\<close>, or
  to create one there (permissions, a read-only medium, a full disk, ...).
\<close>

record world =
  fs :: "string \<Rightarrow> node option"
  os_error :: "string \<Rightarrow> exception option"
  trace :: "event list"

record datetime =
  dt_year :: nat
  dt_month :: nat
  dt_day :: nat
  dt_hour :: nat
  dt_minute :: nat
  dt_second :: nat

text \<open>
  What the script takes from its surroundings.  Floats are carried as rationals (the
  script does no arithmetic on them beyond one division by a power of two); how Python
  prints a float is a parameter: \<open>float_repr\<close> for \<open>repr\<close>, which both \<open>json.dump\<close>
  and an f-string without format use, and \<open>float_fixed n\<close> for the format \<open>.nf\<close>.
  So is \<open>str_repr\<close>, the \<open>repr\<close> of a string, which chooses the quotes and escapes
  what is not printable.
\<close>

record env =
  file_dir :: ppath \<comment> \<open>\<open>Path(__file__).parent\<close>\<close>
  getcwd :: string \<comment> \<open>\<open>os.getcwd()\<close>\<close>
  getenv_key :: "string option" \<comment> \<open>\<open>os.getenv('DASHSCOPE_API_KEY')\<close>\<close>
  remote :: "request \<Rightarrow> exception + response" \<comment> \<open>the SDK call: raises or returns\<close>
  elapsed :: rat \<comment> \<open>seconds between the two clock readings of l.141 and l.155\<close>
  now_save :: datetime \<comment> \<open>\<open>datetime.now()\<close> at l.182\<close>
  float_repr :: "rat \<Rightarrow> string"
  float_fixed :: "nat \<Rightarrow> rat \<Rightarrow> string"
  str_repr :: "string \<Rightarrow> string"

text \<open>
  \<open>str(e)\<close>.  For an error of the operating system it is
  \<open>[Errno errno] strerror: repr(filename)\<close>.
\<close>

definition os_error_text :: "env \<Rightarrow> nat \<Rightarrow> string \<Rightarrow> string \<Rightarrow> string" where
  "os_error_text e errno strerror filename =
     ''[Errno '' @ str_nat errno @ ''] '' @ strerror @ '': '' @ str_repr e filename"

fun str_exc :: "env \<Rightarrow> exception \<Rightarrow> string" where
  "str_exc e (OSError n s f) = os_error_text e n s f"
| "str_exc e (FileNotFoundError m) = m"
| "str_exc e (UnicodeDecodeError m) = m"
| "str_exc e (IndexError m) = m"
| "str_exc e (ConnectionError m) = m"
| "str_exc e (Exception m) = m"

subsection \<open>Logging and printing\<close>

definition emit :: "world \<Rightarrow> event \<Rightarrow> world" where
  "emit w ev = w\<lparr>trace := trace w @ [ev]\<rparr>"

text \<open>\<open>logging.basicConfig(level=logging.INFO)\<close> (l.37): DEBUG records are dropped.\<close>

definition logger_debug :: "world \<Rightarrow> string \<Rightarrow> world" where
  "logger_debug w m = w"

definition logger_info :: "world \<Rightarrow> string \<Rightarrow> world" where
  "logger_info w m = emit w (Log INFO m)"

definition logger_warning :: "world \<Rightarrow> string \<Rightarrow> world" where
  "logger_warning w m = emit w (Log WARNING m)"

text \<open>With \<open>exc_info=True\<close> the stack trace follows the message; only the message is kept.\<close>

definition logger_error :: "world \<Rightarrow> string \<Rightarrow> world" where
  "logger_error w m = emit w (Log ERROR m)"

definition print :: "world \<Rightarrow> string \<Rightarrow> world" where
  "print w m = emit w (Print m)"

text \<open>The requests sent to the remote service, in order.\<close>

fun calls :: "event list \<Rightarrow> request list" where
  "calls [] = []"
| "calls (Call r # es) = r # calls es"
| "calls (ev # es) = calls es"

subsection \<open>Files and directories\<close>

text \<open>
  \<open>Path.exists()\<close> (Python 3.11): \<open>stat\<close> is called; an \<open>OSError\<close> whose \<open>errno\<close> is
  \<open>ENOENT\<close>, \<open>ENOTDIR\<close>, \<open>EBADF\<close> or \<open>ELOOP\<close> means that the path does not exist,
  and any other one is raised again.
\<close>

definition exists_ignores :: "nat \<Rightarrow> bool" where
  "exists_ignores n = (n = 2 \<or> n = 20 \<or> n = 9 \<or> n = 40)"

definition path_exists :: "world \<Rightarrow> ppath \<Rightarrow> exception + bool" where
  "path_exists w p =
     (case fs w (str_path p) of
        None \<Rightarrow> Inr False
      | Some (Unreachable n m) \<Rightarrow>
          if exists_ignores n then Inr False else Inl (OSError n m (str_path p))
      | Some node \<Rightarrow> Inr True)"

text \<open>\<open>st_size\<close>; what a directory reports depends on the file system and is taken as 0.\<close>

definition st_size :: "world \<Rightarrow> ppath \<Rightarrow> nat" where
  "st_size w p = (case fs w (str_path p) of Some (File bs) \<Rightarrow> length bs | _ \<Rightarrow> 0)"

text \<open>
  \<open>Path.mkdir(exist_ok=True)\<close>: an error of \<open>os.mkdir\<close> is raised again unless the
  path is a directory.
\<close>

definition mkdir :: "world \<Rightarrow> ppath \<Rightarrow> world \<times> (exception + unit)" where
  "mkdir w p =
     (let s = str_path p
      in case fs w s of
           Some Dir \<Rightarrow> (w, Inr ())
         | Some (File bs) \<Rightarrow> (w, Inl (OSError 17 ''File exists'' s))
         | Some (Unreachable n m) \<Rightarrow> (w, Inl (OSError n m s))
         | None \<Rightarrow>
             (case os_error w s of
                Some e \<Rightarrow> (w, Inl e)
              | None \<Rightarrow> (w\<lparr>fs := (fs w)(s \<mapsto> Dir)\<rparr>, Inr ())))"

text \<open>
  \<open>open(p, 'r', encoding='utf-8')\<close> followed by \<open>f.read()\<close>.  The text of a
  \<open>UnicodeDecodeError\<close>, which names the byte and its position, is not reproduced.
\<close>

definition read_text :: "world \<Rightarrow> string \<Rightarrow> exception + string" where
  "read_text w s =
     (case fs w s of
        None \<Rightarrow> Inl (OSError 2 ''No such file or directory'' s)
      | Some Dir \<Rightarrow> Inl (OSError 21 ''Is a directory'' s)
      | Some (Unreachable n m) \<Rightarrow> Inl (OSError n m s)
      | Some (File bs) \<Rightarrow>
          (case os_error w s of
             Some e \<Rightarrow> Inl e
           | None \<Rightarrow>
               if utf8_valid bs then Inr (universal_newlines bs)
               else Inl (UnicodeDecodeError ''utf-8 codec cannot decode the file'')))"

text \<open>
  \<open>open(p, 'w', encoding='utf-8')\<close> followed by the writes of the \<open>with\<close> block,
  on POSIX (no translation of \<open>\n\<close>).  Once the file is open the writes complete.
\<close>

definition write_text :: "world \<Rightarrow> string \<Rightarrow> string \<Rightarrow> world \<times> (exception + unit)" where
  "write_text w s text =
     (case fs w s of
        Some Dir \<Rightarrow> (w, Inl (OSError 21 ''Is a directory'' s))
      | Some (Unreachable n m) \<Rightarrow> (w, Inl (OSError n m s))
      | _ \<Rightarrow>
          (case os_error w s of
             Some e \<Rightarrow> (w, Inl e)
           | None \<Rightarrow> (w\<lparr>fs := (fs w)(s \<mapsto> File text)\<rparr>, Inr ())))"

section \<open>\<open>json.dump(..., ensure_ascii=False, indent=2)\<close>\<close>

definition hex_digit :: "nat \<Rightarrow> char" where
  "hex_digit d = (if d < 10 then char_of (48 + d) else char_of (87 + d))"

text \<open>
  \<open>json.encoder.ESCAPE_DCT\<close>: the quote, the backslash and the control characters
  below \<open>0x20\<close> are escaped; with \<open>ensure_ascii=False\<close> everything else is written
  as it is.
\<close>

definition escape_char :: "char \<Rightarrow> string" where
  "escape_char c =
     (if c = CHR 0x22 then [CHR 0x5C, CHR 0x22]
      else if c = CHR 0x5C then [CHR 0x5C, CHR 0x5C]
      else if c = CHR 0x08 then [CHR 0x5C, CHR ''b'']
      else if c = CHR 0x0C then [CHR 0x5C, CHR ''f'']
      else if c = CHR 0x0A then [CHR 0x5C, CHR ''n'']
      else if c = CHR 0x0D then [CHR 0x5C, CHR ''r'']
      else if c = CHR 0x09 then [CHR 0x5C, CHR ''t'']
      else if (of_char c :: nat) < 0x20 then
        [CHR 0x5C, CHR ''u'', CHR ''0'', CHR ''0'',
         hex_digit ((of_char c :: nat) div 16), hex_digit ((of_char c :: nat) mod 16)]
      else [c])"

definition encode_basestring :: "string \<Rightarrow> string" where
  "encode_basestring s = [CHR 0x22] @ concat (map escape_char s) @ [CHR 0x22]"

datatype json = JString string | JFloat rat

definition json_value :: "env \<Rightarrow> json \<Rightarrow> string" where
  "json_value e v = (case v of JString s \<Rightarrow> encode_basestring s | JFloat x \<Rightarrow> float_repr e x)"

text \<open>A \<open>dict\<close> of strings and floats, in insertion order, with \<open>indent=2\<close>.\<close>

definition json_dumps :: "env \<Rightarrow> (string \<times> json) list \<Rightarrow> string" where
  "json_dumps e kvs =
     (if kvs = [] then ''{}''
      else ''{'' @ [CHR 0x0A] @ ''  ''
        @ join_with ('','' @ [CHR 0x0A] @ ''  '')
            (map (\<lambda>(k, v). encode_basestring k @ '': '' @ json_value e v) kvs)
        @ [CHR 0x0A] @ ''}'')"

section \<open>\<open>class VideoAnnotator\<close>\<close>

record annotator =
  self_model :: string
  self_fps :: rat
  self_temperature :: rat
  self_max_tokens :: nat
  base_dir :: ppath
  videos_dir :: ppath
  outputs_dir :: ppath
  prompts_dir :: ppath

text \<open>The dictionary returned by \<open>annotate_video\<close> (l.168-173).\<close>

record result =
  res_content :: string
  res_processing_time :: rat
  res_model :: string
  res_fps :: rat

subsection \<open>\<open>__init__\<close> (l.54-68)\<close>

fun mkdir_all :: "world \<Rightarrow> ppath list \<Rightarrow> world \<times> (exception + unit)" where
  "mkdir_all w [] = (w, Inr ())"
| "mkdir_all w (d # ds) =
     (case mkdir w d of
        (w', Inl e) \<Rightarrow> (w', Inl e)
      | (w', Inr u) \<Rightarrow> mkdir_all (logger_debug w' (str_path d)) ds)"

definition VideoAnnotator :: "env \<Rightarrow> world \<Rightarrow> world \<times> (exception + annotator)" where
  "VideoAnnotator e w =
     (let self = \<lparr>self_model = MODEL, self_fps = FPS, self_temperature = TEMPERATURE,
                  self_max_tokens = MAX_TOKENS,
                  base_dir = file_dir e,
                  videos_dir = path_join (file_dir e) ''videos'',
                  outputs_dir = path_join (file_dir e) ''outputs'',
                  prompts_dir = path_join (file_dir e) ''prompts''\<rparr>
      in case mkdir_all w [videos_dir self, outputs_dir self, prompts_dir self] of
           (w', Inl ex) \<Rightarrow> (w', Inl ex)
         | (w', Inr u) \<Rightarrow> (w', Inr self))"

subsection \<open>\<open>load_prompt\<close> (l.70-86)\<close>

definition load_prompt :: "world \<Rightarrow> annotator \<Rightarrow> string option \<Rightarrow> world \<times> (exception + string)" where
  "load_prompt w self prompt_path =
     (let prompt_path =
            (case prompt_path of
               None \<Rightarrow> path_join (prompts_dir self) ''pov_annotation_prompt.txt''
             | Some s \<Rightarrow> Path s);
          w = logger_info w (txt_prompt_loading @ str_path prompt_path)
      in case path_exists w prompt_path of
           Inl ex \<Rightarrow> (w, Inl ex)
         | Inr False \<Rightarrow>
             (logger_warning w (txt_prompt_missing @ str_path prompt_path), Inr fallback_prompt)
         | Inr True \<Rightarrow>
             (case read_text w (str_path prompt_path) of
                Inl ex \<Rightarrow> (w, Inl ex)
              | Inr content \<Rightarrow>
                  (logger_info w (txt_prompt_loaded @ str_nat (py_len content) @ txt_symbols),
                   Inr content)))"

subsection \<open>\<open>annotate_video\<close> (l.88-178)\<close>

text \<open>The message list of l.120-135.\<close>

definition build_messages :: "string \<Rightarrow> rat \<Rightarrow> string \<Rightarrow> message list" where
  "build_messages video_url fps prompt_text =
     [\<lparr>msg_role = ''user'',
       msg_content = [VideoBlock video_url fps, TextBlock prompt_text]\<rparr>]"

text \<open>The keyword arguments of the call (l.147-153).\<close>

definition build_request :: "annotator \<Rightarrow> message list \<Rightarrow> request" where
  "build_request self messages =
     \<lparr>req_model = self_model self, req_messages = messages,
      req_temperature = self_temperature self,
      req_max_tokens = self_max_tokens self, req_top_p = 9 / 10\<rparr>"

text \<open>The body of the \<open>try\<close> block (l.144-173).\<close>

definition call_api ::
  "env \<Rightarrow> world \<Rightarrow> annotator \<Rightarrow> message list \<Rightarrow> world \<times> (exception + result)" where
  "call_api e w self messages =
     (let w = logger_debug w ''model, temp, max_tokens'';
          req = build_request self messages;
          w = emit w (Call req)
      in case remote e req of
           Inl ex \<Rightarrow> (w, Inl ex)
         | Inr response \<Rightarrow>
             (let processing_time = elapsed e;
                  w = logger_info w
                        (txt_got_response @ float_fixed e 1 processing_time @ txt_seconds)
              in if status_code response \<noteq> 200 then
                   (logger_error w
                      (txt_api_error_code @ str_int (status_code response)
                         @ txt_api_error_msg @ resp_message response),
                    Inl (Exception (txt_api_error @ resp_message response)))
                 else
                   (case resp_choices response of
                      [] \<Rightarrow> (w, Inl (IndexError ''list index out of range''))
                    | content # rest \<Rightarrow>
                        (let w = logger_info w
                                   (txt_annotation_size @ str_nat (py_len content) @ txt_symbols);
                             w = print w
                                   (txt_p_done @ float_fixed e 1 processing_time @ txt_seconds)
                         in (w, Inr \<lparr>res_content = content,
                                     res_processing_time = processing_time,
                                     res_model = self_model self,
                                     res_fps = self_fps self\<rparr>)))))"

text \<open>\<open>if prompt_text is None: prompt_text = self.load_prompt()\<close> (l.105-106).\<close>

definition prompt_or_default ::
  "world \<Rightarrow> annotator \<Rightarrow> string option \<Rightarrow> world \<times> (exception + string)" where
  "prompt_or_default w self prompt_text =
     (case prompt_text of None \<Rightarrow> load_prompt w self None | Some t \<Rightarrow> (w, Inr t))"

definition annotate_video ::
  "env \<Rightarrow> world \<Rightarrow> annotator \<Rightarrow> string \<Rightarrow> string option \<Rightarrow> world \<times> (exception + result)" where
  "annotate_video e w self video_path prompt_text =
     (let video_path = Path video_path;
          w = logger_info w (txt_video_start @ str_path video_path)
      in case path_exists w video_path of
           Inl ex \<Rightarrow> (w, Inl ex)
         | Inr False \<Rightarrow>
             (logger_error w (txt_video_not_found @ str_path video_path),
              Inl (FileNotFoundError (txt_video_not_found @ str_path video_path)))
         | Inr True \<Rightarrow>
           (let file_size = rat_of_nat (st_size w video_path) / (1024 * 1024);
                w = logger_info w (txt_video_size @ float_fixed e 2 file_size @ '' MB'');
                w = (if file_size > 1000 then
                       logger_warning w (txt_video_too_big @ float_fixed e 2 file_size @ txt_max_1gb)
                     else w)
            in case prompt_or_default w self prompt_text of
                 (w, Inl ex) \<Rightarrow> (w, Inl ex)
               | (w, Inr prompt_text) \<Rightarrow>
                   (let w = print w (txt_p_video @ path_name video_path);
                        w = print w (txt_p_model @ self_model self);
                        w = print w (txt_p_fps @ float_repr e (self_fps self));
                        w = print w (txt_p_temperature @ float_repr e (self_temperature self));
                        w = print w (txt_p_prompt_len @ str_nat (py_len prompt_text) @ txt_symbols);
                        w = print w (txt_p_video_size @ float_fixed e 2 file_size @ '' MB'');
                        video_url = ''file://'' @ str_path (path_absolute (getcwd e) video_path);
                        w = logger_info w (txt_video_url @ video_url);
                        messages = build_messages video_url (self_fps self) prompt_text;
                        w = logger_debug w ''messages, fps'';
                        w = print w txt_p_sending;
                        w = logger_info w txt_sending
                    in case call_api e w self messages of
                         (w, Inr res) \<Rightarrow> (w, Inr res)
                       | (w, Inl ex) \<Rightarrow>
                           (let w = logger_error w (txt_processing_error @ str_exc e ex);
                                w = print w (txt_p_processing_error @ str_exc e ex)
                            in (w, Inl ex)))))"

subsection \<open>\<open>save_results\<close> (l.180-222)\<close>

text \<open>\<open>strftime("%Y%m%d_%H%M%S")\<close>.\<close>

definition strftime :: "datetime \<Rightarrow> string" where
  "strftime d =
     zfill 4 (str_nat (dt_year d)) @ zfill 2 (str_nat (dt_month d)) @ zfill 2 (str_nat (dt_day d))
       @ ''_'' @ zfill 2 (str_nat (dt_hour d)) @ zfill 2 (str_nat (dt_minute d))
       @ zfill 2 (str_nat (dt_second d))"

text \<open>The dictionary of l.191-198 and the text written by l.207-213.\<close>

definition json_record :: "string \<Rightarrow> result \<Rightarrow> string \<Rightarrow> (string \<times> json) list" where
  "json_record video_name res timestamp =
     [(''video'', JString video_name),
      (''model'', JString (res_model res)),
      (''fps'', JFloat (res_fps res)),
      (''processing_time'', JFloat (res_processing_time res)),
      (''timestamp'', JString timestamp),
      (''annotation'', JString (res_content res))]"

definition txt_record :: "env \<Rightarrow> string \<Rightarrow> result \<Rightarrow> string \<Rightarrow> string" where
  "txt_record e video_name res timestamp =
     txt_f_header @ video_name @ '' ==='' @ [CHR 0x0A]
       @ txt_f_model @ res_model res @ [CHR 0x0A]
       @ ''FPS: '' @ float_repr e (res_fps res) @ [CHR 0x0A]
       @ txt_f_time @ float_fixed e 1 (res_processing_time res) @ txt_f_sec
       @ txt_f_date @ timestamp @ [CHR 0x0A]
       @ txt_f_body
       @ res_content res"

definition save_results ::
  "env \<Rightarrow> world \<Rightarrow> annotator \<Rightarrow> string \<Rightarrow> result \<Rightarrow> world \<times> (ppath \<times> ppath)" where
  "save_results e w self video_name res =
     (let timestamp = strftime (now_save e);
          base_name = path_stem (Path video_name) @ ''_'' @ timestamp;
          w = logger_info w (txt_saving @ video_name);
          json_path = path_join (outputs_dir self) (base_name @ ''.json'');
          w = (case write_text w (str_path json_path)
                      (json_dumps e (json_record video_name res timestamp)) of
                 (w, Inr u) \<Rightarrow> logger_info w (txt_json_saved @ str_path json_path)
               | (w, Inl ex) \<Rightarrow> logger_error w (txt_json_error @ str_exc e ex));
          txt_path = path_join (outputs_dir self) (base_name @ ''.txt'');
          w = (case write_text w (str_path txt_path)
                      (txt_record e video_name res timestamp) of
                 (w, Inr u) \<Rightarrow> logger_info w (txt_txt_saved @ str_path txt_path)
               | (w, Inl ex) \<Rightarrow> logger_error w (txt_txt_error @ str_exc e ex));
          w = print w txt_p_saved;
          w = print w (txt_p_json @ str_path json_path);
          w = print w (txt_p_txt @ str_path txt_path)
      in (w, (json_path, txt_path)))"

section \<open>\<open>main\<close> (l.225-281)\<close>

text \<open>
  The namespace returned by \<open>parse_args\<close>: an option that was not given is \<open>None\<close>;
  \<open>--fps\<close> and \<open>--temperature\<close> have \<open>type=float\<close>.
\<close>

record args =
  args_video :: string
  args_prompt :: "string option"
  args_fps :: "rat option"
  args_model :: "string option"
  args_temperature :: "rat option"

text \<open>How \<open>main\<close> ends: it returns, it raises \<open>SystemExit\<close>, or an exception escapes it.\<close>

datatype outcome = Returned | SystemExit int | Uncaught exception

text \<open>
  The truth value that an \<open>if\<close> gives to a float and to a string: zero and the empty
  string are false (and so is \<open>None\<close>, the value of an option that was not given).
\<close>

definition truthy_float :: "rat \<Rightarrow> bool" where
  "truthy_float v = (v \<noteq> 0)"

definition truthy_str :: "string \<Rightarrow> bool" where
  "truthy_str s = (s \<noteq> [])"

definition fmt_opt_float :: "env \<Rightarrow> rat option \<Rightarrow> string" where
  "fmt_opt_float e x = (case x of None \<Rightarrow> ''None'' | Some v \<Rightarrow> float_repr e v)"

definition fmt_opt_str :: "string option \<Rightarrow> string" where
  "fmt_opt_str x = (case x of None \<Rightarrow> ''None'' | Some s \<Rightarrow> s)"

text \<open>The overrides of l.244-252.\<close>

definition apply_overrides :: "env \<Rightarrow> world \<Rightarrow> annotator \<Rightarrow> args \<Rightarrow> world \<times> annotator" where
  "apply_overrides e w annotator a =
     (let (w, annotator) =
            (case args_fps a of
               Some v \<Rightarrow>
                 if truthy_float v then
                   (logger_info w (txt_fps_changed @ float_repr e v), annotator\<lparr>self_fps := v\<rparr>)
                 else (w, annotator)
             | None \<Rightarrow> (w, annotator));
          (w, annotator) =
            (case args_model a of
               Some m \<Rightarrow>
                 if truthy_str m then
                   (logger_info w (txt_model_changed @ m), annotator\<lparr>self_model := m\<rparr>)
                 else (w, annotator)
             | None \<Rightarrow> (w, annotator));
          (w, annotator) =
            (case args_temperature a of
               Some v \<Rightarrow>
                 if truthy_float v then
                   (logger_info w (txt_temperature_changed @ float_repr e v),
                    annotator\<lparr>self_temperature := v\<rparr>)
                 else (w, annotator)
             | None \<Rightarrow> (w, annotator))
      in (w, annotator))"

text \<open>The custom prompt of l.255-259; the read is not inside any \<open>try\<close>.\<close>

definition read_custom_prompt :: "world \<Rightarrow> args \<Rightarrow> world \<times> (exception + string option)" where
  "read_custom_prompt w a =
     (case args_prompt a of
        Some p \<Rightarrow>
          if truthy_str p then
            (let w = logger_info w (txt_custom_prompt @ p)
             in case read_text w p of
                  Inl ex \<Rightarrow> (w, Inl ex)
                | Inr text \<Rightarrow> (w, Inr (Some text)))
          else (w, Inr None)
      | None \<Rightarrow> (w, Inr None))"

text \<open>The \<open>try\<close> statement of l.261-281.\<close>

definition main_try ::
  "env \<Rightarrow> world \<Rightarrow> annotator \<Rightarrow> args \<Rightarrow> string option \<Rightarrow> world \<times> outcome" where
  "main_try e w annotator a prompt =
     (case annotate_video e w annotator (args_video a) prompt of
        (w, Inl ex) \<Rightarrow>
          (let w = logger_error w (txt_critical @ str_exc e ex);
               w = print w (txt_p_error @ str_exc e ex)
           in (w, SystemExit 1))
      | (w, Inr res) \<Rightarrow>
          (let (w, paths) = save_results e w annotator (path_name (Path (args_video a))) res;
               w = print w txt_p_preview;
               w = print w (replicate 50 (CHR ''-''));
               w = print w (py_take 500 (res_content res));
               w = (if py_len (res_content res) > 500 then print w ''...'' else w);
               w = logger_info w txt_script_done;
               w = logger_info w (replicate 60 (CHR ''=''))
           in (w, Returned)))"

definition main :: "env \<Rightarrow> world \<Rightarrow> args \<Rightarrow> world \<times> outcome" where
  "main e w a =
     (let w = logger_info w (replicate 60 (CHR ''=''));
          w = logger_info w txt_script_start;
          w = logger_info w (txt_video @ args_video a);
          w = logger_info w
                (txt_cli_params @ fmt_opt_float e (args_fps a)
                   @ '', model='' @ fmt_opt_str (args_model a)
                   @ '', temp='' @ fmt_opt_float e (args_temperature a))
      in case VideoAnnotator e w of
           (w, Inl ex) \<Rightarrow> (w, Uncaught ex)
         | (w, Inr annotator) \<Rightarrow>
             (let (w, annotator) = apply_overrides e w annotator a
              in case read_custom_prompt w a of
                   (w, Inl ex) \<Rightarrow> (w, Uncaught ex)
                 | (w, Inr prompt) \<Rightarrow> main_try e w annotator a prompt))"

section \<open>Running the script (l.46-48, l.284-285)\<close>

text \<open>
  Importing the module logs the first ten characters of the key; then \<open>main()\<close> runs.
  The interpreter ends with status 0 when \<open>main\<close> returns and with the code of a
  \<open>SystemExit\<close>; an exception that escapes \<open>main\<close> is reported on standard error
  (the last line of the report is kept: class and message) and the status is 1.
\<close>

definition exit_status :: "outcome \<Rightarrow> int" where
  "exit_status out = (case out of Returned \<Rightarrow> 0 | SystemExit n \<Rightarrow> n | Uncaught ex \<Rightarrow> 1)"

definition run_script :: "env \<Rightarrow> world \<Rightarrow> args \<Rightarrow> world \<times> int" where
  "run_script e w a =
     (let api_key = (case getenv_key e of None \<Rightarrow> API_KEY | Some k \<Rightarrow> k);
          w = logger_info w (txt_api_key @ py_take 10 api_key @ ''...'');
          (w, out) = main e w a;
          w = (case out of
                 Uncaught ex \<Rightarrow> emit w (Stderr (class_name ex @ '': '' @ str_exc e ex))
               | _ \<Rightarrow> w)
      in (w, exit_status out))"

section \<open>Reading the structured file back (\<open>json.load\<close>)\<close>

text \<open>
  The decoder of the standard library, restricted to what the structured file can
  hold: one object whose values are strings, numbers and the literals \<open>true\<close>,
  \<open>false\<close> and \<open>null\<close>.  Arrays and nested objects are rejected, and so is an
  escape \<open>\uXXXX\<close> of a surrogate, which has no UTF-8 encoding.
\<close>

datatype jvalue = VString string | VNumber string | VBool bool | VNull

definition is_ws :: "char \<Rightarrow> bool" where
  "is_ws c = (c = CHR '' '' \<or> c = CHR 0x09 \<or> c = CHR 0x0A \<or> c = CHR 0x0D)"

definition skip_ws :: "string \<Rightarrow> string" where
  "skip_ws s = dropWhile is_ws s"

definition hex_val :: "char \<Rightarrow> nat option" where
  "hex_val c =
     (let n = (of_char c :: nat)
      in if 48 \<le> n \<and> n \<le> 57 then Some (n - 48)
         else if 97 \<le> n \<and> n \<le> 102 then Some (n - 87)
         else if 65 \<le> n \<and> n \<le> 70 then Some (n - 55)
         else None)"

definition hex4 :: "char \<Rightarrow> char \<Rightarrow> char \<Rightarrow> char \<Rightarrow> nat option" where
  "hex4 a b c d =
     (case (hex_val a, hex_val b, hex_val c, hex_val d) of
        (Some x, Some y, Some z, Some u) \<Rightarrow> Some (((x * 16 + y) * 16 + z) * 16 + u)
      | _ \<Rightarrow> None)"

text \<open>The UTF-8 encoding of a code point of the basic plane.\<close>

definition utf8_encode :: "nat \<Rightarrow> string option" where
  "utf8_encode n =
     (if n < 0x80 then Some [char_of n]
      else if n < 0x800 then Some [char_of (0xC0 + n div 64), char_of (0x80 + n mod 64)]
      else if 0xD800 \<le> n \<and> n \<le> 0xDFFF then None
      else if n < 0x10000 then
        Some [char_of (0xE0 + n div 4096), char_of (0x80 + (n div 64) mod 64),
              char_of (0x80 + n mod 64)]
      else None)"

text \<open>\<open>json.decoder.BACKSLASH\<close>.\<close>

definition unescape :: "char \<Rightarrow> char option" where
  "unescape c =
     (if c = CHR 0x22 then Some (CHR 0x22)
      else if c = CHR 0x5C then Some (CHR 0x5C)
      else if c = CHR ''/'' then Some (CHR ''/'')
      else if c = CHR ''b'' then Some (CHR 0x08)
      else if c = CHR ''f'' then Some (CHR 0x0C)
      else if c = CHR ''n'' then Some (CHR 0x0A)
      else if c = CHR ''r'' then Some (CHR 0x0D)
      else if c = CHR ''t'' then Some (CHR 0x09)
      else None)"

text \<open>
  \<open>scanstring\<close>, from just after the opening quote: the decoded string and what
  follows the closing quote.  A raw control character is an error (\<open>strict=True\<close>).
\<close>

fun scan_string :: "string \<Rightarrow> (string \<times> string) option" where
  "scan_string [] = None"
| "scan_string (c # cs) =
     (if c = CHR 0x22 then Some ([], cs)
      else if c = CHR 0x5C then
        (case cs of
           [] \<Rightarrow> None
         | x # r \<Rightarrow>
             if x = CHR ''u'' then
               (case r of
                  h1 # h2 # h3 # h4 # r' \<Rightarrow>
                    (case hex4 h1 h2 h3 h4 of
                       None \<Rightarrow> None
                     | Some n \<Rightarrow>
                         (case utf8_encode n of
                            None \<Rightarrow> None
                          | Some bs \<Rightarrow>
                              (case scan_string r' of
                                 None \<Rightarrow> None
                               | Some (t, rest) \<Rightarrow> Some (bs @ t, rest))))
                | _ \<Rightarrow> None)
             else
               (case unescape x of
                  None \<Rightarrow> None
                | Some ch \<Rightarrow>
                    (case scan_string r of
                       None \<Rightarrow> None
                     | Some (t, rest) \<Rightarrow> Some (ch # t, rest))))
      else if (of_char c :: nat) < 0x20 then None
      else
        (case scan_string cs of
           None \<Rightarrow> None
         | Some (t, rest) \<Rightarrow> Some (c # t, rest)))"

definition is_digit :: "char \<Rightarrow> bool" where
  "is_digit c = (48 \<le> (of_char c :: nat) \<and> (of_char c :: nat) \<le> 57)"

text \<open>
  The numbers the decoder accepts: \<open>-?(0|[1-9]\d*)(\.\d+)?([eE][-+]?\d+)?\<close>, and
  the three constants \<open>NaN\<close>, \<open>Infinity\<close> and \<open>-Infinity\<close>.
\<close>

definition exponent_ok :: "string \<Rightarrow> bool" where
  "exponent_ok s =
     (case s of
        [] \<Rightarrow> True
      | c # r \<Rightarrow>
          (c = CHR ''e'' \<or> c = CHR ''E'')
          \<and> (let ds = (case r of
                         [] \<Rightarrow> []
                       | x # t \<Rightarrow> if x = CHR ''+'' \<or> x = CHR ''-'' then t else r)
             in ds \<noteq> [] \<and> list_all is_digit ds))"

definition fraction_ok :: "string \<Rightarrow> bool" where
  "fraction_ok s =
     (case s of
        [] \<Rightarrow> True
      | c # r \<Rightarrow>
          if c = CHR ''.'' then takeWhile is_digit r \<noteq> [] \<and> exponent_ok (dropWhile is_digit r)
          else exponent_ok s)"

definition number_ok :: "string \<Rightarrow> bool" where
  "number_ok s =
     (let u = (case s of [] \<Rightarrow> [] | c # r \<Rightarrow> if c = CHR ''-'' then r else s);
          ip = takeWhile is_digit u
      in (ip = ''0'' \<or> (ip \<noteq> [] \<and> hd ip \<noteq> CHR ''0'')) \<and> fraction_ok (dropWhile is_digit u))"

definition is_json_number :: "string \<Rightarrow> bool" where
  "is_json_number s =
     (s = ''NaN'' \<or> s = ''Infinity'' \<or> s = ''-Infinity'' \<or> number_ok s)"

definition is_delim :: "char \<Rightarrow> bool" where
  "is_delim c = (is_ws c \<or> c = CHR '','' \<or> c = CHR ''}'')"

text \<open>A value, from its first character: the value and what follows it.\<close>

definition scan_value :: "string \<Rightarrow> (jvalue \<times> string) option" where
  "scan_value s =
     (case s of
        [] \<Rightarrow> None
      | c # r \<Rightarrow>
          if c = CHR 0x22 then
            (case scan_string r of
               None \<Rightarrow> None
             | Some (t, rest) \<Rightarrow> Some (VString t, rest))
          else
            (let lexeme = takeWhile (\<lambda>x. \<not> is_delim x) s;
                 rest = dropWhile (\<lambda>x. \<not> is_delim x) s
             in if lexeme = ''true'' then Some (VBool True, rest)
                else if lexeme = ''false'' then Some (VBool False, rest)
                else if lexeme = ''null'' then Some (VNull, rest)
                else if is_json_number lexeme then Some (VNumber lexeme, rest)
                else None))"

lemma length_skip_ws: "length (skip_ws s) \<le> length s"
  by (simp add: skip_ws_def length_dropWhile_le)

lemma scan_string_shorter: "scan_string s = Some (t, rest) \<Longrightarrow> length rest < length s"
proof (induction s arbitrary: t rest rule: scan_string.induct)
  case 1
  then show ?case by simp
next
  case (2 c cs)
  then show ?case
    by (auto split: if_splits list.splits option.splits prod.splits) force+
qed

lemma scan_value_shorter:
  assumes "scan_value s = Some (v, rest)"
  shows "length rest \<le> length s"
proof (cases s)
  case Nil
  with assms show ?thesis by (simp add: scan_value_def)
next
  case (Cons c r)
  show ?thesis
  proof (cases "c = CHR 0x22")
    case True
    with assms Cons obtain t where "scan_string r = Some (t, rest)"
      by (auto simp: scan_value_def split: option.splits)
    from scan_string_shorter [OF this] Cons show ?thesis by simp
  next
    case False
    with assms Cons have "rest = dropWhile (\<lambda>x. \<not> is_delim x) s"
      by (simp add: scan_value_def Let_def split: if_splits)
    then show ?thesis by (simp add: length_dropWhile_le)
  qed
qed

text \<open>
  The members of an object, from after the opening brace (or after a comma): the list
  of pairs and what follows the closing brace.
\<close>

function parse_members :: "string \<Rightarrow> ((string \<times> jvalue) list \<times> string) option" where
  "parse_members s =
     (case skip_ws s of
        [] \<Rightarrow> None
      | c # r \<Rightarrow>
          if c \<noteq> CHR 0x22 then None
          else
            (case scan_string r of
               None \<Rightarrow> None
             | Some (k, r1) \<Rightarrow>
                 (case skip_ws r1 of
                    [] \<Rightarrow> None
                  | d # r2 \<Rightarrow>
                      if d \<noteq> CHR '':'' then None
                      else
                        (case scan_value (skip_ws r2) of
                           None \<Rightarrow> None
                         | Some (v, r3) \<Rightarrow>
                             (case skip_ws r3 of
                                [] \<Rightarrow> None
                              | x # r4 \<Rightarrow>
                                  if x = CHR '','' then
                                    (case parse_members r4 of
                                       None \<Rightarrow> None
                                     | Some (kvs, rest) \<Rightarrow> Some ((k, v) # kvs, rest))
                                  else if x = CHR ''}'' then Some ([(k, v)], r4)
                                  else None)))))"
  by pat_completeness auto

termination
proof (relation "measure length")
  show "wf (measure length)" by simp
next
  fix s c r k r1 d r2 v r3 x r4 and y :: "string \<times> string" and z :: "jvalue \<times> string"
  assume a: "skip_ws s = c # r" "scan_string r = Some y" "(k, r1) = y"
    "skip_ws r1 = d # r2" "scan_value (skip_ws r2) = Some z" "(v, r3) = z"
    "skip_ws r3 = x # r4"
  have "length r4 < length r3"
    using length_skip_ws [of r3] a(7) by simp
  also have "length r3 \<le> length (skip_ws r2)"
    using a(5,6) scan_value_shorter [of "skip_ws r2" v r3] by simp
  also have "\<dots> \<le> length r2" by (rule length_skip_ws)
  also have "\<dots> < length r1"
    using length_skip_ws [of r1] a(4) by simp
  also have "\<dots> < length r"
    using a(2,3) scan_string_shorter [of r k r1] by simp
  also have "\<dots> < length s"
    using length_skip_ws [of s] a(1) by simp
  finally show "(r4, s) \<in> measure length" by simp
qed

declare parse_members.simps [simp del]

text \<open>\<open>json.loads\<close> of a document that holds one object.\<close>

definition json_loads :: "string \<Rightarrow> (string \<times> jvalue) list option" where
  "json_loads s =
     (case skip_ws s of
        [] \<Rightarrow> None
      | c # r \<Rightarrow>
          if c \<noteq> CHR ''{'' then None
          else
            (case skip_ws r of
               [] \<Rightarrow> None
             | x # r' \<Rightarrow>
                 if x = CHR ''}'' then (if skip_ws r' = [] then Some [] else None)
                 else
                   (case parse_members r of
                      None \<Rightarrow> None
                    | Some (kvs, rest) \<Rightarrow> if skip_ws rest = [] then Some kvs else None)))"

text \<open>Indexing the parsed \<open>dict\<close>: of two members with one key the later one stands.\<close>

definition dict_get :: "(string \<times> jvalue) list \<Rightarrow> string \<Rightarrow> jvalue option" where
  "dict_get kvs k = map_of (rev kvs) k"

section \<open>Notions used in the statements\<close>

definition no_slash :: "string \<Rightarrow> bool" where
  "no_slash s = (CHR ''/'' \<notin> set s)"

text \<open>
  \<open>open(p, 'w')\<close> succeeds: \<open>p\<close> is not a directory, the name can be looked up and
  the system does not refuse.
\<close>

definition can_write :: "world \<Rightarrow> string \<Rightarrow> bool" where
  "can_write w p =
     ((case fs w p of Some Dir \<Rightarrow> False | Some (Unreachable n m) \<Rightarrow> False | _ \<Rightarrow> True)
      \<and> os_error w p = None)"

text \<open>No file and no directory has the name \<open>p\<close>.\<close>

definition nothing_at :: "world \<Rightarrow> string \<Rightarrow> bool" where
  "nothing_at w p =
     (case fs w p of None \<Rightarrow> True | Some (Unreachable n m) \<Rightarrow> True | _ \<Rightarrow> False)"

text \<open>
  The path \<open>save_results\<close> derives for an extension, and the two texts it writes.
\<close>

definition out_path :: "env \<Rightarrow> annotator \<Rightarrow> string \<Rightarrow> string \<Rightarrow> ppath" where
  "out_path e self video_name ext =
     path_join (outputs_dir self)
       ((path_stem (Path video_name) @ ''_'' @ strftime (now_save e)) @ ext)"

definition json_text :: "env \<Rightarrow> string \<Rightarrow> result \<Rightarrow> string" where
  "json_text e video_name res =
     json_dumps e (json_record video_name res (strftime (now_save e)))"

definition txt_text :: "env \<Rightarrow> string \<Rightarrow> result \<Rightarrow> string" where
  "txt_text e video_name res = txt_record e video_name res (strftime (now_save e))"

text \<open>
  What the decoder gives back for a value of the dictionary: a string as it was, and
  a float as the numeral that was written for it.
\<close>

definition jvalue_of :: "env \<Rightarrow> json \<Rightarrow> jvalue" where
  "jvalue_of e v = (case v of JString s \<Rightarrow> VString s | JFloat x \<Rightarrow> VNumber (float_repr e x))"

text \<open>The numeral written for each float of the dictionary is one the decoder accepts.\<close>

definition floats_ok :: "env \<Rightarrow> (string \<times> json) list \<Rightarrow> bool" where
  "floats_ok e kvs =
     list_all (\<lambda>kv. case snd kv of JString s \<Rightarrow> True | JFloat x \<Rightarrow> is_json_number (float_repr e x))
       kvs"

text \<open>The reference to the video that \<open>annotate_video\<close> puts in the request (l.116).\<close>

definition video_url :: "env \<Rightarrow> string \<Rightarrow> string" where
  "video_url e v = ''file://'' @ str_path (path_absolute (getcwd e) (Path v))"





text \<open>No regular file is created or rewritten between two states of the world.\<close>

definition no_new_files :: "world \<Rightarrow> world \<Rightarrow> bool" where
  "no_new_files w w' = (\<forall>p c. fs w' p = Some (File c) \<longrightarrow> fs w p = Some (File c))"



subsection \<open>A concrete run\<close>

text \<open>
  The script lives in \<open>/app\<close> and is started in \<open>/home/u\<close> on \<open>clip.mp4\<close>, a file
  of three bytes; the clock shows 2024-01-01 12:00:00 when the results are saved and the
  call takes two and a half seconds.  The floats that occur are printed as Python
  prints them.
\<close>

definition demo_repr :: "rat \<Rightarrow> string" where
  "demo_repr x =
     (if x = 1 then ''1.0'' else if x = 3 / 10 then ''0.3'' else if x = 5 / 2 then ''2.5''
      else ''0.0'')"

definition demo_fixed :: "nat \<Rightarrow> rat \<Rightarrow> string" where
  "demo_fixed n x = (if x = 5 / 2 then ''2.5'' else ''0.00'')"

text \<open>The names that occur hold nothing that \<open>repr\<close> escapes, and no quote.\<close>

definition demo_str_repr :: "string \<Rightarrow> string" where
  "demo_str_repr s = [CHR 0x27] @ s @ [CHR 0x27]"

text \<open>An annotation with quotes, a line break and a letter outside ASCII.\<close>

definition demo_text :: string where
  "demo_text = ''A '' @ [CHR 0x22] @ ''cat'' @ [CHR 0x22, CHR 0x0A, CHR 0xD0, CHR 0x9E] @ ''.''"

definition demo_response :: "int \<Rightarrow> string \<Rightarrow> response" where
  "demo_response code text =
     \<lparr>status_code = code, resp_message = text,
      resp_choices = [demo_text]\<rparr>"

definition demo_env :: "response \<Rightarrow> env" where
  "demo_env r =
     \<lparr>file_dir = Path ''/app'', getcwd = ''/home/u'', getenv_key = None,
      remote = (\<lambda>q. Inr r), elapsed = 5 / 2,
      now_save = \<lparr>dt_year = 2024, dt_month = 1, dt_day = 1, dt_hour = 12, dt_minute = 0,
                  dt_second = 0\<rparr>,
      float_repr = demo_repr, float_fixed = demo_fixed, str_repr = demo_str_repr\<rparr>"

definition demo_world :: "(string \<Rightarrow> exception option) \<Rightarrow> world" where
  "demo_world refusals =
     \<lparr>fs = [''clip.mp4'' \<mapsto> File ''xyz''], os_error = refusals, trace = []\<rparr>"

definition demo_args :: args where
  "demo_args =
     \<lparr>args_video = ''clip.mp4'', args_prompt = None, args_fps = None, args_model = None,
      args_temperature = None\<rparr>"

definition demo_self :: annotator where
  "demo_self =
     \<lparr>self_model = MODEL, self_fps = FPS, self_temperature = TEMPERATURE,
      self_max_tokens = MAX_TOKENS, base_dir = Path ''/app'',
      videos_dir = Path ''/app/videos'', outputs_dir = Path ''/app/outputs'',
      prompts_dir = Path ''/app/prompts''\<rparr>"

definition demo_result :: result where
  "demo_result =
     \<lparr>res_content = demo_text,
      res_processing_time = 5 / 2, res_model = MODEL, res_fps = FPS\<rparr>"

definition no_refusal :: "string \<Rightarrow> exception option" where
  "no_refusal p = None"

text \<open>The operating system refuses to create the structured file of that run.\<close>

definition refuse_json :: "string \<Rightarrow> exception option" where
  "refuse_json p =
     (if p = ''/app/outputs/clip_20240101_120000.json''
      then Some (OSError 13 ''Permission denied'' p) else None)"

definition refuse_both :: "string \<Rightarrow> exception option" where
  "refuse_both p =
     (if p = ''/app/outputs/clip_20240101_120000.json''
         \<or> p = ''/app/outputs/clip_20240101_120000.txt''
      then Some (OSError 13 ''Permission denied'' p) else None)"


text \<open>
  A world in which the directory \<open>locked\<close> may not be searched: looking up a name
  below it fails with \<open>EACCES\<close>.
\<close>

definition locked_world :: world where
  "locked_world =
     \<lparr>fs = [''clip.mp4'' \<mapsto> File ''xyz'',
            ''locked/clip.mp4'' \<mapsto> Unreachable 13 ''Permission denied'',
            ''locked/p.txt'' \<mapsto> Unreachable 13 ''Permission denied''],
      os_error = no_refusal, trace = []\<rparr>"


section \<open>Auxiliary facts\<close>

subsection \<open>Logging leaves the files alone\<close>

lemma emit_simps [simp]:
  "fs (emit w ev) = fs w" "os_error (emit w ev) = os_error w"
  "trace (emit w ev) = trace w @ [ev]"
  by (simp_all add: emit_def)

lemma logger_simps [simp]:
  "fs (logger_info w m) = fs w" "os_error (logger_info w m) = os_error w"
  "trace (logger_info w m) = trace w @ [Log INFO m]"
  "fs (logger_warning w m) = fs w" "os_error (logger_warning w m) = os_error w"
  "trace (logger_warning w m) = trace w @ [Log WARNING m]"
  "fs (logger_error w m) = fs w" "os_error (logger_error w m) = os_error w"
  "trace (logger_error w m) = trace w @ [Log ERROR m]"
  "fs (print w m) = fs w" "os_error (print w m) = os_error w"
  "trace (print w m) = trace w @ [Print m]"
  "logger_debug w m = w"
  by (simp_all add: logger_info_def logger_warning_def logger_error_def print_def
        logger_debug_def)

lemma calls_append [simp]: "calls (xs @ ys) = calls xs @ calls ys"
  by (induction xs rule: calls.induct) simp_all

subsection \<open>Paths\<close>

lemma split_on_ne [simp]: "split_on c s \<noteq> []"
  by (induction s) (auto split: list.splits)

lemma split_on_no_sep: "c \<notin> set s \<Longrightarrow> split_on c s = [s]"
  by (induction s) auto

lemma split_on_parts: "x \<in> set (split_on c s) \<Longrightarrow> c \<notin> set x"
  by (induction s arbitrary: x) (auto split: list.splits if_splits)

lemma Path_of_name:
  assumes "no_slash x" "x \<noteq> []" "x \<noteq> ''.''"
  shows "Path x = \<lparr>root = [], parts = [x]\<rparr>"
proof -
  from assms have "take 1 x \<noteq> ''/''"
    by (cases x) (auto simp: no_slash_def)
  then have "splitroot x = ([], x)" by (simp add: splitroot_def)
  moreover have "split_on (CHR ''/'') x = [x]"
    using assms(1) by (simp add: split_on_no_sep no_slash_def)
  ultimately show ?thesis using assms by (simp add: Path_def)
qed

lemma parts_Path_no_slash:
  "x \<in> set (parts (Path s)) \<Longrightarrow> no_slash x \<and> x \<noteq> [] \<and> x \<noteq> ''.''"
  by (auto simp: Path_def no_slash_def split: prod.splits dest: split_on_parts)

lemma path_name_no_slash: "no_slash (path_name (Path s))"
proof (cases "parts (Path s) = []")
  case True
  then show ?thesis by (simp add: path_name_def no_slash_def)
next
  case False
  then have "last (parts (Path s)) \<in> set (parts (Path s))" by simp
  from parts_Path_no_slash [OF this] False show ?thesis by (simp add: path_name_def)
qed

lemma path_stem_no_slash: "no_slash (path_stem (Path s))"
proof -
  have n: "no_slash (path_name (Path s))" by (rule path_name_no_slash)
  then have "no_slash (take i (path_name (Path s)))" for i
    by (auto simp: no_slash_def dest: in_set_takeD)
  with n show ?thesis
    by (simp add: path_stem_def Let_def split: option.splits)
qed

subsection \<open>Decimal numbers and the time stamp\<close>

lemma is_digit_digit_char: "d < 10 \<Longrightarrow> is_digit (digit_char d)"
  by (simp add: is_digit_def digit_char_def)

lemma str_nat_digits: "c \<in> set (str_nat n) \<Longrightarrow> is_digit c"
proof (induction n arbitrary: c rule: str_nat.induct)
  case (1 n)
  show ?case
  proof (cases "n < 10")
    case True
    with 1(2) show ?thesis by (simp add: str_nat.simps [of n] is_digit_digit_char)
  next
    case False
    with 1(2) have "c \<in> set (str_nat (n div 10)) \<or> c = digit_char (n mod 10)"
      by (auto simp: str_nat.simps [of n])
    with 1(1) False show ?thesis by (auto simp: is_digit_digit_char)
  qed
qed

lemma is_digit_zero: "is_digit (CHR ''0'')"
  by (simp add: is_digit_def)

lemma zfill_digits: "c \<in> set (zfill k (str_nat n)) \<Longrightarrow> is_digit c"
  by (auto simp: zfill_def is_digit_zero dest: str_nat_digits)

lemma is_digit_no_slash: "is_digit c \<Longrightarrow> c \<noteq> CHR ''/''"
  by (auto simp: is_digit_def)

lemma strftime_no_slash: "no_slash (strftime d)"
  by (auto simp: strftime_def no_slash_def dest!: zfill_digits is_digit_no_slash)


lemma length_str_nat_pos: "0 < length (str_nat n)"
  by (subst str_nat.simps) simp





subsection \<open>The two output paths\<close>

lemma join_with_snoc: "ps \<noteq> [] \<Longrightarrow> join_with sep (ps @ [x]) = join_with sep ps @ sep @ x"
  by (induction sep ps rule: join_with.induct) simp_all

lemma str_path_snoc:
  assumes "x \<noteq> []"
  shows "str_path (p\<lparr>parts := parts p @ [x]\<rparr>) =
           (if parts p = [] then root p else root p @ join_with ''/'' (parts p) @ ''/'') @ x"
  using assms by (cases "parts p = []") (auto simp: str_path_def join_with_snoc)

lemma path_join_name:
  assumes "no_slash s" "2 \<le> length s"
  shows "path_join od s = od\<lparr>parts := parts od @ [s]\<rparr>"
proof -
  from assms(2) have ne: "s \<noteq> []" and nd: "s \<noteq> ''.''" by auto
  from assms(1) ne have "take 1 s \<noteq> ''/''" by (cases s) (auto simp: no_slash_def)
  then show ?thesis
    using Path_of_name [OF assms(1) ne nd] by (simp add: path_join_def)
qed

lemma base_no_slash: "no_slash (path_stem (Path name) @ ''_'' @ strftime d)"
  using path_stem_no_slash [of name] strftime_no_slash [of d] by (simp add: no_slash_def)

lemma json_txt_distinct:
  assumes "no_slash b"
  shows "str_path (path_join od (b @ ''.json'')) \<noteq> str_path (path_join od (b @ ''.txt''))"
proof -
  have j: "path_join od (b @ ''.json'') = od\<lparr>parts := parts od @ [b @ ''.json'']\<rparr>"
    using assms by (intro path_join_name) (simp_all add: no_slash_def)
  have t: "path_join od (b @ ''.txt'') = od\<lparr>parts := parts od @ [b @ ''.txt'']\<rparr>"
    using assms by (intro path_join_name) (simp_all add: no_slash_def)
  show ?thesis unfolding j t by (simp add: str_path_snoc)
qed

subsection \<open>Writing a file\<close>

lemma write_text_ok:
  "can_write w s \<Longrightarrow> write_text w s t = (w\<lparr>fs := (fs w)(s \<mapsto> File t)\<rparr>, Inr ())"
  unfolding write_text_def can_write_def
  by (cases "fs w s") (auto split: node.splits)

lemma write_text_fails:
  "\<not> can_write w s \<Longrightarrow> fst (write_text w s t) = w \<and> (\<exists>ex. snd (write_text w s t) = Inl ex)"
  unfolding write_text_def can_write_def
  by (cases "fs w s"; cases "os_error w s") (auto split: node.splits)

lemma write_text_Inr: "snd (write_text w s t) = Inr u \<longleftrightarrow> can_write w s"
  unfolding write_text_def can_write_def
  by (cases "fs w s"; cases "os_error w s") (auto split: node.splits)

lemma write_text_result_cong:
  "fs w' s = fs w s \<Longrightarrow> os_error w' s = os_error w s \<Longrightarrow>
     snd (write_text w' s t) = snd (write_text w s t')"
  unfolding write_text_def
  by (cases "fs w s"; cases "os_error w s") (auto split: node.splits)

lemma write_text_frame:
  "os_error (fst (write_text w s t)) = os_error w"
  "trace (fst (write_text w s t)) = trace w"
  "p \<noteq> s \<Longrightarrow> fs (fst (write_text w s t)) p = fs w p"
  "fs (fst (write_text w s t)) s = (if can_write w s then Some (File t) else fs w s)"
  unfolding write_text_def can_write_def
  by (cases "fs w s"; cases "os_error w s"; auto split: node.splits)+

subsection \<open>What \<open>save_results\<close> does\<close>

lemma can_write_cong:
  "fs w' s = fs w s \<Longrightarrow> os_error w' s = os_error w s \<Longrightarrow> can_write w' s = can_write w s"
  by (simp add: can_write_def)

lemma out_paths_distinct:
  "str_path (out_path e self name ''.json'') \<noteq> str_path (out_path e self name ''.txt'')"
  unfolding out_path_def
  using json_txt_distinct [OF base_no_slash, of "outputs_dir self" name "now_save e"]
  by simp

text \<open>\<open>save_results\<close> as two independent writes followed by three printed lines.\<close>

lemma save_results_unfold:
  "save_results e w self name res =
     (let jp = out_path e self name ''.json'';
          tp = out_path e self name ''.txt'';
          w1 = logger_info w (txt_saving @ name);
          r1 = write_text w1 (str_path jp) (json_text e name res);
          w2 = (case snd r1 of
                  Inr u \<Rightarrow> logger_info (fst r1) (txt_json_saved @ str_path jp)
                | Inl ex \<Rightarrow> logger_error (fst r1) (txt_json_error @ str_exc e ex));
          r2 = write_text w2 (str_path tp) (txt_text e name res);
          w3 = (case snd r2 of
                  Inr u \<Rightarrow> logger_info (fst r2) (txt_txt_saved @ str_path tp)
                | Inl ex \<Rightarrow> logger_error (fst r2) (txt_txt_error @ str_exc e ex))
      in (print (print (print w3 txt_p_saved) (txt_p_json @ str_path jp))
            (txt_p_txt @ str_path tp), (jp, tp)))"
  by (simp add: save_results_def Let_def out_path_def json_text_def txt_text_def
        case_prod_unfold cong: sum.case_cong)

lemma save_results_paths:
  "snd (save_results e w self name res) =
     (out_path e self name ''.json'', out_path e self name ''.txt'')"
  by (simp add: save_results_unfold Let_def)

lemma save_results_os_error: "os_error (fst (save_results e w self name res)) = os_error w"
  by (simp add: save_results_unfold Let_def write_text_frame split: sum.splits)

lemma save_results_fs:
  "fs (fst (save_results e w self name res)) p =
     (if p = str_path (out_path e self name ''.txt'') \<and> can_write w p
        then Some (File (txt_text e name res))
      else if p = str_path (out_path e self name ''.json'') \<and> can_write w p
        then Some (File (json_text e name res))
      else fs w p)"
proof -
  let ?jp = "str_path (out_path e self name ''.json'')"
  let ?tp = "str_path (out_path e self name ''.txt'')"
  let ?w1 = "logger_info w (txt_saving @ name)"
  let ?r1 = "write_text ?w1 ?jp (json_text e name res)"
  let ?w2 = "(case snd ?r1 of
                  Inr u \<Rightarrow> logger_info (fst ?r1) (txt_json_saved @ ?jp)
                | Inl ex \<Rightarrow> logger_error (fst ?r1) (txt_json_error @ str_exc e ex))"
  let ?r2 = "write_text ?w2 ?tp (txt_text e name res)"
  have d: "?jp \<noteq> ?tp" by (rule out_paths_distinct)
  have c1: "can_write ?w1 ?jp = can_write w ?jp" by (simp add: can_write_def)
  have f2: "fs ?w2 = fs (fst ?r1)" and o2: "os_error ?w2 = os_error w"
    by (simp_all add: write_text_frame split: sum.splits)
  have c2: "can_write ?w2 ?tp = can_write w ?tp"
    using d by (simp add: can_write_def f2 o2 write_text_frame)
  have "fs (fst (save_results e w self name res)) p = fs (fst ?r2) p"
    by (simp add: save_results_unfold Let_def split: sum.splits)
  also have "\<dots> = (if p = ?tp then (if can_write w ?tp then Some (File (txt_text e name res))
                                    else fs ?w2 ?tp) else fs ?w2 p)"
    using c2 by (simp add: write_text_frame)
  also have "fs ?w2 p = (if p = ?jp then (if can_write w ?jp then Some (File (json_text e name res))
                                    else fs w ?jp) else fs w p)"
    using c1 by (simp add: f2 write_text_frame)
  finally show ?thesis using d by (auto simp: f2 write_text_frame)
qed

lemma save_results_trace:
  "trace (fst (save_results e w self name res)) =
     trace w @
     [Log INFO (txt_saving @ name),
      (case snd (write_text w (str_path (out_path e self name ''.json'')) (json_text e name res)) of
         Inr u \<Rightarrow> Log INFO (txt_json_saved @ str_path (out_path e self name ''.json''))
       | Inl ex \<Rightarrow> Log ERROR (txt_json_error @ str_exc e ex)),
      (case snd (write_text w (str_path (out_path e self name ''.txt'')) (txt_text e name res)) of
         Inr u \<Rightarrow> Log INFO (txt_txt_saved @ str_path (out_path e self name ''.txt''))
       | Inl ex \<Rightarrow> Log ERROR (txt_txt_error @ str_exc e ex)),
      Print txt_p_saved,
      Print (txt_p_json @ str_path (out_path e self name ''.json'')),
      Print (txt_p_txt @ str_path (out_path e self name ''.txt''))]"
proof -
  let ?jp = "str_path (out_path e self name ''.json'')"
  let ?tp = "str_path (out_path e self name ''.txt'')"
  let ?w1 = "logger_info w (txt_saving @ name)"
  let ?r1 = "write_text ?w1 ?jp (json_text e name res)"
  let ?w2 = "(case snd ?r1 of
                  Inr u \<Rightarrow> logger_info (fst ?r1) (txt_json_saved @ ?jp)
                | Inl ex \<Rightarrow> logger_error (fst ?r1) (txt_json_error @ str_exc e ex))"
  let ?r2 = "write_text ?w2 ?tp (txt_text e name res)"
  have d: "?jp \<noteq> ?tp" by (rule out_paths_distinct)
  have r1: "snd ?r1 = snd (write_text w ?jp (json_text e name res))"
    by (rule write_text_result_cong) simp_all
  have f2: "fs ?w2 = fs (fst ?r1)" and o2: "os_error ?w2 = os_error w"
    by (simp_all add: write_text_frame split: sum.splits)
  have r2: "snd ?r2 = snd (write_text w ?tp (txt_text e name res))"
    using d by (intro write_text_result_cong) (simp_all add: f2 o2 write_text_frame)
  have t2: "trace ?w2 = trace w @ [Log INFO (txt_saving @ name),
      (case snd (write_text w ?jp (json_text e name res)) of
         Inr u \<Rightarrow> Log INFO (txt_json_saved @ ?jp)
       | Inl ex \<Rightarrow> Log ERROR (txt_json_error @ str_exc e ex))]"
    unfolding r1 [symmetric] by (simp add: write_text_frame split: sum.splits)
  show ?thesis
    unfolding r2 [symmetric]
    by (simp add: save_results_unfold Let_def write_text_frame t2 split: sum.splits)
qed

subsection \<open>Creating the directories\<close>

lemma no_new_files_refl [simp]: "no_new_files w w"
  by (simp add: no_new_files_def)

lemma no_new_files_trans: "no_new_files a b \<Longrightarrow> no_new_files b c \<Longrightarrow> no_new_files a c"
  by (simp add: no_new_files_def)

lemma no_new_files_same_fs: "fs w' = fs w \<Longrightarrow> no_new_files w w'"
  by (simp add: no_new_files_def)

lemma no_new_files_fs_cong: "fs v = fs w \<Longrightarrow> fs v' = fs w' \<Longrightarrow> no_new_files v v' = no_new_files w w'"
  by (simp add: no_new_files_def)

lemma mkdir_frame:
  "os_error (fst (mkdir w p)) = os_error w"
  "trace (fst (mkdir w p)) = trace w"
  "no_new_files w (fst (mkdir w p))"
  "fs w q \<noteq> None \<Longrightarrow> fs (fst (mkdir w p)) q = fs w q"
  "q \<noteq> str_path p \<Longrightarrow> fs (fst (mkdir w p)) q = fs w q"
  unfolding mkdir_def Let_def no_new_files_def
  by (cases "fs w (str_path p)"; cases "os_error w (str_path p)"; auto split: node.splits)+

lemma mkdir_cong:
  assumes "fs v = fs w" "os_error v = os_error w"
  shows "snd (mkdir v p) = snd (mkdir w p)" "fs (fst (mkdir v p)) = fs (fst (mkdir w p))"
  using assms unfolding mkdir_def Let_def
  by (cases "fs w (str_path p)"; cases "os_error w (str_path p)"; auto split: node.splits)+

lemma mkdir_all_frame':
  "os_error (fst (mkdir_all w ds)) = os_error w \<and> trace (fst (mkdir_all w ds)) = trace w
   \<and> no_new_files w (fst (mkdir_all w ds))"
proof (induction ds arbitrary: w)
  case Nil
  show ?case by simp
next
  case (Cons d ds)
  show ?case
    using Cons [of "fst (mkdir w d)"] mkdir_frame(1,2,3) [of w d]
    by (cases "mkdir w d") (auto split: sum.splits intro: no_new_files_trans)
qed

lemma mkdir_all_frame:
  "os_error (fst (mkdir_all w ds)) = os_error w"
  "trace (fst (mkdir_all w ds)) = trace w"
  "no_new_files w (fst (mkdir_all w ds))"
  using mkdir_all_frame' [of w ds] by simp_all

lemma mkdir_all_keeps: "fs w q \<noteq> None \<Longrightarrow> fs (fst (mkdir_all w ds)) q = fs w q"
proof (induction ds arbitrary: w)
  case Nil
  then show ?case by simp
next
  case (Cons d ds)
  have k: "fs (fst (mkdir w d)) q = fs w q" using Cons.prems by (rule mkdir_frame(4))
  show ?case
    using Cons.IH [of "fst (mkdir w d)"] k Cons.prems
    by (cases "mkdir w d") (auto split: sum.splits)
qed

lemma mkdir_all_cong:
  "fs v = fs w \<Longrightarrow> os_error v = os_error w \<Longrightarrow>
     snd (mkdir_all v ds) = snd (mkdir_all w ds)
     \<and> fs (fst (mkdir_all v ds)) = fs (fst (mkdir_all w ds))"
proof (induction ds arbitrary: v w)
  case Nil
  then show ?case by simp
next
  case (Cons d ds)
  note c = mkdir_cong [OF Cons.prems, of d]
  have o: "os_error (fst (mkdir v d)) = os_error (fst (mkdir w d))"
    using Cons.prems by (simp add: mkdir_frame)
  from Cons.IH [OF c(2) o] c show ?case
    by (cases "mkdir v d"; cases "mkdir w d") (auto split: sum.splits)
qed

lemma VideoAnnotator_fst:
  "fst (VideoAnnotator e w) =
     fst (mkdir_all w [path_join (file_dir e) ''videos'', path_join (file_dir e) ''outputs'',
                       path_join (file_dir e) ''prompts''])"
  unfolding VideoAnnotator_def Let_def
  by (simp add: case_prod_unfold split: sum.splits del: mkdir_all.simps)

lemma VideoAnnotator_snd:
  "snd (VideoAnnotator e w) =
     (case snd (mkdir_all w [path_join (file_dir e) ''videos'', path_join (file_dir e) ''outputs'',
                       path_join (file_dir e) ''prompts'']) of
        Inl ex \<Rightarrow> Inl ex
      | Inr u \<Rightarrow>
          Inr \<lparr>self_model = MODEL, self_fps = FPS, self_temperature = TEMPERATURE,
               self_max_tokens = MAX_TOKENS, base_dir = file_dir e,
               videos_dir = path_join (file_dir e) ''videos'',
               outputs_dir = path_join (file_dir e) ''outputs'',
               prompts_dir = path_join (file_dir e) ''prompts''\<rparr>)"
  unfolding VideoAnnotator_def Let_def
  by (simp add: case_prod_unfold split: sum.splits del: mkdir_all.simps)

lemma VideoAnnotator_frame:
  "os_error (fst (VideoAnnotator e w)) = os_error w"
  "trace (fst (VideoAnnotator e w)) = trace w"
  "no_new_files w (fst (VideoAnnotator e w))"
  "fs w q \<noteq> None \<Longrightarrow> fs (fst (VideoAnnotator e w)) q = fs w q"
  unfolding VideoAnnotator_fst
  by (simp_all add: mkdir_all_frame mkdir_all_keeps del: mkdir_all.simps)

lemma VideoAnnotator_cong:
  assumes "fs v = fs w" "os_error v = os_error w"
  shows "snd (VideoAnnotator e v) = snd (VideoAnnotator e w)"
    and "fs (fst (VideoAnnotator e v)) = fs (fst (VideoAnnotator e w))"
  unfolding VideoAnnotator_fst VideoAnnotator_snd
  using mkdir_all_cong [OF assms] by (simp_all del: mkdir_all.simps)

lemma VideoAnnotator_defaults:
  "snd (VideoAnnotator e w) = Inr an \<Longrightarrow>
     self_fps an = FPS \<and> self_temperature an = TEMPERATURE \<and> self_model an = MODEL
     \<and> self_max_tokens an = MAX_TOKENS \<and> outputs_dir an = path_join (file_dir e) ''outputs''
     \<and> prompts_dir an = path_join (file_dir e) ''prompts''"
  unfolding VideoAnnotator_snd
  by (auto split: sum.splits simp del: mkdir_all.simps)

subsection \<open>Reading the prompt and calling the service\<close>

lemma read_text_cong:
  "fs v s = fs w s \<Longrightarrow> os_error v s = os_error w s \<Longrightarrow> read_text v s = read_text w s"
  unfolding read_text_def by (simp split: option.splits node.splits)

lemma read_text_log [simp]:
  "read_text (logger_info w m) s = read_text w s"
  "read_text (logger_warning w m) s = read_text w s"
  "read_text (logger_error w m) s = read_text w s"
  "read_text (print w m) s = read_text w s"
  by (rule read_text_cong; simp)+

lemma path_exists_log [simp]:
  "path_exists (logger_info w m) p = path_exists w p"
  "path_exists (logger_warning w m) p = path_exists w p"
  "path_exists (logger_error w m) p = path_exists w p"
  "path_exists (print w m) p = path_exists w p"
  by (simp_all add: path_exists_def)

lemma path_exists_cong: "fs v = fs w \<Longrightarrow> path_exists v p = path_exists w p"
  by (simp add: path_exists_def)

lemma st_size_log [simp]:
  "st_size (logger_info w m) p = st_size w p"
  "st_size (logger_warning w m) p = st_size w p"
  by (simp_all add: st_size_def)

text \<open>\<open>load_prompt\<close>: what it returns and what it leaves alone.\<close>

lemma load_prompt_snd:
  "snd (load_prompt w self pp) =
     (let p = (case pp of
                 None \<Rightarrow> path_join (prompts_dir self) ''pov_annotation_prompt.txt''
               | Some s \<Rightarrow> Path s)
      in case path_exists w p of
           Inl ex \<Rightarrow> Inl ex
         | Inr False \<Rightarrow> Inr fallback_prompt
         | Inr True \<Rightarrow> read_text w (str_path p))"
  unfolding load_prompt_def Let_def
  by (simp split: sum.splits bool.splits)

lemma load_prompt_frame:
  "fs (fst (load_prompt w self pp)) = fs w"
  "os_error (fst (load_prompt w self pp)) = os_error w"
  "calls (trace (fst (load_prompt w self pp))) = calls (trace w)"
  unfolding load_prompt_def Let_def
  by (simp_all split: sum.splits bool.splits)

lemma load_prompt_cong:
  "fs v = fs w \<Longrightarrow> os_error v = os_error w \<Longrightarrow>
     snd (load_prompt v self pp) = snd (load_prompt w self pp)"
  unfolding load_prompt_snd Let_def
  using read_text_cong [of v _ w] path_exists_cong [of v w]
  by (simp split: sum.splits bool.splits)

lemma prompt_or_default_frame:
  "fs (fst (prompt_or_default w self pt)) = fs w"
  "os_error (fst (prompt_or_default w self pt)) = os_error w"
  "calls (trace (fst (prompt_or_default w self pt))) = calls (trace w)"
  unfolding prompt_or_default_def
  by (simp_all add: load_prompt_frame split: option.splits)

lemma prompt_or_default_cong:
  "fs v = fs w \<Longrightarrow> os_error v = os_error w \<Longrightarrow>
     snd (prompt_or_default v self pt) = snd (prompt_or_default w self pt)"
  unfolding prompt_or_default_def
  using load_prompt_cong [of v w self None] by (simp split: option.splits)

text \<open>\<open>call_api\<close>: one request, and a result that depends on the answer alone.\<close>

lemma call_api_frame:
  "fs (fst (call_api e w self ms)) = fs w"
  "os_error (fst (call_api e w self ms)) = os_error w"
  "calls (trace (fst (call_api e w self ms))) = calls (trace w) @ [build_request self ms]"
  unfolding call_api_def Let_def
  by (simp_all split: sum.splits list.splits)

lemma call_api_snd:
  "snd (call_api e w self ms) =
     (case remote e (build_request self ms) of
        Inl ex \<Rightarrow> Inl ex
      | Inr response \<Rightarrow>
          if status_code response \<noteq> 200
          then Inl (Exception (txt_api_error @ resp_message response))
          else (case resp_choices response of
                  [] \<Rightarrow> Inl (IndexError ''list index out of range'')
                | content # rest \<Rightarrow>
                    Inr \<lparr>res_content = content, res_processing_time = elapsed e,
                         res_model = self_model self, res_fps = self_fps self\<rparr>))"
  unfolding call_api_def Let_def
  by (simp split: sum.splits list.splits)

lemma call_api_prefix: "set (trace w) \<subseteq> set (trace (fst (call_api e w self ms)))"
  unfolding call_api_def Let_def
  by (auto split: sum.splits list.splits)

lemma call_api_error_logged:
  assumes "remote e (build_request self ms) = Inr response" "status_code response \<noteq> 200"
  shows "Log ERROR (txt_api_error_code @ str_int (status_code response) @ txt_api_error_msg
            @ resp_message response) \<in> set (trace (fst (call_api e w self ms)))"
  using assms unfolding call_api_def Let_def by simp

subsection \<open>What \<open>annotate_video\<close> does\<close>

text \<open>\<open>annotate_video\<close>, branch by branch.\<close>

lemma annotate_video_missing:
  assumes "path_exists w (Path v) = Inr False"
  shows "annotate_video e w self v pt =
           (logger_error (logger_info w (txt_video_start @ str_path (Path v)))
              (txt_video_not_found @ str_path (Path v)),
            Inl (FileNotFoundError (txt_video_not_found @ str_path (Path v))))"
  using assms unfolding annotate_video_def Let_def by simp

lemma annotate_video_raises:
  assumes "path_exists w (Path v) = Inl ex"
  shows "annotate_video e w self v pt =
           (logger_info w (txt_video_start @ str_path (Path v)), Inl ex)"
  using assms unfolding annotate_video_def Let_def by simp

text \<open>When the video is not found nothing is sent and nothing is written.\<close>

lemma annotate_video_absent:
  assumes "path_exists w (Path v) \<noteq> Inr True"
  shows "fs (fst (annotate_video e w self v pt)) = fs w"
    and "os_error (fst (annotate_video e w self v pt)) = os_error w"
    and "calls (trace (fst (annotate_video e w self v pt))) = calls (trace w)"
    and "snd (annotate_video e w self v pt) =
           (case path_exists w (Path v) of
              Inl ex \<Rightarrow> Inl ex
            | Inr b \<Rightarrow> Inl (FileNotFoundError (txt_video_not_found @ str_path (Path v))))"
proof -
  consider (a) ex where "path_exists w (Path v) = Inl ex" | (b) "path_exists w (Path v) = Inr False"
    using assms by (cases "path_exists w (Path v)") auto
  then have "fs (fst (annotate_video e w self v pt)) = fs w
    \<and> os_error (fst (annotate_video e w self v pt)) = os_error w
    \<and> calls (trace (fst (annotate_video e w self v pt))) = calls (trace w)
    \<and> snd (annotate_video e w self v pt) =
           (case path_exists w (Path v) of
              Inl ex \<Rightarrow> Inl ex
            | Inr b \<Rightarrow> Inl (FileNotFoundError (txt_video_not_found @ str_path (Path v))))"
  proof cases
    case a
    then show ?thesis by (simp add: annotate_video_raises)
  next
    case b
    then show ?thesis by (simp add: annotate_video_missing)
  qed
  then show "fs (fst (annotate_video e w self v pt)) = fs w"
    and "os_error (fst (annotate_video e w self v pt)) = os_error w"
    and "calls (trace (fst (annotate_video e w self v pt))) = calls (trace w)"
    and "snd (annotate_video e w self v pt) =
           (case path_exists w (Path v) of
              Inl ex \<Rightarrow> Inl ex
            | Inr b \<Rightarrow> Inl (FileNotFoundError (txt_video_not_found @ str_path (Path v))))"
    by simp_all
qed

text \<open>The world in which the prompt is looked up: the one given, with three lines logged.\<close>

lemma annotate_video_unfold:
  assumes "path_exists w (Path v) = Inr True"
  shows "\<exists>w0. fs w0 = fs w \<and> os_error w0 = os_error w \<and> calls (trace w0) = calls (trace w)
           \<and> set (trace w) \<subseteq> set (trace w0)
           \<and> annotate_video e w self v pt =
              (case prompt_or_default w0 self pt of
                 (w1, Inl ex) \<Rightarrow> (w1, Inl ex)
               | (w1, Inr p) \<Rightarrow>
                   (let w2 = logger_info
                        (print (print (print (print (print (print w1
                           (txt_p_video @ path_name (Path v)))
                           (txt_p_model @ self_model self))
                           (txt_p_fps @ float_repr e (self_fps self)))
                           (txt_p_temperature @ float_repr e (self_temperature self)))
                           (txt_p_prompt_len @ str_nat (py_len p) @ txt_symbols))
                           (txt_p_video_size @ float_fixed e 2
                              (rat_of_nat (st_size w (Path v)) / (1024 * 1024)) @ '' MB''))
                        (txt_video_url @ ''file://'' @ str_path (path_absolute (getcwd e) (Path v)));
                        w3 = logger_info (print w2 txt_p_sending) txt_sending;
                        ms = build_messages
                               (''file://'' @ str_path (path_absolute (getcwd e) (Path v)))
                               (self_fps self) p
                    in case call_api e w3 self ms of
                         (w4, Inr res) \<Rightarrow> (w4, Inr res)
                       | (w4, Inl ex) \<Rightarrow>
                           (print (logger_error w4 (txt_processing_error @ str_exc e ex))
                              (txt_p_processing_error @ str_exc e ex), Inl ex)))"
proof -
  let ?size = "rat_of_nat (st_size w (Path v)) / (1024 * 1024)"
  let ?wa = "logger_info (logger_info w (txt_video_start @ str_path (Path v)))
               (txt_video_size @ float_fixed e 2 ?size @ '' MB'')"
  let ?w0 = "if ?size > 1000
             then logger_warning ?wa (txt_video_too_big @ float_fixed e 2 ?size @ txt_max_1gb)
             else ?wa"
  have "fs ?w0 = fs w" "os_error ?w0 = os_error w" "calls (trace ?w0) = calls (trace w)"
    "set (trace w) \<subseteq> set (trace ?w0)"
    by auto
  moreover have "annotate_video e w self v pt =
              (case prompt_or_default ?w0 self pt of
                 (w1, Inl ex) \<Rightarrow> (w1, Inl ex)
               | (w1, Inr p) \<Rightarrow>
                   (let w2 = logger_info
                        (print (print (print (print (print (print w1
                           (txt_p_video @ path_name (Path v)))
                           (txt_p_model @ self_model self))
                           (txt_p_fps @ float_repr e (self_fps self)))
                           (txt_p_temperature @ float_repr e (self_temperature self)))
                           (txt_p_prompt_len @ str_nat (py_len p) @ txt_symbols))
                           (txt_p_video_size @ float_fixed e 2 ?size @ '' MB''))
                        (txt_video_url @ ''file://'' @ str_path (path_absolute (getcwd e) (Path v)));
                        w3 = logger_info (print w2 txt_p_sending) txt_sending;
                        ms = build_messages
                               (''file://'' @ str_path (path_absolute (getcwd e) (Path v)))
                               (self_fps self) p
                    in case call_api e w3 self ms of
                         (w4, Inr res) \<Rightarrow> (w4, Inr res)
                       | (w4, Inl ex) \<Rightarrow>
                           (print (logger_error w4 (txt_processing_error @ str_exc e ex))
                              (txt_p_processing_error @ str_exc e ex), Inl ex)))"
    using assms unfolding annotate_video_def Let_def
    by (simp cong: prod.case_cong sum.case_cong)
  ultimately show ?thesis by blast
qed


lemma annotate_video_outcomes:
  assumes ex: "path_exists w (Path v) = Inr True"
  shows "fs (fst (annotate_video e w self v pt)) = fs w
     \<and> os_error (fst (annotate_video e w self v pt)) = os_error w
     \<and> set (trace w) \<subseteq> set (trace (fst (annotate_video e w self v pt)))
     \<and> (case snd (prompt_or_default w self pt) of
          Inl ex \<Rightarrow>
            snd (annotate_video e w self v pt) = Inl ex
            \<and> calls (trace (fst (annotate_video e w self v pt))) = calls (trace w)
        | Inr p \<Rightarrow>
            snd (annotate_video e w self v pt) =
              snd (call_api e w self (build_messages (video_url e v) (self_fps self) p))
            \<and> calls (trace (fst (annotate_video e w self v pt))) =
                calls (trace w)
                  @ [build_request self (build_messages (video_url e v) (self_fps self) p)]
            \<and> (\<exists>w3. set (trace (fst (call_api e w3 self
                                 (build_messages (video_url e v) (self_fps self) p))))
                      \<subseteq> set (trace (fst (annotate_video e w self v pt)))))"
proof -
  from annotate_video_unfold [OF ex, of e self pt] obtain w0 where
    w0: "fs w0 = fs w" "os_error w0 = os_error w" "calls (trace w0) = calls (trace w)"
      "set (trace w) \<subseteq> set (trace w0)"
    and av: "annotate_video e w self v pt =
              (case prompt_or_default w0 self pt of
                 (w1, Inl ex) \<Rightarrow> (w1, Inl ex)
               | (w1, Inr p) \<Rightarrow>
                   (let w2 = logger_info
                        (print (print (print (print (print (print w1
                           (txt_p_video @ path_name (Path v)))
                           (txt_p_model @ self_model self))
                           (txt_p_fps @ float_repr e (self_fps self)))
                           (txt_p_temperature @ float_repr e (self_temperature self)))
                           (txt_p_prompt_len @ str_nat (py_len p) @ txt_symbols))
                           (txt_p_video_size @ float_fixed e 2
                              (rat_of_nat (st_size w (Path v)) / (1024 * 1024)) @ '' MB''))
                        (txt_video_url @ ''file://'' @ str_path (path_absolute (getcwd e) (Path v)));
                        w3 = logger_info (print w2 txt_p_sending) txt_sending;
                        ms = build_messages
                               (''file://'' @ str_path (path_absolute (getcwd e) (Path v)))
                               (self_fps self) p
                    in case call_api e w3 self ms of
                         (w4, Inr res) \<Rightarrow> (w4, Inr res)
                       | (w4, Inl ex) \<Rightarrow>
                           (print (logger_error w4 (txt_processing_error @ str_exc e ex))
                              (txt_p_processing_error @ str_exc e ex), Inl ex)))"
    by blast
  obtain w1 r where pd: "prompt_or_default w0 self pt = (w1, r)" by (cases "prompt_or_default w0 self pt")
  have r: "r = snd (prompt_or_default w self pt)"
    using prompt_or_default_cong [OF w0(1,2), of self pt] pd by simp
  have w1: "fs w1 = fs w" "os_error w1 = os_error w" "calls (trace w1) = calls (trace w)"
    using prompt_or_default_frame [of w0 self pt] pd w0 by simp_all
  have t1: "set (trace w) \<subseteq> set (trace w1)"
  proof -
    have "set (trace w0) \<subseteq> set (trace (fst (prompt_or_default w0 self pt)))"
      unfolding prompt_or_default_def load_prompt_def Let_def
      by (auto split: option.splits sum.splits bool.splits)
    with w0(4) pd show ?thesis by auto
  qed
  show ?thesis
  proof (cases r)
    case (Inl x)
    have "annotate_video e w self v pt = (w1, Inl x)"
      unfolding av pd Inl by simp
    moreover have "snd (prompt_or_default w self pt) = Inl x"
      using r Inl by simp
    ultimately show ?thesis using w1 t1 by simp
  next
    case (Inr p)
    let ?ms = "build_messages (video_url e v) (self_fps self) p"
    let ?w3 = "logger_info (print (logger_info
                        (print (print (print (print (print (print w1
                           (txt_p_video @ path_name (Path v)))
                           (txt_p_model @ self_model self))
                           (txt_p_fps @ float_repr e (self_fps self)))
                           (txt_p_temperature @ float_repr e (self_temperature self)))
                           (txt_p_prompt_len @ str_nat (py_len p) @ txt_symbols))
                           (txt_p_video_size @ float_fixed e 2
                              (rat_of_nat (st_size w (Path v)) / (1024 * 1024)) @ '' MB''))
                        (txt_video_url @ ''file://'' @ str_path (path_absolute (getcwd e) (Path v))))
                   txt_p_sending) txt_sending"
    obtain w4 r4 where ca: "call_api e ?w3 self ?ms = (w4, r4)" by (cases "call_api e ?w3 self ?ms")
    have w4: "fs w4 = fs w" "os_error w4 = os_error w"
      "calls (trace w4) = calls (trace w) @ [build_request self ?ms]"
      using call_api_frame [of e ?w3 self ?ms] ca w1 by simp_all
    have r4: "r4 = snd (call_api e w self ?ms)"
      using ca call_api_snd [of e ?w3 self ?ms] call_api_snd [of e w self ?ms] by simp
    have p4: "set (trace w) \<subseteq> set (trace w4)"
      using call_api_prefix [of ?w3 e self ?ms] ca t1 by auto
    have av': "annotate_video e w self v pt =
        (case r4 of Inr res \<Rightarrow> (w4, Inr res)
         | Inl ex \<Rightarrow> (print (logger_error w4 (txt_processing_error @ str_exc e ex))
                              (txt_p_processing_error @ str_exc e ex), Inl ex))"
      unfolding av pd Inr using ca by (simp add: Let_def video_url_def)
    have sub: "set (trace (fst (call_api e ?w3 self ?ms)))
                 \<subseteq> set (trace (fst (annotate_video e w self v pt)))"
      unfolding av' using ca by (cases r4) auto
    have fstav: "fst (annotate_video e w self v pt) = w4
        \<or> (\<exists>m1 m2. fst (annotate_video e w self v pt) = print (logger_error w4 m1) m2)"
      unfolding av' by (cases r4) auto
    have c1: "snd (annotate_video e w self v pt) = snd (call_api e w self ?ms)"
      unfolding av' r4 [symmetric] by (cases r4) simp_all
    have c2: "calls (trace (fst (annotate_video e w self v pt))) =
             calls (trace w) @ [build_request self ?ms]"
      using fstav w4(3) by auto
    have c3: "fs (fst (annotate_video e w self v pt)) = fs w"
      using fstav w4(1) by auto
    have c4: "os_error (fst (annotate_video e w self v pt)) = os_error w"
      using fstav w4(2) by auto
    have c5: "set (trace w) \<subseteq> set (trace (fst (annotate_video e w self v pt)))"
      using fstav p4 by auto
    have c6: "\<exists>w3. set (trace (fst (call_api e w3 self ?ms)))
                 \<subseteq> set (trace (fst (annotate_video e w self v pt)))"
      using sub by (rule exI)
    have pr: "snd (prompt_or_default w self pt) = Inr p"
      using r Inr by simp
    show ?thesis
      unfolding pr using c1 c2 c3 c4 c5 c6 by simp
  qed
qed


subsection \<open>The driver\<close>

lemma apply_overrides_frame:
  "fs (fst (apply_overrides e w an a)) = fs w"
  "os_error (fst (apply_overrides e w an a)) = os_error w"
  "calls (trace (fst (apply_overrides e w an a))) = calls (trace w)"
  unfolding apply_overrides_def Let_def
  by (simp_all add: case_prod_unfold split: option.splits)

lemma apply_overrides_snd:
  "snd (apply_overrides e w an a) =
     an\<lparr>self_fps := (case args_fps a of
                        Some x \<Rightarrow> if truthy_float x then x else self_fps an
                      | None \<Rightarrow> self_fps an),
        self_model := (case args_model a of
                         Some m \<Rightarrow> if truthy_str m then m else self_model an
                       | None \<Rightarrow> self_model an),
        self_temperature := (case args_temperature a of
                               Some x \<Rightarrow> if truthy_float x then x else self_temperature an
                             | None \<Rightarrow> self_temperature an)\<rparr>"
  unfolding apply_overrides_def Let_def
  by (simp add: case_prod_unfold split: option.splits)

lemma read_custom_prompt_frame:
  "fs (fst (read_custom_prompt w a)) = fs w"
  "os_error (fst (read_custom_prompt w a)) = os_error w"
  "calls (trace (fst (read_custom_prompt w a))) = calls (trace w)"
  unfolding read_custom_prompt_def Let_def
  by (simp_all split: option.splits sum.splits)

lemma read_custom_prompt_snd:
  "snd (read_custom_prompt w a) =
     (case args_prompt a of
        None \<Rightarrow> Inr None
      | Some p \<Rightarrow>
          if truthy_str p
          then (case read_text w p of Inl ex \<Rightarrow> Inl ex | Inr text \<Rightarrow> Inr (Some text))
          else Inr None)"
  unfolding read_custom_prompt_def Let_def
  by (simp split: option.splits sum.splits)

lemma read_custom_prompt_cong:
  assumes "fs v = fs w" "os_error v = os_error w"
  shows "snd (read_custom_prompt v a) = snd (read_custom_prompt w a)"
proof -
  have "read_text v p = read_text w p" for p
    using assms by (intro read_text_cong) simp_all
  then show ?thesis unfolding read_custom_prompt_snd by (simp split: option.splits)
qed

lemma main_try_snd:
  "snd (main_try e w an a prompt) =
     (case snd (annotate_video e w an (args_video a) prompt) of
        Inl ex \<Rightarrow> SystemExit 1
      | Inr res \<Rightarrow> Returned)"
  unfolding main_try_def Let_def
  by (simp add: case_prod_unfold split: sum.splits)

lemma main_try_failed:
  assumes "snd (annotate_video e w an (args_video a) prompt) = Inl ex"
  shows "fs (fst (main_try e w an a prompt)) = fs (fst (annotate_video e w an (args_video a) prompt))"
    and "calls (trace (fst (main_try e w an a prompt))) =
           calls (trace (fst (annotate_video e w an (args_video a) prompt)))"
    and "last (trace (fst (main_try e w an a prompt))) = Print (txt_p_error @ str_exc e ex)"
    and "Log ERROR (txt_critical @ str_exc e ex) \<in> set (trace (fst (main_try e w an a prompt)))"
    and "set (trace (fst (annotate_video e w an (args_video a) prompt)))
           \<subseteq> set (trace (fst (main_try e w an a prompt)))"
  using assms unfolding main_try_def Let_def
  by (auto simp add: case_prod_unfold split: sum.splits)

text \<open>The three ways through \<open>main\<close>.\<close>

lemma main_unfold:
  "\<exists>w0. fs w0 = fs w \<and> os_error w0 = os_error w \<and> trace w0 = trace w @ [Log INFO (replicate 60 (CHR ''='')),
             Log INFO txt_script_start, Log INFO (txt_video @ args_video a),
             Log INFO (txt_cli_params @ fmt_opt_float e (args_fps a)
                   @ '', model='' @ fmt_opt_str (args_model a)
                   @ '', temp='' @ fmt_opt_float e (args_temperature a))]
     \<and> main e w a =
       (case VideoAnnotator e w0 of
           (w1, Inl ex) \<Rightarrow> (w1, Uncaught ex)
         | (w1, Inr an) \<Rightarrow>
             (case read_custom_prompt (fst (apply_overrides e w1 an a)) a of
                (w2, Inl ex) \<Rightarrow> (w2, Uncaught ex)
              | (w2, Inr prompt) \<Rightarrow> main_try e w2 (snd (apply_overrides e w1 an a)) a prompt))"
  unfolding main_def Let_def
  by (rule exI [of _ "logger_info (logger_info (logger_info (logger_info w (replicate 60 (CHR ''='')))
         txt_script_start) (txt_video @ args_video a)) (txt_cli_params @ fmt_opt_float e (args_fps a)
                   @ '', model='' @ fmt_opt_str (args_model a)
                   @ '', temp='' @ fmt_opt_float e (args_temperature a))"])
     (simp add: case_prod_unfold cong: sum.case_cong)

lemma main_cases:
  obtains
    (init_failed) ex w1 where
      "snd (VideoAnnotator e w) = Inl ex" "main e w a = (w1, Uncaught ex)"
      "fs w1 = fs (fst (VideoAnnotator e w))" "os_error w1 = os_error w"
      "calls (trace w1) = calls (trace w)"
  | (prompt_failed) an ex w2 where
      "snd (VideoAnnotator e w) = Inr an"
      "snd (read_custom_prompt (fst (VideoAnnotator e w)) a) = Inl ex"
      "main e w a = (w2, Uncaught ex)"
      "fs w2 = fs (fst (VideoAnnotator e w))" "os_error w2 = os_error w"
      "calls (trace w2) = calls (trace w)"
  | (tried) an prompt w2 where
      "snd (VideoAnnotator e w) = Inr an"
      "snd (read_custom_prompt (fst (VideoAnnotator e w)) a) = Inr prompt"
      "main e w a = main_try e w2 (snd (apply_overrides e w an a)) a prompt"
      "fs w2 = fs (fst (VideoAnnotator e w))" "os_error w2 = os_error w"
      "calls (trace w2) = calls (trace w)"
proof -
  from main_unfold [of w a e] obtain w0 where
    w0: "fs w0 = fs w" "os_error w0 = os_error w" "calls (trace w0) = calls (trace w)"
    and m: "main e w a =
       (case VideoAnnotator e w0 of
           (w1, Inl ex) \<Rightarrow> (w1, Uncaught ex)
         | (w1, Inr an) \<Rightarrow>
             (case read_custom_prompt (fst (apply_overrides e w1 an a)) a of
                (w2, Inl ex) \<Rightarrow> (w2, Uncaught ex)
              | (w2, Inr prompt) \<Rightarrow> main_try e w2 (snd (apply_overrides e w1 an a)) a prompt))"
    by auto
  obtain w1 r1 where v: "VideoAnnotator e w0 = (w1, r1)" by (cases "VideoAnnotator e w0")
  have r1: "r1 = snd (VideoAnnotator e w)"
    using VideoAnnotator_cong(1) [OF w0(1,2), of e] v by simp
  have w1: "fs w1 = fs (fst (VideoAnnotator e w))" "os_error w1 = os_error w"
    "calls (trace w1) = calls (trace w)"
    using VideoAnnotator_cong(2) [OF w0(1,2), of e] VideoAnnotator_frame(1,2) [of e w0] v w0
    by simp_all
  show thesis
  proof (cases r1)
    case (Inl ex)
    have "main e w a = (w1, Uncaught ex)" by (simp add: m v Inl)
    with Inl r1 w1 show thesis by (intro init_failed [of ex w1]) simp_all
  next
    case (Inr an)
    let ?wa = "fst (apply_overrides e w1 an a)"
    have wa: "fs ?wa = fs (fst (VideoAnnotator e w))" "os_error ?wa = os_error w"
      "calls (trace ?wa) = calls (trace w)"
      using apply_overrides_frame [of e w1 an a] w1 by simp_all
    have an: "snd (apply_overrides e w1 an a) = snd (apply_overrides e w an a)"
      unfolding apply_overrides_snd ..
    obtain w2 r2 where rc: "read_custom_prompt ?wa a = (w2, r2)"
      by (cases "read_custom_prompt ?wa a")
    have r2: "r2 = snd (read_custom_prompt (fst (VideoAnnotator e w)) a)"
      using read_custom_prompt_cong [of ?wa "fst (VideoAnnotator e w)" a] wa rc
      by (simp add: VideoAnnotator_frame)
    have w2: "fs w2 = fs (fst (VideoAnnotator e w))" "os_error w2 = os_error w"
      "calls (trace w2) = calls (trace w)"
      using read_custom_prompt_frame [of ?wa a] rc wa by simp_all
    show thesis
    proof (cases r2)
      case (Inl ex)
      have "main e w a = (w2, Uncaught ex)" by (simp add: m v \<open>r1 = Inr an\<close> rc Inl)
      with Inl r1 r2 w2 \<open>r1 = Inr an\<close> show thesis
        by (intro prompt_failed [of an ex w2]) simp_all
    next
      case (Inr prompt)
      have "main e w a = main_try e w2 (snd (apply_overrides e w an a)) a prompt"
        by (simp add: m v \<open>r1 = Inr an\<close> rc Inr an)
      with Inr r1 r2 w2 \<open>r1 = Inr an\<close> show thesis
        by (intro tried [of an prompt w2]) simp_all
    qed
  qed
qed

lemma run_script_unfold:
  "\<exists>w0. fs w0 = fs w \<and> os_error w0 = os_error w \<and> calls (trace w0) = calls (trace w)
      \<and> snd (run_script e w a) = exit_status (snd (main e w0 a))
      \<and> fs (fst (run_script e w a)) = fs (fst (main e w0 a))
      \<and> calls (trace (fst (run_script e w a))) = calls (trace (fst (main e w0 a)))
      \<and> (\<forall>ex. snd (main e w0 a) = Uncaught ex \<longrightarrow>
            trace (fst (run_script e w a)) =
              trace (fst (main e w0 a)) @ [Stderr (class_name ex @ '': '' @ str_exc e ex)])
      \<and> ((\<forall>ex. snd (main e w0 a) \<noteq> Uncaught ex) \<longrightarrow>
            trace (fst (run_script e w a)) = trace (fst (main e w0 a)))"
  unfolding run_script_def Let_def
  by (rule exI [of _ "logger_info w (txt_api_key
          @ py_take 10 (case getenv_key e of None \<Rightarrow> API_KEY | Some k \<Rightarrow> k) @ ''...'')"])
     (auto simp add: case_prod_unfold split: outcome.splits)


lemma annotate_video_fs: "fs (fst (annotate_video e w self v pt)) = fs w"
proof (cases "path_exists w (Path v) = Inr True")
  case True
  from annotate_video_outcomes [OF this] show ?thesis by blast
next
  case False
  then show ?thesis by (rule annotate_video_absent(1))
qed

lemma annotate_video_os_error: "os_error (fst (annotate_video e w self v pt)) = os_error w"
proof (cases "path_exists w (Path v) = Inr True")
  case True
  from annotate_video_outcomes [OF this] show ?thesis by blast
next
  case False
  then show ?thesis by (rule annotate_video_absent(2))
qed

lemma annotate_video_calls:
  "calls (trace (fst (annotate_video e w self v pt))) = calls (trace w)
   \<or> (\<exists>p. path_exists w (Path v) = Inr True \<and> snd (prompt_or_default w self pt) = Inr p
          \<and> calls (trace (fst (annotate_video e w self v pt))) =
              calls (trace w) @ [build_request self (build_messages (video_url e v) (self_fps self) p)])"
proof (cases "path_exists w (Path v) = Inr True")
  case True
  from annotate_video_outcomes [OF this, of e self pt] show ?thesis
    by (cases "snd (prompt_or_default w self pt)") (simp_all add: True)
next
  case False
  then show ?thesis by (simp add: annotate_video_absent(3))
qed

lemma save_results_calls:
  "calls (trace (fst (save_results e w self name res))) = calls (trace w)"
  unfolding save_results_trace by (simp split: sum.splits)

lemma main_try_calls:
  "calls (trace (fst (main_try e w an a prompt))) =
     calls (trace (fst (annotate_video e w an (args_video a) prompt)))"
proof (cases "snd (annotate_video e w an (args_video a) prompt)")
  case (Inl ex)
  then show ?thesis by (rule main_try_failed(2))
next
  case (Inr res)
  obtain w1 where av: "annotate_video e w an (args_video a) prompt = (w1, Inr res)"
    using Inr by (cases "annotate_video e w an (args_video a) prompt") simp
  show ?thesis
    unfolding main_try_def Let_def av
    by (simp add: case_prod_unfold save_results_calls)
qed

text \<open>A run in which \<open>annotate_video\<close> cannot succeed ends with status 1 and writes no file.\<close>

lemma run_script_when_annotation_fails:
  assumes "\<And>w2 an prompt. fs w2 = fs (fst (VideoAnnotator e w)) \<Longrightarrow>
             \<exists>ex. snd (annotate_video e w2 an (args_video a) prompt) = Inl ex"
  shows "snd (run_script e w a) = 1 \<and> no_new_files w (fst (run_script e w a))"
proof -
  from run_script_unfold [of w e a] obtain w0 where
    w0: "fs w0 = fs w" "os_error w0 = os_error w"
    and st: "snd (run_script e w a) = exit_status (snd (main e w0 a))"
    and f: "fs (fst (run_script e w a)) = fs (fst (main e w0 a))"
    by blast
  have va: "fs (fst (VideoAnnotator e w0)) = fs (fst (VideoAnnotator e w))"
    by (rule VideoAnnotator_cong(2) [OF w0])
  have nn: "no_new_files w (fst (VideoAnnotator e w))" by (rule VideoAnnotator_frame(3))
  have "exit_status (snd (main e w0 a)) = 1 \<and> fs (fst (main e w0 a)) = fs (fst (VideoAnnotator e w))"
  proof (cases rule: main_cases [of e w0 a])
    case (init_failed ex w1)
    then show ?thesis by (simp add: exit_status_def va)
  next
    case (prompt_failed an ex w2)
    then show ?thesis by (simp add: exit_status_def va)
  next
    case (tried an prompt w2)
    let ?an = "snd (apply_overrides e w0 an a)"
    from tried(4) va have "fs w2 = fs (fst (VideoAnnotator e w))" by simp
    from assms [OF this, of ?an prompt] obtain ex where
      ex: "snd (annotate_video e w2 ?an (args_video a) prompt) = Inl ex" by blast
    have "snd (main e w0 a) = SystemExit 1"
      unfolding tried(3) main_try_snd ex by simp
    moreover have "fs (fst (main e w0 a)) = fs w2"
      unfolding tried(3) main_try_failed(1) [OF ex] by (rule annotate_video_fs)
    ultimately show ?thesis using tried(4) va by (simp add: exit_status_def)
  qed
  with st f nn show ?thesis
    using no_new_files_fs_cong [of "fst (run_script e w a)" "fst (VideoAnnotator e w)" w w]
    by (simp add: no_new_files_def)
qed

lemma run_script_calls:
  "calls (trace (fst (run_script e w a))) = calls (trace w)
   \<or> (\<exists>an w2 prompt. snd (VideoAnnotator e w) = Inr an \<and> fs w2 = fs (fst (VideoAnnotator e w))
         \<and> os_error w2 = os_error w
         \<and> snd (read_custom_prompt (fst (VideoAnnotator e w)) a) = Inr prompt
         \<and> calls (trace w2) = calls (trace w)
         \<and> calls (trace (fst (run_script e w a))) =
             calls (trace (fst (annotate_video e w2 (snd (apply_overrides e w an a))
                                  (args_video a) prompt))))"
proof -
  from run_script_unfold [of w e a] obtain w0 where
    w0: "fs w0 = fs w" "os_error w0 = os_error w" "calls (trace w0) = calls (trace w)"
    and c: "calls (trace (fst (run_script e w a))) = calls (trace (fst (main e w0 a)))"
    by blast
  have va: "fs (fst (VideoAnnotator e w0)) = fs (fst (VideoAnnotator e w))"
    "snd (VideoAnnotator e w0) = snd (VideoAnnotator e w)"
    using VideoAnnotator_cong [OF w0(1,2), of e] by simp_all
  have ao: "snd (apply_overrides e w0 an a) = snd (apply_overrides e w an a)" for an
    unfolding apply_overrides_snd ..
  have rc: "snd (read_custom_prompt (fst (VideoAnnotator e w0)) a) =
            snd (read_custom_prompt (fst (VideoAnnotator e w)) a)"
    by (rule read_custom_prompt_cong) (simp_all add: va VideoAnnotator_frame w0)
  show ?thesis
  proof (cases rule: main_cases [of e w0 a])
    case (init_failed ex w1)
    then show ?thesis using c w0 by simp
  next
    case (prompt_failed an ex w2)
    then show ?thesis using c w0 by simp
  next
    case (tried an prompt w2)
    have "calls (trace (fst (run_script e w a))) =
          calls (trace (fst (annotate_video e w2 (snd (apply_overrides e w an a))
                                  (args_video a) prompt)))"
      unfolding c tried(3) main_try_calls ao ..
    with tried va rc w0 show ?thesis by auto
  qed
qed


subsection \<open>The shape of an absolute path\<close>




subsection \<open>Resolving the reference to the video\<close>






lemma annotate_video_cong:
  assumes "fs v = fs w" "os_error v = os_error w"
  shows "snd (annotate_video e v self x pt) = snd (annotate_video e w self x pt)"
proof (cases "path_exists w (Path x) = Inr True")
  case False
  moreover have pe: "path_exists v (Path x) = path_exists w (Path x)"
    by (rule path_exists_cong [OF assms(1)])
  ultimately show ?thesis by (simp add: annotate_video_absent(4))
next
  case True
  with assms have tv: "path_exists v (Path x) = Inr True" by (simp add: path_exists_def)
  have pc: "snd (prompt_or_default v self pt) = snd (prompt_or_default w self pt)"
    by (rule prompt_or_default_cong [OF assms])
  have ca: "snd (call_api e v self ms) = snd (call_api e w self ms)" for ms
    unfolding call_api_snd ..
  show ?thesis
  proof (cases "snd (prompt_or_default w self pt)")
    case (Inl ex)
    with annotate_video_outcomes [OF True, of e self pt] annotate_video_outcomes [OF tv, of e self pt] pc
    show ?thesis by simp
  next
    case (Inr p)
    with annotate_video_outcomes [OF True, of e self pt] annotate_video_outcomes [OF tv, of e self pt] pc ca
    show ?thesis by simp
  qed
qed

text \<open>The exit status of a run, from its three stages.\<close>

lemma run_script_status:
  "snd (run_script e w a) =
     (case snd (VideoAnnotator e w) of
        Inl ex \<Rightarrow> 1
      | Inr an \<Rightarrow>
          (case snd (read_custom_prompt (fst (VideoAnnotator e w)) a) of
             Inl ex \<Rightarrow> 1
           | Inr prompt \<Rightarrow>
               (case snd (annotate_video e (fst (VideoAnnotator e w))
                            (snd (apply_overrides e w an a)) (args_video a) prompt) of
                  Inl ex \<Rightarrow> 1
                | Inr r \<Rightarrow> 0)))"
proof -
  from run_script_unfold [of w e a] obtain w0 where
    w0: "fs w0 = fs w" "os_error w0 = os_error w"
    and st: "snd (run_script e w a) = exit_status (snd (main e w0 a))"
    by blast
  have va: "fs (fst (VideoAnnotator e w0)) = fs (fst (VideoAnnotator e w))"
    "snd (VideoAnnotator e w0) = snd (VideoAnnotator e w)"
    using VideoAnnotator_cong [OF w0, of e] by simp_all
  have rc: "snd (read_custom_prompt (fst (VideoAnnotator e w0)) a) =
            snd (read_custom_prompt (fst (VideoAnnotator e w)) a)"
    by (rule read_custom_prompt_cong) (simp_all add: va VideoAnnotator_frame w0)
  have ao: "snd (apply_overrides e w0 an a) = snd (apply_overrides e w an a)" for an
    unfolding apply_overrides_snd ..
  show ?thesis
  proof (cases rule: main_cases [of e w0 a])
    case (init_failed ex w1)
    then show ?thesis using st va by (simp add: exit_status_def)
  next
    case (prompt_failed an ex w2)
    then show ?thesis using st va rc by (simp add: exit_status_def)
  next
    case (tried an prompt w2)
    have a1: "snd (VideoAnnotator e w) = Inr an" using tried(1) va(2) by simp
    have a2: "snd (read_custom_prompt (fst (VideoAnnotator e w)) a) = Inr prompt"
      using tried(2) rc by simp
    have a3: "snd (annotate_video e w2 (snd (apply_overrides e w an a)) (args_video a) prompt) =
          snd (annotate_video e (fst (VideoAnnotator e w)) (snd (apply_overrides e w an a))
                 (args_video a) prompt)"
      by (rule annotate_video_cong) (simp_all add: tried va VideoAnnotator_frame w0)
    have "snd (main e w0 a) =
       (case snd (annotate_video e (fst (VideoAnnotator e w)) (snd (apply_overrides e w an a))
                 (args_video a) prompt) of Inl ex \<Rightarrow> SystemExit 1 | Inr r \<Rightarrow> Returned)"
      unfolding tried(3) main_try_snd ao a3 ..
    then show ?thesis
      unfolding st a1 a2 by (simp add: exit_status_def split: sum.splits)
  qed
qed

lemma save_results_fs_cong:
  assumes "fs v = fs w" "os_error v = os_error w"
  shows "fs (fst (save_results e v self name res)) = fs (fst (save_results e w self name res))"
proof
  fix p
  have c: "can_write v = can_write w" using assms by (simp add: can_write_def fun_eq_iff)
  show "fs (fst (save_results e v self name res)) p = fs (fst (save_results e w self name res)) p"
    by (simp only: save_results_fs c assms)
qed

lemma save_results_logs_failure:
  assumes "fs v = fs w" "os_error v = os_error w"
  shows "snd (write_text w (str_path (out_path e self name ''.json'')) (json_text e name res)) = Inl ex
           \<Longrightarrow> Log ERROR (txt_json_error @ str_exc e ex) \<in> set (trace (fst (save_results e v self name res)))"
    and "snd (write_text w (str_path (out_path e self name ''.txt'')) (txt_text e name res)) = Inl ex
           \<Longrightarrow> Log ERROR (txt_txt_error @ str_exc e ex) \<in> set (trace (fst (save_results e v self name res)))"
proof -
  have c: "snd (write_text v s t) = snd (write_text w s t)" for s t
    by (rule write_text_result_cong) (simp_all add: assms)
  show "snd (write_text w (str_path (out_path e self name ''.json'')) (json_text e name res)) = Inl ex
           \<Longrightarrow> Log ERROR (txt_json_error @ str_exc e ex) \<in> set (trace (fst (save_results e v self name res)))"
    unfolding save_results_trace c by simp
  show "snd (write_text w (str_path (out_path e self name ''.txt'')) (txt_text e name res)) = Inl ex
           \<Longrightarrow> Log ERROR (txt_txt_error @ str_exc e ex) \<in> set (trace (fst (save_results e v self name res)))"
    unfolding save_results_trace c by simp
qed

lemma main_try_ok:
  assumes "annotate_video e w an (args_video a) prompt = (w1, Inr r)"
  shows "fs (fst (main_try e w an a prompt)) =
           fs (fst (save_results e w1 an (path_name (Path (args_video a))) r))"
    and "set (trace (fst (save_results e w1 an (path_name (Path (args_video a))) r)))
           \<subseteq> set (trace (fst (main_try e w an a prompt)))"
    and "snd (main_try e w an a prompt) = Returned"
  unfolding main_try_def Let_def assms
  by (auto simp add: case_prod_unfold)

text \<open>A run in which the annotation is obtained: its status, its files and its log.\<close>

lemma run_script_success:
  assumes va: "snd (VideoAnnotator e w) = Inr an"
    and rc: "snd (read_custom_prompt (fst (VideoAnnotator e w)) a) = Inr prompt"
    and av: "snd (annotate_video e (fst (VideoAnnotator e w)) (snd (apply_overrides e w an a))
                    (args_video a) prompt) = Inr r"
  shows "snd (run_script e w a) = 0"
    and "fs (fst (run_script e w a)) =
           fs (fst (save_results e (fst (VideoAnnotator e w)) (snd (apply_overrides e w an a))
                      (path_name (Path (args_video a))) r))"
    and "\<exists>v. fs v = fs (fst (VideoAnnotator e w)) \<and> os_error v = os_error w
             \<and> set (trace (fst (save_results e v (snd (apply_overrides e w an a))
                                   (path_name (Path (args_video a))) r)))
                 \<subseteq> set (trace (fst (run_script e w a)))"
proof -
  let ?W = "fst (VideoAnnotator e w)"
  let ?self = "snd (apply_overrides e w an a)"
  let ?name = "path_name (Path (args_video a))"
  show "snd (run_script e w a) = 0"
    by (simp add: run_script_status va rc av)
  from run_script_unfold [of w e a] obtain w0 where
    w0: "fs w0 = fs w" "os_error w0 = os_error w"
    and f: "fs (fst (run_script e w a)) = fs (fst (main e w0 a))"
    and t: "(\<forall>ex. snd (main e w0 a) \<noteq> Uncaught ex) \<longrightarrow>
              trace (fst (run_script e w a)) = trace (fst (main e w0 a))"
    by blast
  have vc: "fs (fst (VideoAnnotator e w0)) = fs ?W"
    "snd (VideoAnnotator e w0) = snd (VideoAnnotator e w)"
    using VideoAnnotator_cong [OF w0, of e] by simp_all
  have rcc: "snd (read_custom_prompt (fst (VideoAnnotator e w0)) a) =
            snd (read_custom_prompt ?W a)"
    by (rule read_custom_prompt_cong) (simp_all add: vc VideoAnnotator_frame w0)
  have ao: "snd (apply_overrides e w0 x a) = snd (apply_overrides e w x a)" for x
    unfolding apply_overrides_snd ..
  have "fs (fst (main e w0 a)) = fs (fst (save_results e ?W ?self ?name r))
      \<and> (\<exists>v. fs v = fs ?W \<and> os_error v = os_error w
             \<and> set (trace (fst (save_results e v ?self ?name r))) \<subseteq> set (trace (fst (main e w0 a))))
      \<and> snd (main e w0 a) = Returned"
  proof (cases rule: main_cases [of e w0 a])
    case (init_failed ex w1)
    with va vc show ?thesis by simp
  next
    case (prompt_failed an' ex w2)
    with rc rcc va vc show ?thesis by simp
  next
    case (tried an' prompt' w2)
    have e1: "an' = an" using tried(1) va vc by simp
    have e2: "prompt' = prompt" using tried(2) rc rcc by simp
    have a3: "snd (annotate_video e w2 ?self (args_video a) prompt) = Inr r"
      using annotate_video_cong [of w2 ?W e ?self "args_video a" prompt] tried(4,5) vc w0 av
      by (simp add: VideoAnnotator_frame)
    then obtain w3 where w3: "annotate_video e w2 ?self (args_video a) prompt = (w3, Inr r)"
      by (cases "annotate_video e w2 ?self (args_video a) prompt") simp
    have f3: "fs w3 = fs ?W"
      using annotate_video_fs [of e w2 ?self "args_video a" prompt] w3 tried(4) vc by simp
    have o3: "os_error w3 = os_error w"
      using annotate_video_os_error [of e w2 ?self "args_video a" prompt] w3 tried(5) w0 by simp
    have m: "main e w0 a = main_try e w2 ?self a prompt"
      unfolding tried(3) e1 e2 ao ..
    have "fs (fst (main e w0 a)) = fs (fst (save_results e w3 ?self ?name r))"
      unfolding m by (rule main_try_ok(1) [OF w3])
    also have "\<dots> = fs (fst (save_results e ?W ?self ?name r))"
      by (rule save_results_fs_cong) (simp_all add: f3 o3 VideoAnnotator_frame)
    finally have 1: "fs (fst (main e w0 a)) = fs (fst (save_results e ?W ?self ?name r))" .
    have 2: "set (trace (fst (save_results e w3 ?self ?name r))) \<subseteq> set (trace (fst (main e w0 a)))"
      unfolding m by (rule main_try_ok(2) [OF w3])
    have 3: "snd (main e w0 a) = Returned"
      unfolding m by (rule main_try_ok(3) [OF w3])
    from 1 2 3 f3 o3 show ?thesis by blast
  qed
  then obtain v where
    1: "fs (fst (main e w0 a)) = fs (fst (save_results e ?W ?self ?name r))"
    and 2: "fs v = fs ?W" "os_error v = os_error w"
       "set (trace (fst (save_results e v ?self ?name r))) \<subseteq> set (trace (fst (main e w0 a)))"
    and 3: "snd (main e w0 a) = Returned"
    by blast
  from f 1 show "fs (fst (run_script e w a)) = fs (fst (save_results e ?W ?self ?name r))" by simp
  from t 3 have "trace (fst (run_script e w a)) = trace (fst (main e w0 a))" by simp
  with 2 show "\<exists>v. fs v = fs ?W \<and> os_error v = os_error w
             \<and> set (trace (fst (save_results e v ?self ?name r))) \<subseteq> set (trace (fst (run_script e w a)))"
    by auto
qed

text \<open>A run that stops before the \<open>try\<close> statement: the exception is not caught.\<close>

lemma run_script_stops_early:
  assumes "snd (VideoAnnotator e w) = Inl ex
           \<or> (\<exists>an. snd (VideoAnnotator e w) = Inr an)
               \<and> snd (read_custom_prompt (fst (VideoAnnotator e w)) a) = Inl ex"
  shows "snd (run_script e w a) = 1"
    and "fs (fst (run_script e w a)) = fs (fst (VideoAnnotator e w))"
    and "calls (trace (fst (run_script e w a))) = calls (trace w)"
    and "\<exists>pre. trace (fst (run_script e w a)) = pre @ [Stderr (class_name ex @ '': '' @ str_exc e ex)]"
proof -
  from run_script_unfold [of w e a] obtain w0 where
    w0: "fs w0 = fs w" "os_error w0 = os_error w" "calls (trace w0) = calls (trace w)"
    and st: "snd (run_script e w a) = exit_status (snd (main e w0 a))"
    and f: "fs (fst (run_script e w a)) = fs (fst (main e w0 a))"
    and c: "calls (trace (fst (run_script e w a))) = calls (trace (fst (main e w0 a)))"
    and t: "\<forall>ex. snd (main e w0 a) = Uncaught ex \<longrightarrow>
            trace (fst (run_script e w a)) =
              trace (fst (main e w0 a)) @ [Stderr (class_name ex @ '': '' @ str_exc e ex)]"
    by blast
  have va: "fs (fst (VideoAnnotator e w0)) = fs (fst (VideoAnnotator e w))"
    "snd (VideoAnnotator e w0) = snd (VideoAnnotator e w)"
    using VideoAnnotator_cong [OF w0(1,2), of e] by simp_all
  have rc: "snd (read_custom_prompt (fst (VideoAnnotator e w0)) a) =
            snd (read_custom_prompt (fst (VideoAnnotator e w)) a)"
    by (rule read_custom_prompt_cong) (simp_all add: va VideoAnnotator_frame w0)
  have m: "snd (main e w0 a) = Uncaught ex
         \<and> fs (fst (main e w0 a)) = fs (fst (VideoAnnotator e w))
         \<and> calls (trace (fst (main e w0 a))) = calls (trace w)"
  proof (cases rule: main_cases [of e w0 a])
    case (init_failed ex' w1)
    with assms va w0 show ?thesis by auto
  next
    case (prompt_failed an ex' w2)
    with assms va rc w0 show ?thesis by auto
  next
    case (tried an prompt w2)
    with assms va rc show ?thesis by auto
  qed
  from m st show "snd (run_script e w a) = 1" by (simp add: exit_status_def)
  from m f show "fs (fst (run_script e w a)) = fs (fst (VideoAnnotator e w))" by simp
  from m c show "calls (trace (fst (run_script e w a))) = calls (trace w)" by simp
  from m t show "\<exists>pre. trace (fst (run_script e w a)) = pre @ [Stderr (class_name ex @ '': '' @ str_exc e ex)]"
    by blast
qed


subsection \<open>Decoding what the encoder wrote\<close>

lemma hex_val_hex_digit: "d < 16 \<Longrightarrow> hex_val (hex_digit d) = Some d"
  unfolding hex_val_def hex_digit_def Let_def by simp

lemma hex_val_zero: "hex_val CHR ''0'' = Some 0"
  unfolding hex_val_def Let_def by simp

lemma hex4_control:
  assumes "n < 32"
  shows "hex4 CHR ''0'' CHR ''0'' (hex_digit (n div 16)) (hex_digit (n mod 16)) = Some n"
proof -
  have "n div 16 < 16" using assms by simp
  then show ?thesis
    unfolding hex4_def by (simp add: hex_val_zero hex_val_hex_digit)
qed

lemma utf8_encode_control: "n < 32 \<Longrightarrow> utf8_encode n = Some [char_of n]"
  unfolding utf8_encode_def by simp

lemma scan_string_escape_char:
  "scan_string (escape_char c @ r) =
     (case scan_string r of None \<Rightarrow> None | Some (t, rest) \<Rightarrow> Some (c # t, rest))"
proof (cases "(of_char c :: nat) < 0x20")
  case False
  then show ?thesis
    unfolding escape_char_def by (auto simp add: unescape_def split: option.splits)
next
  case True
  have u: "utf8_encode (of_char c) = Some [c]"
    using utf8_encode_control [OF True] by simp
  show ?thesis
    unfolding escape_char_def using True
    by (auto simp add: unescape_def hex4_control u split: option.splits)
qed

lemma scan_string_escaped:
  "scan_string (concat (map escape_char s) @ CHR 0x22 # rest) = Some (s, rest)"
  by (induction s) (simp_all add: scan_string_escape_char)

lemma scan_string_encoded:
  "encode_basestring s @ rest = CHR 0x22 # tl (encode_basestring s @ rest)"
  "scan_string (tl (encode_basestring s @ rest)) = Some (s, rest)"
  unfolding encode_basestring_def using scan_string_escaped [of s rest] by simp_all

lemma digit_no_delim: "is_digit c \<Longrightarrow> \<not> is_delim c"
  unfolding is_digit_def is_delim_def is_ws_def by auto

lemma in_take_or_drop: "c \<in> set r \<Longrightarrow> c \<in> set (takeWhile P r) \<or> c \<in> set (dropWhile P r)"
  by (metis takeWhile_dropWhile_id set_append Un_iff)

lemma exponent_ok_no_delim:
  assumes "exponent_ok s" "c \<in> set s"
  shows "\<not> is_delim c"
proof (cases s)
  case Nil
  with assms show ?thesis by simp
next
  case (Cons c0 r)
  define ds where "ds = (case r of [] \<Rightarrow> [] | x # t \<Rightarrow> if x = CHR ''+'' \<or> x = CHR ''-'' then t else r)"
  from assms(1) Cons have c0: "c0 = CHR ''e'' \<or> c0 = CHR ''E''"
    and ds: "ds \<noteq> []" "list_all is_digit ds"
    unfolding exponent_ok_def ds_def by (simp_all add: Let_def)
  have e: "\<not> is_delim c0" using c0 by (auto simp add: is_delim_def is_ws_def)
  have d: "\<not> is_delim x" if "x \<in> set ds" for x
    using ds(2) that digit_no_delim by (auto simp add: list_all_iff)
  have r: "\<not> is_delim x" if "x \<in> set r" for x
  proof (cases r)
    case Nil
    with that show ?thesis by simp
  next
    case (Cons y t)
    show ?thesis
    proof (cases "y = CHR ''+'' \<or> y = CHR ''-''")
      case True
      then have "ds = t" unfolding ds_def Cons by simp
      moreover have "\<not> is_delim y" using True by (auto simp add: is_delim_def is_ws_def)
      ultimately show ?thesis using that d Cons by auto
    next
      case False
      then have "ds = r" unfolding ds_def Cons by simp
      then show ?thesis using that d by simp
    qed
  qed
  from assms(2) Cons e r show ?thesis by auto
qed

lemma fraction_ok_no_delim:
  assumes "fraction_ok s" "c \<in> set s"
  shows "\<not> is_delim c"
proof (cases s)
  case Nil
  with assms show ?thesis by simp
next
  case (Cons x r)
  show ?thesis
  proof (cases "x = CHR ''.''")
    case False
    with assms Cons show ?thesis
      by (auto simp add: fraction_ok_def dest: exponent_ok_no_delim)
  next
    case True
    with assms(1) Cons have e: "exponent_ok (dropWhile is_digit r)"
      by (simp add: fraction_ok_def)
    from assms(2) Cons True consider "c = CHR ''.''" | "c \<in> set r" by auto
    then show ?thesis
    proof cases
      case 1
      then show ?thesis by (simp add: is_delim_def is_ws_def)
    next
      case 2
      from in_take_or_drop [OF this, of is_digit] show ?thesis
        using e by (auto dest: set_takeWhileD exponent_ok_no_delim digit_no_delim)
    qed
  qed
qed

lemma number_ok_no_delim:
  assumes "number_ok s" "c \<in> set s"
  shows "\<not> is_delim c"
proof -
  define u where "u = (case s of [] \<Rightarrow> [] | c # r \<Rightarrow> if c = CHR ''-'' then r else s)"
  from assms(1) have f: "fraction_ok (dropWhile is_digit u)"
    unfolding number_ok_def Let_def u_def by simp
  have "c = CHR ''-'' \<or> c \<in> set u"
    using assms(2) unfolding u_def by (cases s) (auto split: if_splits)
  then show ?thesis
  proof
    assume "c = CHR ''-''"
    then show ?thesis by (simp add: is_delim_def is_ws_def)
  next
    assume "c \<in> set u"
    from in_take_or_drop [OF this, of is_digit] show ?thesis
      using f by (auto dest: set_takeWhileD fraction_ok_no_delim digit_no_delim)
  qed
qed

lemma number_ok_head:
  assumes "number_ok s"
  shows "s \<noteq> [] \<and> (hd s = CHR ''-'' \<or> is_digit (hd s))"
proof -
  define u where "u = (case s of [] \<Rightarrow> [] | c # r \<Rightarrow> if c = CHR ''-'' then r else s)"
  from assms have "takeWhile is_digit u \<noteq> []"
    unfolding number_ok_def Let_def u_def by auto
  then have "u \<noteq> [] \<and> is_digit (hd u)"
    by (cases u) (auto split: if_splits)
  then show ?thesis
    unfolding u_def by (cases s) (auto split: if_splits)
qed

lemma json_number_no_delim: "is_json_number s \<Longrightarrow> c \<in> set s \<Longrightarrow> \<not> is_delim c"
  unfolding is_json_number_def
  by (auto simp add: is_delim_def is_ws_def dest: number_ok_no_delim)

lemma json_number_head:
  assumes "is_json_number s"
  shows "s \<noteq> []" "\<not> is_ws (hd s)" "hd s \<noteq> CHR 0x22"
    "s \<noteq> ''true''" "s \<noteq> ''false''" "s \<noteq> ''null''"
proof -
  from assms have h: "s \<noteq> [] \<and> (hd s = CHR ''-'' \<or> hd s = CHR ''N'' \<or> hd s = CHR ''I'' \<or> is_digit (hd s))"
    unfolding is_json_number_def using number_ok_head [of s] by auto
  then show "s \<noteq> []" by simp
  from h show "\<not> is_ws (hd s)" by (auto simp add: is_ws_def is_digit_def)
  from h show "hd s \<noteq> CHR 0x22" by (auto simp add: is_digit_def)
  from h show "s \<noteq> ''true''" by (auto simp add: is_digit_def)
  from h show "s \<noteq> ''false''" by (auto simp add: is_digit_def)
  from h show "s \<noteq> ''null''" by (auto simp add: is_digit_def)
qed



lemma scan_value_string:
  "scan_value (encode_basestring s @ rest) = Some (VString s, rest)"
  unfolding scan_value_def encode_basestring_def
  by (simp add: scan_string_escaped)

lemma scan_value_number:
  assumes "is_json_number num" "is_delim d"
  shows "scan_value (num @ d # rest) = Some (VNumber num, d # rest)"
proof -
  have n: "\<And>x. x \<in> set num \<Longrightarrow> \<not> is_delim x"
    using assms(1) by (rule json_number_no_delim)
  have t: "takeWhile (\<lambda>x. \<not> is_delim x) (num @ d # rest) = num"
    using n assms(2) by (simp add: takeWhile_append2)
  have dr: "dropWhile (\<lambda>x. \<not> is_delim x) (num @ d # rest) = d # rest"
    using n assms(2) by (simp add: dropWhile_append2)
  note h = json_number_head [OF assms(1)]
  obtain c r where cr: "num = c # r" using h(1) by (cases num) auto
  with h(3) have q: "c \<noteq> CHR 0x22" by simp
  have "scan_value ((c # r) @ d # rest) = Some (VNumber (c # r), d # rest)"
    unfolding scan_value_def Let_def t [unfolded cr] dr [unfolded cr]
    using q h(4,5,6) assms(1) unfolding cr by simp
  then show ?thesis unfolding cr .
qed

lemma skip_ws_spaces:
  "list_all is_ws ws \<Longrightarrow> \<not> is_ws c \<Longrightarrow> skip_ws (ws @ c # r) = c # r"
  unfolding skip_ws_def by (simp add: dropWhile_append2 list_all_iff)

lemma skip_ws_none: "\<not> is_ws c \<Longrightarrow> skip_ws (c # r) = c # r"
  unfolding skip_ws_def by simp

text \<open>One member of the object, followed by a comma or by the closing brace.\<close>

lemma parse_member:
  assumes ws: "list_all is_ws ws"
    and v: "\<And>d r. is_delim d \<Longrightarrow> scan_value (vtext @ d # r) = Some (v, d # r)"
    and h: "vtext \<noteq> []" "\<not> is_ws (hd vtext)"
  shows "parse_members (ws @ encode_basestring k @ '': '' @ vtext @ '','' @ rest) =
           (case parse_members rest of
              None \<Rightarrow> None
            | Some (kvs, r) \<Rightarrow> Some ((k, v) # kvs, r))"
    and "parse_members (ws @ encode_basestring k @ '': '' @ vtext @ [CHR 0x0A] @ ''}'' @ rest) =
           Some ([(k, v)], rest)"
proof -
  obtain c r where cr: "vtext = c # r" using h(1) by (cases vtext) auto
  with h(2) have nc: "\<not> is_ws c" by simp
  have q: "\<not> is_ws (CHR 0x22)" "\<not> is_ws CHR '':''" "is_ws CHR '' ''" "is_ws (CHR 0x0A)"
    "\<not> is_ws CHR '',''" "\<not> is_ws CHR ''}''" "is_delim CHR '',''" "is_delim (CHR 0x0A)"
    by (simp_all add: is_ws_def is_delim_def)
  have s1: "skip_ws (ws @ encode_basestring k @ x) = CHR 0x22 # tl (encode_basestring k @ x)" for x
    using skip_ws_spaces [OF ws q(1), of "tl (encode_basestring k @ x)"]
    by (simp add: encode_basestring_def)
  have s2: "skip_ws ('': '' @ x) = CHR '':'' # CHR '' '' # x" for x
    using skip_ws_none [OF q(2)] by simp
  have s3: "skip_ws (CHR '' '' # vtext @ x) = vtext @ x" for x
    using skip_ws_spaces [of "'' ''" c "r @ x"] q(3) nc by (simp add: cr)
  have s4: "skip_ws ('','' @ x) = CHR '','' # x" for x
    using skip_ws_none [OF q(5)] by simp
  have s5: "skip_ws (CHR 0x0A # CHR ''}'' # x) = CHR ''}'' # x" for x
    using skip_ws_spaces [of "[CHR 0x0A]" "CHR ''}''" x] q(4,6) by simp
  have v1: "scan_value (vtext @ '','' @ x) = Some (v, '','' @ x)" for x
    using v [OF q(7), of x] by simp
  have v2: "scan_value (vtext @ CHR 0x0A # CHR ''}'' # x) = Some (v, CHR 0x0A # CHR ''}'' # x)" for x
    using v [OF q(8), of "CHR ''}'' # x"] by simp
  show "parse_members (ws @ encode_basestring k @ '': '' @ vtext @ '','' @ rest) =
           (case parse_members rest of
              None \<Rightarrow> None
            | Some (kvs, r) \<Rightarrow> Some ((k, v) # kvs, r))"
    apply (subst parse_members.simps)
    apply (simp only: s1 scan_string_encoded(2) list.case option.case prod.case)
    apply (simp only: s2 list.case)
    apply (simp only: s3 v1 option.case prod.case s4 list.case)
    apply simp
    done
  show "parse_members (ws @ encode_basestring k @ '': '' @ vtext @ [CHR 0x0A] @ ''}'' @ rest) =
           Some ([(k, v)], rest)"
    apply (subst parse_members.simps)
    apply (simp only: s1 scan_string_encoded(2) list.case option.case prod.case)
    apply (simp only: s2 list.case)
    apply (simp only: append.simps s3 v2 option.case prod.case s5 list.case)
    apply simp
    done
qed

text \<open>\<open>json.loads\<close> gives back what \<open>json.dumps\<close> was given.\<close>

lemma scan_value_json_value:
  assumes "case v of JString s \<Rightarrow> True | JFloat x \<Rightarrow> is_json_number (float_repr e x)"
    and "is_delim d"
  shows "scan_value (json_value e v @ d # r) = Some (jvalue_of e v, d # r)"
proof (cases v)
  case (JString s)
  then show ?thesis
    using scan_value_string [of s "d # r"] by (simp add: json_value_def jvalue_of_def)
next
  case (JFloat x)
  with assms(1) have "is_json_number (float_repr e x)" by simp
  from scan_value_number [OF this assms(2), of r] JFloat show ?thesis
    by (simp add: json_value_def jvalue_of_def)
qed

lemma json_value_head:
  assumes "case v of JString s \<Rightarrow> True | JFloat x \<Rightarrow> is_json_number (float_repr e x)"
  shows "json_value e v \<noteq> []" "\<not> is_ws (hd (json_value e v))"
proof -
  show "json_value e v \<noteq> []"
    using assms json_number_head(1) [of "float_repr e _"]
    by (cases v) (simp_all add: json_value_def encode_basestring_def)
  show "\<not> is_ws (hd (json_value e v))"
    using assms json_number_head(2) [of "float_repr e _"]
    by (cases v) (simp_all add: json_value_def encode_basestring_def is_ws_def)
qed

lemma parse_members_dumped:
  assumes "kvs \<noteq> []" "floats_ok e kvs"
  shows "parse_members
           ([CHR 0x0A] @ ''  ''
              @ join_with ('','' @ [CHR 0x0A] @ ''  '')
                  (map (\<lambda>(k, v). encode_basestring k @ '': '' @ json_value e v) kvs)
              @ [CHR 0x0A] @ ''}'' @ rest) =
         Some (map (\<lambda>(k, v). (k, jvalue_of e v)) kvs, rest)"
  using assms
proof (induction kvs)
  case Nil
  then show ?case by simp
next
  case (Cons kv more)
  obtain k v where kv: "kv = (k, v)" by (cases kv)
  from Cons.prems(2) have ok: "case v of JString s \<Rightarrow> True | JFloat x \<Rightarrow> is_json_number (float_repr e x)"
    and okm: "floats_ok e more"
    by (simp_all add: floats_ok_def kv)
  have ws: "list_all is_ws ([CHR 0x0A] @ ''  '')" by (simp add: is_ws_def)
  note pm = parse_member [OF ws scan_value_json_value [OF ok] json_value_head [OF ok], where k = k]
  show ?case
  proof (cases more)
    case Nil
    show ?thesis
      unfolding Nil kv using pm(2) [of rest] by simp
  next
    case (Cons kv2 more2)
    let ?tail = "[CHR 0x0A] @ ''  ''
              @ join_with ('','' @ [CHR 0x0A] @ ''  '')
                  (map (\<lambda>(k, v). encode_basestring k @ '': '' @ json_value e v) more)
              @ [CHR 0x0A] @ ''}'' @ rest"
    have ih: "parse_members ?tail = Some (map (\<lambda>(k, v). (k, jvalue_of e v)) more, rest)"
      using Cons.IH okm Cons by simp
    have "parse_members
           (([CHR 0x0A] @ ''  '') @ encode_basestring k @ '': '' @ json_value e v @ '','' @ ?tail) =
         Some ((k, jvalue_of e v) # map (\<lambda>(k, v). (k, jvalue_of e v)) more, rest)"
      using pm(1) [of ?tail] ih by simp
    then show ?thesis
      unfolding kv Cons by simp
  qed
qed

lemma json_loads_dumps:
  assumes "kvs \<noteq> []" "floats_ok e kvs"
  shows "json_loads (json_dumps e kvs) = Some (map (\<lambda>(k, v). (k, jvalue_of e v)) kvs)"
proof -
  let ?j = "join_with ('','' @ [CHR 0x0A] @ ''  '')
                  (map (\<lambda>(k, v). encode_basestring k @ '': '' @ json_value e v) kvs)"
  let ?r = "[CHR 0x0A] @ ''  '' @ ?j @ [CHR 0x0A] @ ''}'' @ []"
  obtain X where X: "?j = CHR 0x22 # X"
  proof (cases kvs)
    case Nil
    with assms(1) show ?thesis by simp
  next
    case (Cons kv more)
    then show ?thesis
      using that by (cases more; cases kv) (simp_all add: encode_basestring_def)
  qed
  have d: "json_dumps e kvs = CHR ''{'' # ?r"
    using assms(1) by (simp add: json_dumps_def)
  have s1: "skip_ws (CHR ''{'' # ?r) = CHR ''{'' # ?r"
    by (rule skip_ws_none) (simp add: is_ws_def)
  have s2: "skip_ws ?r = CHR 0x22 # X @ [CHR 0x0A] @ ''}''"
    using skip_ws_spaces [of "[CHR 0x0A] @ ''  ''" "CHR 0x22" "X @ [CHR 0x0A] @ ''}''"]
    unfolding X by (simp add: is_ws_def)
  have p: "parse_members ?r = Some (map (\<lambda>(k, v). (k, jvalue_of e v)) kvs, [])"
    by (rule parse_members_dumped [OF assms])
  have e: "skip_ws [] = []" by (simp add: skip_ws_def)
  show ?thesis
    unfolding d json_loads_def s1 list.case s2 p using e by simp
qed

section \<open>The claims\<close>

text \<open>
  C10.  \<open>save_results\<close> always returns the pair of the derived \<open>.json\<close> and \<open>.txt\<close>
  paths of the outputs directory, whatever happens to the two writes; when a file
  cannot be written its path is returned all the same and the file store is left as
  it was at that path, so a returned path need not name an existing file.
\<close>

theorem save_results_always_returns_paths:
  "snd (save_results e w self video_name res) =
     (out_path e self video_name ''.json'', out_path e self video_name ''.txt'')
   \<and> (\<not> can_write w (str_path (out_path e self video_name ''.json'')) \<longrightarrow>
        fs (fst (save_results e w self video_name res))
           (str_path (out_path e self video_name ''.json'')) =
        fs w (str_path (out_path e self video_name ''.json'')))
   \<and> (\<not> can_write w (str_path (out_path e self video_name ''.txt'')) \<longrightarrow>
        fs (fst (save_results e w self video_name res))
           (str_path (out_path e self video_name ''.txt'')) =
        fs w (str_path (out_path e self video_name ''.txt'')))"
  using out_paths_distinct [of e self video_name]
  by (simp add: save_results_paths save_results_fs)

theorem save_results_always_returns_paths_witness:
  "\<not> can_write (demo_world refuse_both) ''/app/outputs/clip_20240101_120000.json''
   \<and> \<not> can_write (demo_world refuse_both) ''/app/outputs/clip_20240101_120000.txt''
   \<and> snd (save_results (demo_env (demo_response 200 [])) (demo_world refuse_both) demo_self
            ''clip.mp4'' demo_result) =
       (Path ''/app/outputs/clip_20240101_120000.json'',
        Path ''/app/outputs/clip_20240101_120000.txt'')
   \<and> fs (fst (save_results (demo_env (demo_response 200 [])) (demo_world refuse_both) demo_self
            ''clip.mp4'' demo_result)) ''/app/outputs/clip_20240101_120000.json'' = None
   \<and> fs (fst (save_results (demo_env (demo_response 200 [])) (demo_world refuse_both) demo_self
            ''clip.mp4'' demo_result)) ''/app/outputs/clip_20240101_120000.txt'' = None"
proof -
  let ?e = "demo_env (demo_response 200 [])"
  have j: "out_path ?e demo_self ''clip.mp4'' ''.json'' = Path ''/app/outputs/clip_20240101_120000.json''"
    by code_simp
  have t: "out_path ?e demo_self ''clip.mp4'' ''.txt'' = Path ''/app/outputs/clip_20240101_120000.txt''"
    by code_simp
  have sj: "str_path (Path ''/app/outputs/clip_20240101_120000.json'') = ''/app/outputs/clip_20240101_120000.json''"
    by code_simp
  have st: "str_path (Path ''/app/outputs/clip_20240101_120000.txt'') = ''/app/outputs/clip_20240101_120000.txt''"
    by code_simp
  have c: "\<not> can_write (demo_world refuse_both) ''/app/outputs/clip_20240101_120000.json''"
    "\<not> can_write (demo_world refuse_both) ''/app/outputs/clip_20240101_120000.txt''"
    by (simp_all add: can_write_def demo_world_def refuse_both_def)
  have f: "fs (demo_world refuse_both) ''/app/outputs/clip_20240101_120000.json'' = None"
    "fs (demo_world refuse_both) ''/app/outputs/clip_20240101_120000.txt'' = None"
    by (simp_all add: demo_world_def)
  from save_results_always_returns_paths [of ?e "demo_world refuse_both" demo_self "''clip.mp4''" demo_result]
  show ?thesis
    unfolding j t sj st using c f by simp
qed

text \<open>
  C2, as stated, fails on a path whose lookup the operating system refuses.  The file
  \<open>locked/clip.mp4\<close> does not exist, but \<open>Path.exists()\<close> (l.94) does not answer
  \<open>False\<close> for it: the \<open>stat\<close> fails with \<open>EACCES\<close>, which \<open>exists\<close> raises again, so
  \<open>annotate_video\<close> fails with a \<open>PermissionError\<close> and the \<open>FileNotFoundError\<close> of
  l.96 is never built.
\<close>

theorem missing_video_fails_before_any_call_counterexample:
  "nothing_at locked_world (str_path (Path ''locked/clip.mp4''))
   \<and> snd (annotate_video (demo_env (demo_response 200 [])) locked_world demo_self
            ''locked/clip.mp4'' None) =
       Inl (OSError 13 ''Permission denied'' ''locked/clip.mp4'')
   \<and> class_name (OSError 13 ''Permission denied'' ''locked/clip.mp4'') = ''PermissionError''
   \<and> class_name (OSError 13 ''Permission denied'' ''locked/clip.mp4'') \<noteq> ''FileNotFoundError''"
  by code_simp

text \<open>
  C2, amended.  When no file and no directory has the name of the video,
  \<open>annotate_video\<close> fails without having called the remote service and without
  touching the file store.  It fails with the \<open>FileNotFoundError\<close> of l.96 when the
  lookup finds nothing (or fails with \<open>ENOENT\<close>, \<open>ENOTDIR\<close>, \<open>EBADF\<close> or \<open>ELOOP\<close>),
  and with the \<open>OSError\<close> of the lookup when it fails with any other error.  When
  nothing has that name once the annotator is constructed (the constructor creates the
  three working directories), the whole run ends with status 1, no request has been
  sent and no file has been created.
\<close>

theorem missing_video_fails_before_any_call:
  "(nothing_at w (str_path (Path v)) \<longrightarrow>
      snd (annotate_video e w self v pt) =
        (case fs w (str_path (Path v)) of
           Some (Unreachable n m) \<Rightarrow>
             if exists_ignores n
             then Inl (FileNotFoundError (txt_video_not_found @ str_path (Path v)))
             else Inl (OSError n m (str_path (Path v)))
         | _ \<Rightarrow> Inl (FileNotFoundError (txt_video_not_found @ str_path (Path v))))
      \<and> calls (trace (fst (annotate_video e w self v pt))) = calls (trace w)
      \<and> fs (fst (annotate_video e w self v pt)) = fs w)
   \<and> (nothing_at (fst (VideoAnnotator e w)) (str_path (Path (args_video a))) \<longrightarrow>
      snd (run_script e w a) = 1
      \<and> calls (trace (fst (run_script e w a))) = calls (trace w)
      \<and> no_new_files w (fst (run_script e w a)))"
proof (intro conjI impI)
  assume n: "nothing_at w (str_path (Path v))"
  then have ne: "path_exists w (Path v) \<noteq> Inr True"
    by (auto simp add: nothing_at_def path_exists_def split: option.splits node.splits)
  show "snd (annotate_video e w self v pt) =
        (case fs w (str_path (Path v)) of
           Some (Unreachable n m) \<Rightarrow>
             if exists_ignores n
             then Inl (FileNotFoundError (txt_video_not_found @ str_path (Path v)))
             else Inl (OSError n m (str_path (Path v)))
         | _ \<Rightarrow> Inl (FileNotFoundError (txt_video_not_found @ str_path (Path v))))"
    unfolding annotate_video_absent(4) [OF ne]
    using n by (auto simp add: nothing_at_def path_exists_def split: option.splits node.splits)
  from ne show "calls (trace (fst (annotate_video e w self v pt))) = calls (trace w)"
    by (rule annotate_video_absent(3))
  from ne show "fs (fst (annotate_video e w self v pt)) = fs w"
    by (rule annotate_video_absent(1))
next
  assume m: "nothing_at (fst (VideoAnnotator e w)) (str_path (Path (args_video a)))"
  have miss: "path_exists w2 (Path (args_video a)) \<noteq> Inr True"
    if "fs w2 = fs (fst (VideoAnnotator e w))" for w2
    using m that
    by (auto simp add: nothing_at_def path_exists_def split: option.splits node.splits)
  have "\<exists>ex. snd (annotate_video e w2 an (args_video a) prompt) = Inl ex"
    if "fs w2 = fs (fst (VideoAnnotator e w))" for w2 an prompt
    using miss [OF that] by (simp add: annotate_video_absent(4) split: sum.splits)
  from run_script_when_annotation_fails [of e w a, OF this]
  show "snd (run_script e w a) = 1" and "no_new_files w (fst (run_script e w a))"
    by simp_all
  from run_script_calls [of e w a]
  show "calls (trace (fst (run_script e w a))) = calls (trace w)"
  proof
    assume "calls (trace (fst (run_script e w a))) = calls (trace w)"
    then show ?thesis .
  next
    assume "\<exists>an w2 prompt. snd (VideoAnnotator e w) = Inr an \<and> fs w2 = fs (fst (VideoAnnotator e w))
         \<and> os_error w2 = os_error w
         \<and> snd (read_custom_prompt (fst (VideoAnnotator e w)) a) = Inr prompt
         \<and> calls (trace w2) = calls (trace w)
         \<and> calls (trace (fst (run_script e w a))) =
             calls (trace (fst (annotate_video e w2 (snd (apply_overrides e w an a))
                                  (args_video a) prompt)))"
    then obtain an w2 prompt where
      f: "fs w2 = fs (fst (VideoAnnotator e w))" and c: "calls (trace w2) = calls (trace w)"
      and r: "calls (trace (fst (run_script e w a))) =
             calls (trace (fst (annotate_video e w2 (snd (apply_overrides e w an a))
                                  (args_video a) prompt)))"
      by blast
    show ?thesis
      unfolding r using miss [OF f] c by (simp add: annotate_video_absent(3))
  qed
qed

theorem missing_video_fails_before_any_call_witness:
  "nothing_at (demo_world no_refusal) (str_path (Path ''nope.mp4''))
   \<and> snd (annotate_video (demo_env (demo_response 200 [])) (demo_world no_refusal) demo_self
            ''nope.mp4'' None) =
       Inl (FileNotFoundError (txt_video_not_found @ ''nope.mp4''))
   \<and> calls (trace (fst (annotate_video (demo_env (demo_response 200 [])) (demo_world no_refusal)
            demo_self ''nope.mp4'' None))) = []
   \<and> nothing_at (fst (VideoAnnotator (demo_env (demo_response 200 [])) (demo_world no_refusal)))
        (str_path (Path (args_video (demo_args\<lparr>args_video := ''nope.mp4''\<rparr>))))
   \<and> snd (run_script (demo_env (demo_response 200 [])) (demo_world no_refusal)
            (demo_args\<lparr>args_video := ''nope.mp4''\<rparr>)) = 1
   \<and> calls (trace (fst (run_script (demo_env (demo_response 200 [])) (demo_world no_refusal)
            (demo_args\<lparr>args_video := ''nope.mp4''\<rparr>)))) = []
   \<and> no_new_files (demo_world no_refusal)
        (fst (run_script (demo_env (demo_response 200 [])) (demo_world no_refusal)
            (demo_args\<lparr>args_video := ''nope.mp4''\<rparr>)))
   \<and> nothing_at locked_world (str_path (Path ''locked/clip.mp4''))
   \<and> calls (trace (fst (annotate_video (demo_env (demo_response 200 [])) locked_world
            demo_self ''locked/clip.mp4'' None))) = []
   \<and> nothing_at (fst (VideoAnnotator (demo_env (demo_response 200 [])) locked_world))
        (str_path (Path (args_video (demo_args\<lparr>args_video := ''locked/clip.mp4''\<rparr>))))
   \<and> snd (run_script (demo_env (demo_response 200 [])) locked_world
            (demo_args\<lparr>args_video := ''locked/clip.mp4''\<rparr>)) = 1"
proof -
  let ?e = "demo_env (demo_response 200 [])"
  have s: "str_path (Path ''nope.mp4'') = ''nope.mp4''" by code_simp
  have f: "fs (demo_world no_refusal) ''nope.mp4'' = None" by (simp add: demo_world_def)
  have h1: "nothing_at (demo_world no_refusal) (str_path (Path ''nope.mp4''))"
    by code_simp
  have h2: "nothing_at (fst (VideoAnnotator ?e (demo_world no_refusal)))
        (str_path (Path (args_video (demo_args\<lparr>args_video := ''nope.mp4''\<rparr>))))"
    by code_simp
  have h3: "nothing_at locked_world (str_path (Path ''locked/clip.mp4''))"
    by code_simp
  have h4: "nothing_at (fst (VideoAnnotator ?e locked_world))
        (str_path (Path (args_video (demo_args\<lparr>args_video := ''locked/clip.mp4''\<rparr>))))"
    by code_simp
  have t: "calls (trace (demo_world no_refusal)) = []" "calls (trace locked_world) = []"
    by (simp_all add: demo_world_def locked_world_def)
  note a = missing_video_fails_before_any_call [of "demo_world no_refusal" "''nope.mp4''"
      ?e demo_self None "demo_args\<lparr>args_video := ''nope.mp4''\<rparr>"]
  note b = missing_video_fails_before_any_call [of locked_world "''locked/clip.mp4''"
      ?e demo_self None "demo_args\<lparr>args_video := ''locked/clip.mp4''\<rparr>"]
  from a h1 h2 have a': "snd (annotate_video ?e (demo_world no_refusal) demo_self ''nope.mp4'' None) =
       Inl (FileNotFoundError (txt_video_not_found @ ''nope.mp4''))"
    "calls (trace (fst (annotate_video ?e (demo_world no_refusal) demo_self ''nope.mp4'' None))) = []"
    "snd (run_script ?e (demo_world no_refusal) (demo_args\<lparr>args_video := ''nope.mp4''\<rparr>)) = 1"
    "calls (trace (fst (run_script ?e (demo_world no_refusal)
            (demo_args\<lparr>args_video := ''nope.mp4''\<rparr>)))) = []"
    "no_new_files (demo_world no_refusal)
        (fst (run_script ?e (demo_world no_refusal) (demo_args\<lparr>args_video := ''nope.mp4''\<rparr>)))"
    by (simp_all add: s f t)
  from b h3 h4 have b': 
    "calls (trace (fst (annotate_video ?e locked_world demo_self ''locked/clip.mp4'' None))) = []"
    "snd (run_script ?e locked_world (demo_args\<lparr>args_video := ''locked/clip.mp4''\<rparr>)) = 1"
    by (simp_all add: t)
  from a' b' h1 h2 h3 h4 show ?thesis by blast
qed

text \<open>
  C1, as stated: the exception raised for a non-success status embeds the status code
  and the message of the service.  It does not hold: the exception is built from the
  message alone (l.160), so the answers 500 and 404 with one message raise the same
  exception, whose text does not contain the code.
\<close>

theorem api_exception_embeds_code_counterexample:
  "snd (annotate_video (demo_env (demo_response 500 ''boom'')) (demo_world no_refusal) demo_self
          ''clip.mp4'' (Some ''describe'')) = Inl (Exception (txt_api_error @ ''boom''))
   \<and> snd (annotate_video (demo_env (demo_response 404 ''boom'')) (demo_world no_refusal) demo_self
          ''clip.mp4'' (Some ''describe'')) = Inl (Exception (txt_api_error @ ''boom''))
   \<and> \<not> sublist (str_int 500) (str_exc (demo_env (demo_response 500 ''boom''))
                                       (Exception (txt_api_error @ ''boom'')))"
  by code_simp

text \<open>
  C1, amended.  When the remote service answers with a status other than 200, a call
  of \<open>annotate_video\<close> that reaches the service fails with an \<open>Exception\<close> whose text
  is the fixed prefix followed by the message of the service; the status code is
  written to the error log only.  The run then ends with status 1 and no file has been
  created.
\<close>

theorem non_success_status_aborts:
  assumes "\<forall>q. remote e q = Inr resp" and "status_code resp \<noteq> 200"
  shows "(calls (trace (fst (annotate_video e w self v pt))) \<noteq> calls (trace w) \<longrightarrow>
            snd (annotate_video e w self v pt) =
              Inl (Exception (txt_api_error @ resp_message resp))
            \<and> Log ERROR (txt_api_error_code @ str_int (status_code resp) @ txt_api_error_msg
                  @ resp_message resp) \<in> set (trace (fst (annotate_video e w self v pt))))
         \<and> snd (run_script e w a) = 1
         \<and> no_new_files w (fst (run_script e w a))"
proof -
  have api: "snd (call_api e w' self' ms) = Inl (Exception (txt_api_error @ resp_message resp))"
    for w' self' ms
    unfolding call_api_snd using assms by simp
  have called: "snd (annotate_video e w' self' v' pt') =
              Inl (Exception (txt_api_error @ resp_message resp))
            \<and> Log ERROR (txt_api_error_code @ str_int (status_code resp) @ txt_api_error_msg
                  @ resp_message resp) \<in> set (trace (fst (annotate_video e w' self' v' pt')))"
    if ex: "path_exists w' (Path v') = Inr True" and pr: "snd (prompt_or_default w' self' pt') = Inr p"
    for w' self' v' pt' p
  proof -
    let ?ms = "build_messages (video_url e v') (self_fps self') p"
    from annotate_video_outcomes [OF ex, of e self' pt'] pr obtain w3 where
      s: "snd (annotate_video e w' self' v' pt') = snd (call_api e w' self' ?ms)"
      and t: "set (trace (fst (call_api e w3 self' ?ms)))
                \<subseteq> set (trace (fst (annotate_video e w' self' v' pt')))"
      by auto
    have "Log ERROR (txt_api_error_code @ str_int (status_code resp) @ txt_api_error_msg
            @ resp_message resp) \<in> set (trace (fst (call_api e w3 self' ?ms)))"
      using assms by (intro call_api_error_logged) simp_all
    with s t api show ?thesis by auto
  qed
  have never: "\<exists>ex. snd (annotate_video e w' self' v' pt') = Inl ex" for w' self' v' pt'
  proof (cases "path_exists w' (Path v') = Inr True")
    case False
    then show ?thesis by (simp add: annotate_video_absent(4) split: sum.splits)
  next
    case True
    show ?thesis
    proof (cases "snd (prompt_or_default w' self' pt')")
      case (Inl x)
      with annotate_video_outcomes [OF True, of e self' pt'] show ?thesis by simp
    next
      case (Inr p)
      from called [OF True this] show ?thesis by blast
    qed
  qed
  have one: "calls (trace (fst (annotate_video e w self v pt))) \<noteq> calls (trace w) \<longrightarrow>
            snd (annotate_video e w self v pt) =
              Inl (Exception (txt_api_error @ resp_message resp))
            \<and> Log ERROR (txt_api_error_code @ str_int (status_code resp) @ txt_api_error_msg
                  @ resp_message resp) \<in> set (trace (fst (annotate_video e w self v pt)))"
    using annotate_video_calls [of e w self v pt] called [of w v self pt] by blast
  from run_script_when_annotation_fails [of e w a] never one show ?thesis by blast
qed

theorem non_success_status_aborts_witness:
  "(\<forall>q. remote (demo_env (demo_response 500 ''boom'')) q = Inr (demo_response 500 ''boom''))
   \<and> status_code (demo_response 500 ''boom'') \<noteq> 200
   \<and> calls (trace (fst (annotate_video (demo_env (demo_response 500 ''boom''))
          (demo_world no_refusal) demo_self ''clip.mp4'' None)))
       \<noteq> calls (trace (demo_world no_refusal))
   \<and> snd (annotate_video (demo_env (demo_response 500 ''boom'')) (demo_world no_refusal)
          demo_self ''clip.mp4'' None) =
       Inl (Exception (txt_api_error @ resp_message (demo_response 500 ''boom'')))
   \<and> Log ERROR (txt_api_error_code @ str_int (status_code (demo_response 500 ''boom''))
         @ txt_api_error_msg @ resp_message (demo_response 500 ''boom''))
       \<in> set (trace (fst (annotate_video (demo_env (demo_response 500 ''boom''))
          (demo_world no_refusal) demo_self ''clip.mp4'' None)))
   \<and> snd (run_script (demo_env (demo_response 500 ''boom'')) (demo_world no_refusal) demo_args) = 1
   \<and> no_new_files (demo_world no_refusal)
        (fst (run_script (demo_env (demo_response 500 ''boom'')) (demo_world no_refusal) demo_args))"
proof -
  have h1: "\<forall>q. remote (demo_env (demo_response 500 ''boom'')) q = Inr (demo_response 500 ''boom'')"
    by (simp add: demo_env_def)
  have h2: "status_code (demo_response 500 ''boom'') \<noteq> 200"
    by (simp add: demo_response_def)
  have h3: "calls (trace (fst (annotate_video (demo_env (demo_response 500 ''boom''))
          (demo_world no_refusal) demo_self ''clip.mp4'' None)))
       \<noteq> calls (trace (demo_world no_refusal))"
    by code_simp
  from non_success_status_aborts [OF h1 h2, of "demo_world no_refusal" demo_self "''clip.mp4''" None
      demo_args] h1 h2 h3
  show ?thesis by blast
qed

text \<open>
  C9.  An override whose parsed value is falsy is treated as not given: with
  \<open>--fps 0\<close> the annotator keeps its sampling rate and with \<open>--temperature 0.0\<close> its
  temperature, and every request that the run sends carries the defaults of the
  module, \<open>FPS = 1.0\<close> and \<open>TEMPERATURE = 0.3\<close>.
\<close>

theorem falsy_overrides_are_ignored:
  "(args_fps a = Some 0 \<longrightarrow> self_fps (snd (apply_overrides e w an a)) = self_fps an)
   \<and> (args_temperature a = Some 0 \<longrightarrow>
        self_temperature (snd (apply_overrides e w an a)) = self_temperature an)
   \<and> (\<forall>r \<in> set (drop (length (calls (trace w))) (calls (trace (fst (run_script e w a))))).
        (args_fps a = Some 0 \<longrightarrow> (\<exists>url p. req_messages r = build_messages url FPS p))
        \<and> (args_temperature a = Some 0 \<longrightarrow> req_temperature r = TEMPERATURE))
   \<and> FPS = 1 \<and> TEMPERATURE = 3 / 10"
proof (intro conjI)
  show "args_fps a = Some 0 \<longrightarrow> self_fps (snd (apply_overrides e w an a)) = self_fps an"
    by (simp add: apply_overrides_snd truthy_float_def)
  show "args_temperature a = Some 0 \<longrightarrow>
        self_temperature (snd (apply_overrides e w an a)) = self_temperature an"
    by (simp add: apply_overrides_snd truthy_float_def)
  show "FPS = 1" by (simp add: FPS_def)
  show "TEMPERATURE = 3 / 10" by (simp add: TEMPERATURE_def)
  show "\<forall>r \<in> set (drop (length (calls (trace w))) (calls (trace (fst (run_script e w a))))).
        (args_fps a = Some 0 \<longrightarrow> (\<exists>url p. req_messages r = build_messages url FPS p))
        \<and> (args_temperature a = Some 0 \<longrightarrow> req_temperature r = TEMPERATURE)"
  proof
    fix r
    assume r: "r \<in> set (drop (length (calls (trace w))) (calls (trace (fst (run_script e w a)))))"
    from run_script_calls [of e w a]
    show "(args_fps a = Some 0 \<longrightarrow> (\<exists>url p. req_messages r = build_messages url FPS p))
        \<and> (args_temperature a = Some 0 \<longrightarrow> req_temperature r = TEMPERATURE)"
    proof
      assume "calls (trace (fst (run_script e w a))) = calls (trace w)"
      with r show ?thesis by simp
    next
      assume "\<exists>an w2 prompt. snd (VideoAnnotator e w) = Inr an \<and> fs w2 = fs (fst (VideoAnnotator e w))
         \<and> os_error w2 = os_error w
         \<and> snd (read_custom_prompt (fst (VideoAnnotator e w)) a) = Inr prompt
         \<and> calls (trace w2) = calls (trace w)
         \<and> calls (trace (fst (run_script e w a))) =
             calls (trace (fst (annotate_video e w2 (snd (apply_overrides e w an a))
                                  (args_video a) prompt)))"
      then obtain an0 w2 prompt where
        va: "snd (VideoAnnotator e w) = Inr an0" and c: "calls (trace w2) = calls (trace w)"
        and rs: "calls (trace (fst (run_script e w a))) =
             calls (trace (fst (annotate_video e w2 (snd (apply_overrides e w an0 a))
                                  (args_video a) prompt)))"
        by blast
      let ?an = "snd (apply_overrides e w an0 a)"
      from VideoAnnotator_defaults [OF va] have d: "self_fps an0 = FPS" "self_temperature an0 = TEMPERATURE"
        by simp_all
      from annotate_video_calls [of e w2 ?an "args_video a" prompt]
      show ?thesis
      proof
        assume "calls (trace (fst (annotate_video e w2 ?an (args_video a) prompt))) = calls (trace w2)"
        with r rs c show ?thesis by simp
      next
        assume "\<exists>p. path_exists w2 (Path (args_video a)) = Inr True \<and> snd (prompt_or_default w2 ?an prompt) = Inr p
          \<and> calls (trace (fst (annotate_video e w2 ?an (args_video a) prompt))) =
              calls (trace w2) @ [build_request ?an (build_messages (video_url e (args_video a)) (self_fps ?an) p)]"
        then obtain p where "calls (trace (fst (annotate_video e w2 ?an (args_video a) prompt))) =
              calls (trace w2) @ [build_request ?an (build_messages (video_url e (args_video a)) (self_fps ?an) p)]"
          by blast
        with r rs c have req: "r = build_request ?an (build_messages (video_url e (args_video a)) (self_fps ?an) p)"
          by simp
        have "args_fps a = Some 0 \<longrightarrow> self_fps ?an = FPS"
          using d by (simp add: apply_overrides_snd truthy_float_def)
        moreover have "args_temperature a = Some 0 \<longrightarrow> self_temperature ?an = TEMPERATURE"
          using d by (simp add: apply_overrides_snd truthy_float_def)
        ultimately show ?thesis
          unfolding req by (auto simp: build_request_def)
      qed
    qed
  qed
qed

theorem falsy_overrides_are_ignored_witness:
  "args_fps (demo_args\<lparr>args_fps := Some 0, args_temperature := Some 0\<rparr>) = Some 0
   \<and> args_temperature (demo_args\<lparr>args_fps := Some 0, args_temperature := Some 0\<rparr>) = Some 0
   \<and> build_request demo_self (build_messages ''file:///home/u/clip.mp4'' 1 fallback_prompt)
       \<in> set (drop (length (calls (trace (demo_world no_refusal))))
            (calls (trace (fst (run_script (demo_env (demo_response 200 [])) (demo_world no_refusal)
               (demo_args\<lparr>args_fps := Some 0, args_temperature := Some 0\<rparr>))))))
   \<and> (\<exists>url p. req_messages
          (build_request demo_self (build_messages ''file:///home/u/clip.mp4'' 1 fallback_prompt)) =
          build_messages url FPS p)
   \<and> req_temperature
        (build_request demo_self (build_messages ''file:///home/u/clip.mp4'' 1 fallback_prompt)) =
       TEMPERATURE"
proof -
  let ?a = "demo_args\<lparr>args_fps := Some 0, args_temperature := Some 0\<rparr>"
  let ?r = "build_request demo_self (build_messages ''file:///home/u/clip.mp4'' 1 fallback_prompt)"
  have h1: "args_fps ?a = Some 0" and h2: "args_temperature ?a = Some 0" by simp_all
  have h3: "?r \<in> set (drop (length (calls (trace (demo_world no_refusal))))
            (calls (trace (fst (run_script (demo_env (demo_response 200 [])) (demo_world no_refusal) ?a)))))"
    by code_simp
  from falsy_overrides_are_ignored [of ?a "demo_env (demo_response 200 [])" "demo_world no_refusal" demo_self]
  have "\<forall>r \<in> set (drop (length (calls (trace (demo_world no_refusal))))
            (calls (trace (fst (run_script (demo_env (demo_response 200 [])) (demo_world no_refusal) ?a))))).
        (args_fps ?a = Some 0 \<longrightarrow> (\<exists>url p. req_messages r = build_messages url FPS p))
        \<and> (args_temperature ?a = Some 0 \<longrightarrow> req_temperature r = TEMPERATURE)"
    by blast
  from bspec [OF this h3] h1 h2 h3 show ?thesis by blast
qed




text \<open>
  C4.  The two writes of \<open>save_results\<close> (l.187-216) are independent, and a failed
  write does not change the status of the run.  Take a run in which the annotator is
  built, the prompt is read and \<open>annotate_video\<close> returns a result.  Then the run ends
  with status 0, whatever happens to the two files.  Each of the two files is written
  whenever its own path can be written, whether or not the other write failed; and
  each write that fails leaves its error in the log, at level \<open>ERROR\<close>, with the text
  of the exception.
\<close>

theorem writes_are_independent:
  assumes "snd (VideoAnnotator e w) = Inr an"
    and "snd (read_custom_prompt (fst (VideoAnnotator e w)) a) = Inr prompt"
    and "snd (annotate_video e (fst (VideoAnnotator e w)) (snd (apply_overrides e w an a))
                (args_video a) prompt) = Inr r"
    and "self = snd (apply_overrides e w an a)"
    and "name = path_name (Path (args_video a))"
    and "jp = str_path (out_path e self name ''.json'')"
    and "tp = str_path (out_path e self name ''.txt'')"
  shows "snd (run_script e w a) = 0
    \<and> (can_write (fst (VideoAnnotator e w)) tp \<longrightarrow>
          fs (fst (run_script e w a)) tp = Some (File (txt_text e name r)))
    \<and> (can_write (fst (VideoAnnotator e w)) jp \<longrightarrow>
          fs (fst (run_script e w a)) jp = Some (File (json_text e name r)))
    \<and> (\<forall>ex. snd (write_text (fst (VideoAnnotator e w)) jp (json_text e name r)) = Inl ex \<longrightarrow>
          Log ERROR (txt_json_error @ str_exc e ex) \<in> set (trace (fst (run_script e w a))))
    \<and> (\<forall>ex. snd (write_text (fst (VideoAnnotator e w)) tp (txt_text e name r)) = Inl ex \<longrightarrow>
          Log ERROR (txt_txt_error @ str_exc e ex) \<in> set (trace (fst (run_script e w a))))"
proof -
  let ?W = "fst (VideoAnnotator e w)"
  note s = run_script_success [OF assms(1,2,3)]
  have f: "fs (fst (run_script e w a)) = fs (fst (save_results e ?W self name r))"
    using s(2) assms(4,5) by simp
  from s(3) obtain v where
    v: "fs v = fs ?W" "os_error v = os_error ?W"
    and t: "set (trace (fst (save_results e v self name r))) \<subseteq> set (trace (fst (run_script e w a)))"
    unfolding assms(4,5) by (auto simp add: VideoAnnotator_frame)
  have d: "jp \<noteq> tp" unfolding assms(6,7) by (rule out_paths_distinct)
  have 1: "can_write ?W tp \<longrightarrow> fs (fst (run_script e w a)) tp = Some (File (txt_text e name r))"
    unfolding f save_results_fs assms(6,7) by simp
  have 2: "can_write ?W jp \<longrightarrow> fs (fst (run_script e w a)) jp = Some (File (json_text e name r))"
    using d unfolding f save_results_fs assms(6,7) by simp
  have 3: "Log ERROR (txt_json_error @ str_exc e ex) \<in> set (trace (fst (run_script e w a)))"
    if "snd (write_text ?W jp (json_text e name r)) = Inl ex" for ex
    using save_results_logs_failure(1) [OF v, of e self name r ex] that t
    unfolding assms(6,7) by blast
  have 4: "Log ERROR (txt_txt_error @ str_exc e ex) \<in> set (trace (fst (run_script e w a)))"
    if "snd (write_text ?W tp (txt_text e name r)) = Inl ex" for ex
    using save_results_logs_failure(2) [OF v, of e self name r ex] that t
    unfolding assms(6,7) by blast
  from s(1) 1 2 3 4 show ?thesis by blast
qed

theorem writes_are_independent_witness:
  "snd (VideoAnnotator (demo_env (demo_response 200 [])) (demo_world refuse_json)) = Inr demo_self
   \<and> snd (read_custom_prompt
            (fst (VideoAnnotator (demo_env (demo_response 200 [])) (demo_world refuse_json)))
            demo_args) = Inr None
   \<and> snd (annotate_video (demo_env (demo_response 200 []))
            (fst (VideoAnnotator (demo_env (demo_response 200 [])) (demo_world refuse_json)))
            demo_self ''clip.mp4'' None) = Inr demo_result
   \<and> can_write (fst (VideoAnnotator (demo_env (demo_response 200 [])) (demo_world refuse_json)))
        ''/app/outputs/clip_20240101_120000.txt''
   \<and> snd (write_text
            (fst (VideoAnnotator (demo_env (demo_response 200 [])) (demo_world refuse_json)))
            ''/app/outputs/clip_20240101_120000.json''
            (json_text (demo_env (demo_response 200 [])) ''clip.mp4'' demo_result)) =
       Inl (OSError 13 ''Permission denied'' ''/app/outputs/clip_20240101_120000.json'')
   \<and> snd (run_script (demo_env (demo_response 200 [])) (demo_world refuse_json) demo_args) = 0
   \<and> fs (fst (run_script (demo_env (demo_response 200 [])) (demo_world refuse_json) demo_args))
        ''/app/outputs/clip_20240101_120000.txt'' =
       Some (File (txt_text (demo_env (demo_response 200 [])) ''clip.mp4'' demo_result))
   \<and> Log ERROR (txt_json_error @ ''[Errno 13] Permission denied: '' @ [CHR 0x27]
                  @ ''/app/outputs/clip_20240101_120000.json'' @ [CHR 0x27])
       \<in> set (trace (fst (run_script (demo_env (demo_response 200 [])) (demo_world refuse_json)
                              demo_args)))"
proof -
  let ?e = "demo_env (demo_response 200 [])"
  let ?w = "demo_world refuse_json"
  let ?W = "fst (VideoAnnotator ?e ?w)"
  have h1: "snd (VideoAnnotator ?e ?w) = Inr demo_self" by code_simp
  have h2: "snd (read_custom_prompt ?W demo_args) = Inr None" by code_simp
  have ao: "snd (apply_overrides ?e ?w demo_self demo_args) = demo_self" by code_simp
  have av: "args_video demo_args = ''clip.mp4''" by (simp add: demo_args_def)
  have h3: "snd (annotate_video ?e ?W demo_self ''clip.mp4'' None) = Inr demo_result" by code_simp
  have h3': "snd (annotate_video ?e ?W (snd (apply_overrides ?e ?w demo_self demo_args))
                (args_video demo_args) None) = Inr demo_result"
    unfolding ao av by (rule h3)
  have n: "path_name (Path ''clip.mp4'') = ''clip.mp4''" by code_simp
  have j: "str_path (out_path ?e demo_self ''clip.mp4'' ''.json'') =
             ''/app/outputs/clip_20240101_120000.json''"
    by code_simp
  have t: "str_path (out_path ?e demo_self ''clip.mp4'' ''.txt'') =
             ''/app/outputs/clip_20240101_120000.txt''"
    by code_simp
  have c: "can_write ?W ''/app/outputs/clip_20240101_120000.txt''" by code_simp
  have x: "snd (write_text ?W ''/app/outputs/clip_20240101_120000.json''
                  (json_text ?e ''clip.mp4'' demo_result)) =
           Inl (OSError 13 ''Permission denied'' ''/app/outputs/clip_20240101_120000.json'')"
    by code_simp
  have oe: "os_error_text ?e 13 ''Permission denied'' ''/app/outputs/clip_20240101_120000.json'' =
              ''[Errno 13] Permission denied: '' @ [CHR 0x27]
                  @ ''/app/outputs/clip_20240101_120000.json'' @ [CHR 0x27]"
    by code_simp
  note m = writes_are_independent [OF h1 h2 h3' ao [symmetric] refl refl refl]
  from m c x h1 h2 h3 show ?thesis
    unfolding av n j t ao by (simp add: oe)
qed

text \<open>
  C7, as stated, fails on an empty path.  The driver reads the custom prompt only when
  \<open>args.prompt\<close> is truthy (l.256), so \<open>--prompt ''\<close> is treated as no override at
  all: although no file has the empty name, and opening it would raise
  \<open>FileNotFoundError\<close>, the run goes on with the default prompt and ends with
  status 0.
\<close>

theorem missing_custom_prompt_aborts_counterexample:
  "args_prompt (demo_args\<lparr>args_prompt := Some []\<rparr>) = Some []
   \<and> nothing_at (fst (VideoAnnotator (demo_env (demo_response 200 [])) (demo_world no_refusal))) []
   \<and> read_text (fst (VideoAnnotator (demo_env (demo_response 200 [])) (demo_world no_refusal))) []
       = Inl (OSError 2 ''No such file or directory'' [])
   \<and> class_name (OSError 2 ''No such file or directory'' []) = ''FileNotFoundError''
   \<and> snd (read_custom_prompt
            (fst (VideoAnnotator (demo_env (demo_response 200 [])) (demo_world no_refusal)))
            (demo_args\<lparr>args_prompt := Some []\<rparr>)) = Inr None
   \<and> snd (run_script (demo_env (demo_response 200 [])) (demo_world no_refusal)
            (demo_args\<lparr>args_prompt := Some []\<rparr>)) = 0"
  by code_simp

text \<open>
  C7, amended.  When the path given with \<open>--prompt\<close> is not empty and no file and no
  directory has that name at the moment the driver opens it (l.258, after the annotator
  has been built), the run aborts.  The \<open>open\<close> raises the error of the operating
  system: \<open>FileNotFoundError\<close> (\<open>errno\<close> 2) when the lookup finds nothing, and the
  \<open>OSError\<close> of the lookup when it fails otherwise (\<open>NotADirectoryError\<close>,
  \<open>PermissionError\<close>, ...).  It is raised outside the \<open>try\<close> statement of l.261,
  nothing catches it, and the interpreter reports it on the standard error stream, by
  its class and its text, and ends the process with status 1.  No request has been
  sent and no file has been created.
\<close>

theorem missing_custom_prompt_aborts:
  assumes "args_prompt a = Some p"
    and "p \<noteq> []"
    and "snd (VideoAnnotator e w) = Inr an"
    and "nothing_at (fst (VideoAnnotator e w)) p"
  shows "\<exists>n m. (case fs (fst (VideoAnnotator e w)) p of
                 Some (Unreachable n' m') \<Rightarrow> n = n' \<and> m = m'
               | _ \<Rightarrow> n = 2 \<and> m = ''No such file or directory'')
    \<and> read_text (fst (VideoAnnotator e w)) p = Inl (OSError n m p)
    \<and> snd (run_script e w a) = 1
    \<and> (\<exists>pre. trace (fst (run_script e w a)) =
           pre @ [Stderr (os_class n @ '': '' @ ''[Errno '' @ str_nat n @ ''] '' @ m @ '': ''
                          @ str_repr e p)])
    \<and> calls (trace (fst (run_script e w a))) = calls (trace w)
    \<and> no_new_files w (fst (run_script e w a))"
proof -
  let ?W = "fst (VideoAnnotator e w)"
  define n where "n = (case fs ?W p of Some (Unreachable n' m') \<Rightarrow> n' | _ \<Rightarrow> 2)"
  define m where "m = (case fs ?W p of Some (Unreachable n' m') \<Rightarrow> m'
                                     | _ \<Rightarrow> ''No such file or directory'')"
  have nm: "(case fs ?W p of
                 Some (Unreachable n' m') \<Rightarrow> n = n' \<and> m = m'
               | _ \<Rightarrow> n = 2 \<and> m = ''No such file or directory'')"
    unfolding n_def m_def by (simp split: option.splits node.splits)
  let ?ex = "OSError n m p"
  have rt: "read_text ?W p = Inl ?ex"
    using assms(4) nm
    by (auto simp add: nothing_at_def read_text_def split: option.splits node.splits)
  have r: "snd (read_custom_prompt ?W a) = Inl ?ex"
    using assms(1,2) rt by (simp add: read_custom_prompt_snd truthy_str_def)
  have h: "snd (VideoAnnotator e w) = Inl ?ex
           \<or> (\<exists>an. snd (VideoAnnotator e w) = Inr an)
               \<and> snd (read_custom_prompt ?W a) = Inl ?ex"
    using assms(3) r by simp
  note s = run_script_stops_early [OF h]
  have "no_new_files w ?W" by (rule VideoAnnotator_frame(3))
  then have nn: "no_new_files w (fst (run_script e w a))"
    using s(2) by (simp add: no_new_files_def)
  from s(4) have t: "\<exists>pre. trace (fst (run_script e w a)) =
           pre @ [Stderr (os_class n @ '': '' @ ''[Errno '' @ str_nat n @ ''] '' @ m @ '': ''
                          @ str_repr e p)]"
    by (simp add: os_error_text_def)
  from nm rt s(1) t s(3) nn show ?thesis by blast
qed

theorem missing_custom_prompt_aborts_witness:
  "args_prompt (demo_args\<lparr>args_prompt := Some ''nope.txt''\<rparr>) = Some ''nope.txt''
   \<and> ''nope.txt'' \<noteq> []
   \<and> snd (VideoAnnotator (demo_env (demo_response 200 [])) (demo_world no_refusal)) = Inr demo_self
   \<and> nothing_at (fst (VideoAnnotator (demo_env (demo_response 200 [])) (demo_world no_refusal)))
        ''nope.txt''
   \<and> fs (fst (VideoAnnotator (demo_env (demo_response 200 [])) (demo_world no_refusal)))
        ''nope.txt'' = None
   \<and> (\<exists>n m. (n = 2 \<and> m = ''No such file or directory'')
    \<and> read_text (fst (VideoAnnotator (demo_env (demo_response 200 [])) (demo_world no_refusal)))
         ''nope.txt'' = Inl (OSError n m ''nope.txt'')
    \<and> snd (run_script (demo_env (demo_response 200 [])) (demo_world no_refusal)
            (demo_args\<lparr>args_prompt := Some ''nope.txt''\<rparr>)) = 1
    \<and> (\<exists>pre. trace (fst (run_script (demo_env (demo_response 200 [])) (demo_world no_refusal)
                            (demo_args\<lparr>args_prompt := Some ''nope.txt''\<rparr>))) =
           pre @ [Stderr (os_class n @ '': '' @ ''[Errno '' @ str_nat n @ ''] '' @ m @ '': ''
                          @ str_repr (demo_env (demo_response 200 [])) ''nope.txt'')])
    \<and> calls (trace (fst (run_script (demo_env (demo_response 200 [])) (demo_world no_refusal)
                            (demo_args\<lparr>args_prompt := Some ''nope.txt''\<rparr>)))) =
       calls (trace (demo_world no_refusal))
    \<and> no_new_files (demo_world no_refusal)
        (fst (run_script (demo_env (demo_response 200 [])) (demo_world no_refusal)
                (demo_args\<lparr>args_prompt := Some ''nope.txt''\<rparr>))))
   \<and> os_class 2 @ '': '' @ ''[Errno '' @ str_nat 2 @ ''] '' @ ''No such file or directory'' @ '': ''
        @ str_repr (demo_env (demo_response 200 [])) ''nope.txt'' =
      ''FileNotFoundError: [Errno 2] No such file or directory: '' @ [CHR 0x27] @ ''nope.txt''
        @ [CHR 0x27]"
proof -
  let ?e = "demo_env (demo_response 200 [])"
  let ?w = "demo_world no_refusal"
  let ?a = "demo_args\<lparr>args_prompt := Some ''nope.txt''\<rparr>"
  have h1: "args_prompt ?a = Some ''nope.txt''" by simp
  have h2: "''nope.txt'' \<noteq> []" by simp
  have h3: "snd (VideoAnnotator ?e ?w) = Inr demo_self" by code_simp
  have h4: "nothing_at (fst (VideoAnnotator ?e ?w)) ''nope.txt''" by code_simp
  have h5: "fs (fst (VideoAnnotator ?e ?w)) ''nope.txt'' = None" by code_simp
  have x: "os_class 2 @ '': '' @ ''[Errno '' @ str_nat 2 @ ''] '' @ ''No such file or directory'' @ '': ''
        @ str_repr ?e ''nope.txt'' =
      ''FileNotFoundError: [Errno 2] No such file or directory: '' @ [CHR 0x27] @ ''nope.txt''
        @ [CHR 0x27]"
    by code_simp
  note m = missing_custom_prompt_aborts [OF h1 h2 h3 h4]
  have "\<exists>n m. (n = 2 \<and> m = ''No such file or directory'')
    \<and> read_text (fst (VideoAnnotator ?e ?w)) ''nope.txt'' = Inl (OSError n m ''nope.txt'')
    \<and> snd (run_script ?e ?w ?a) = 1
    \<and> (\<exists>pre. trace (fst (run_script ?e ?w ?a)) =
           pre @ [Stderr (os_class n @ '': '' @ ''[Errno '' @ str_nat n @ ''] '' @ m @ '': ''
                          @ str_repr ?e ''nope.txt'')])
    \<and> calls (trace (fst (run_script ?e ?w ?a))) = calls (trace ?w)
    \<and> no_new_files ?w (fst (run_script ?e ?w ?a))"
    using m unfolding h5 by simp
  with h1 h2 h3 h4 h5 x show ?thesis by blast
qed







text \<open>
  C5.  What \<open>save_results\<close> writes to the structured file (l.189-198) is read back by
  \<open>json.load\<close> as the dictionary that was written: the six members in their order,
  the strings as they were, the two floats as the numerals written for them.  In
  particular the member \<open>annotation\<close> is the annotation text, byte for byte, whatever
  it holds: quotes, backslashes, line breaks and other control characters are escaped
  by the encoder and restored by the decoder, and everything else, the letters outside
  ASCII among it, is written as it is.  It is assumed that the structured file can be
  written, and that the numerals which Python writes for the two floats are numerals
  of JSON, as the \<open>repr\<close> of a float is.
\<close>

theorem json_round_trip:
  assumes "can_write w (str_path (fst (snd (save_results e w self name res))))"
    and "is_json_number (float_repr e (res_fps res))"
    and "is_json_number (float_repr e (res_processing_time res))"
  shows "\<exists>bs kvs.
           fs (fst (save_results e w self name res))
              (str_path (fst (snd (save_results e w self name res)))) = Some (File bs)
           \<and> json_loads bs = Some kvs
           \<and> kvs = [(''video'', VString name),
                    (''model'', VString (res_model res)),
                    (''fps'', VNumber (float_repr e (res_fps res))),
                    (''processing_time'', VNumber (float_repr e (res_processing_time res))),
                    (''timestamp'', VString (strftime (now_save e))),
                    (''annotation'', VString (res_content res))]
           \<and> dict_get kvs ''annotation'' = Some (VString (res_content res))"
proof -
  let ?jp = "str_path (out_path e self name ''.json'')"
  let ?kvs = "json_record name res (strftime (now_save e))"
  have p: "fst (snd (save_results e w self name res)) = out_path e self name ''.json''"
    by (simp add: save_results_paths)
  have d: "?jp \<noteq> str_path (out_path e self name ''.txt'')" by (rule out_paths_distinct)
  have f: "fs (fst (save_results e w self name res)) ?jp = Some (File (json_text e name res))"
    using assms(1) d unfolding p save_results_fs by simp
  have ok: "floats_ok e ?kvs"
    using assms(2,3) by (simp add: floats_ok_def json_record_def)
  have ne: "?kvs \<noteq> []" by (simp add: json_record_def)
  have l: "json_loads (json_text e name res) =
             Some [(''video'', VString name),
                    (''model'', VString (res_model res)),
                    (''fps'', VNumber (float_repr e (res_fps res))),
                    (''processing_time'', VNumber (float_repr e (res_processing_time res))),
                    (''timestamp'', VString (strftime (now_save e))),
                    (''annotation'', VString (res_content res))]"
    unfolding json_text_def json_loads_dumps [OF ne ok]
    by (simp add: json_record_def jvalue_of_def)
  have g: "dict_get [(''video'', VString name),
                    (''model'', VString (res_model res)),
                    (''fps'', VNumber (float_repr e (res_fps res))),
                    (''processing_time'', VNumber (float_repr e (res_processing_time res))),
                    (''timestamp'', VString (strftime (now_save e))),
                    (''annotation'', VString (res_content res))] ''annotation'' =
           Some (VString (res_content res))"
    by (simp add: dict_get_def)
  from f l g show ?thesis unfolding p by blast
qed

theorem json_round_trip_witness:
  "can_write (demo_world no_refusal)
     (str_path (fst (snd (save_results (demo_env (demo_response 200 [])) (demo_world no_refusal)
                            demo_self ''clip.mp4'' demo_result))))
   \<and> is_json_number (float_repr (demo_env (demo_response 200 [])) (res_fps demo_result))
   \<and> is_json_number (float_repr (demo_env (demo_response 200 []))
                       (res_processing_time demo_result))
   \<and> res_content demo_result =
       ''A '' @ [CHR 0x22] @ ''cat'' @ [CHR 0x22, CHR 0x0A, CHR 0xD0, CHR 0x9E] @ ''.''
   \<and> (\<exists>bs kvs.
         fs (fst (save_results (demo_env (demo_response 200 [])) (demo_world no_refusal)
                    demo_self ''clip.mp4'' demo_result))
            ''/app/outputs/clip_20240101_120000.json'' = Some (File bs)
         \<and> json_loads bs = Some kvs
         \<and> dict_get kvs ''annotation'' =
             Some (VString (''A '' @ [CHR 0x22] @ ''cat''
                              @ [CHR 0x22, CHR 0x0A, CHR 0xD0, CHR 0x9E] @ ''.'')))"
proof -
  let ?e = "demo_env (demo_response 200 [])"
  let ?w = "demo_world no_refusal"
  have p: "str_path (fst (snd (save_results ?e ?w demo_self ''clip.mp4'' demo_result))) =
             ''/app/outputs/clip_20240101_120000.json''"
    unfolding save_results_paths by code_simp
  have h1: "can_write ?w (str_path (fst (snd (save_results ?e ?w demo_self ''clip.mp4'' demo_result))))"
    unfolding p by code_simp
  have h2: "is_json_number (float_repr ?e (res_fps demo_result))" by code_simp
  have h3: "is_json_number (float_repr ?e (res_processing_time demo_result))" by code_simp
  have c: "res_content demo_result =
       ''A '' @ [CHR 0x22] @ ''cat'' @ [CHR 0x22, CHR 0x0A, CHR 0xD0, CHR 0x9E] @ ''.''"
    by (simp add: demo_result_def demo_text_def)
  from json_round_trip [OF h1 h2 h3] obtain bs kvs where
    "fs (fst (save_results ?e ?w demo_self ''clip.mp4'' demo_result))
        (str_path (fst (snd (save_results ?e ?w demo_self ''clip.mp4'' demo_result)))) = Some (File bs)"
    "json_loads bs = Some kvs"
    "dict_get kvs ''annotation'' = Some (VString (res_content demo_result))"
    by blast
  then have "\<exists>bs kvs.
         fs (fst (save_results ?e ?w demo_self ''clip.mp4'' demo_result))
            ''/app/outputs/clip_20240101_120000.json'' = Some (File bs)
         \<and> json_loads bs = Some kvs
         \<and> dict_get kvs ''annotation'' =
             Some (VString (''A '' @ [CHR 0x22] @ ''cat''
                              @ [CHR 0x22, CHR 0x0A, CHR 0xD0, CHR 0x9E] @ ''.''))"
    unfolding p c by blast
  with h1 h2 h3 c show ?thesis by blast
qed

end
